(* ===== verification/LM_Prelude.thy ===== *)
theory LM_Prelude
  imports Main "HOL-Library.Word" "HOL-Library.Monad_Syntax"
begin

text \<open>
  Shared vocabulary of the development: the names of the C types the program uses
  (pointers, fixed-width integers, nullable strings, bytes), the collections of facts the
  component theories extend, and generic lemmas on lists and on the option monad.
\<close>

section \<open>C types\<close>

type_synonym ptr = nat
type_synonym u16 = "16 word"
type_synonym u64 = "64 word"

text \<open>
  A \<open>char *\<close> that may be NULL. A byte is a \<open>char\<close>; a byte buffer is a list of them.
\<close>

type_synonym cstr = "string option"

definition STX :: char where
  "STX = CHR 0x02"

definition ETX :: char where
  "ETX = CHR 0x03"

definition FS :: char where
  "FS = CHR 0x1C"

lemma control_bytes_distinct [simp]:
  "STX \<noteq> ETX" "ETX \<noteq> STX" "FS \<noteq> ETX" "ETX \<noteq> FS" "FS \<noteq> STX" "STX \<noteq> FS"
  by (simp_all add: STX_def ETX_def FS_def)

section \<open>Collections of facts\<close>

text \<open>
  \<open>lm_frame\<close>: which fields a primitive step leaves alone.
  \<open>lm_inv_simps\<close>: primitive steps the connection invariant does not look at.
  \<open>lm_locks\<close>: the effect of each operation on the locks held.
\<close>

named_theorems lm_frame
named_theorems lm_inv_simps
named_theorems lm_locks

section \<open>Decimal numbers\<close>

definition is_digit :: "char \<Rightarrow> bool" where
  "is_digit ch \<longleftrightarrow> (48 :: nat) \<le> of_char ch \<and> of_char ch \<le> (57 :: nat)"

definition digit_char :: "nat \<Rightarrow> char" where
  "digit_char d = char_of (48 + d)"

definition char_digit :: "char \<Rightarrow> nat" where
  "char_digit ch = of_char ch - 48"

fun decimal :: "nat \<Rightarrow> string" where
  "decimal n = (if n < 10 then [digit_char n] else decimal (n div 10) @ [digit_char (n mod 10)])"

declare decimal.simps [simp del]

definition undecimal :: "string \<Rightarrow> nat" where
  "undecimal s = foldl (\<lambda>acc ch. 10 * acc + char_digit ch) 0 s"

lemma of_char_digit_char: "d < 10 \<Longrightarrow> of_char (digit_char d) = 48 + d"
  by (simp add: digit_char_def)

lemma digit_char_is_digit: "d < 10 \<Longrightarrow> is_digit (digit_char d)"
  by (simp add: is_digit_def of_char_digit_char)

lemma char_digit_digit_char: "d < 10 \<Longrightarrow> char_digit (digit_char d) = d"
  by (simp add: char_digit_def of_char_digit_char)

lemma decimal_not_Nil [simp]: "decimal n \<noteq> []"
  by (subst decimal.simps) simp

lemma decimal_digits: "ch \<in> set (decimal n) \<Longrightarrow> is_digit ch"
proof (induction n rule: decimal.induct)
  case (1 n)
  show ?case
  proof (cases "n < 10")
    case True
    with 1 show ?thesis by (simp add: decimal.simps [of n] digit_char_is_digit)
  next
    case False
    with 1 show ?thesis by (auto simp: decimal.simps [of n] digit_char_is_digit)
  qed
qed

lemma undecimal_snoc: "undecimal (s @ [ch]) = 10 * undecimal s + char_digit ch"
  by (simp add: undecimal_def)

lemma undecimal_decimal: "undecimal (decimal n) = n"
proof (induction n rule: decimal.induct)
  case (1 n)
  show ?case
  proof (cases "n < 10")
    case True
    then show ?thesis
      by (simp add: decimal.simps [of n] undecimal_def char_digit_digit_char)
  next
    case False
    with 1 have "undecimal (decimal (n div 10)) = n div 10" by simp
    with False show ?thesis
      by (simp add: decimal.simps [of n] undecimal_snoc char_digit_digit_char)
  qed
qed

lemma control_not_digit [simp]: "\<not> is_digit FS" "\<not> is_digit ETX" "\<not> is_digit STX"
  by (simp_all add: is_digit_def FS_def ETX_def STX_def)

section \<open>Lists and options\<close>

text \<open>
  With this congruence rule the simplifier evaluates the first computation of a bind before
  it looks at the continuation, so that recursive calls in the continuation do not unfold
  forever.
\<close>

lemma bind_weak_cong: "m = m' \<Longrightarrow> Option.bind m f = Option.bind m' f"
  by simp

lemma remove1_notin [simp]: "x \<notin> set xs \<Longrightarrow> remove1 x xs = xs"
  by (induction xs) auto

lemma distinct_remove1_set: "distinct xs \<Longrightarrow> set (remove1 x xs) = set xs - {x}"
  by (rule set_remove1_eq)

lemma takeWhile_dropWhile_split:
  assumes "x \<in> set xs"
  obtains pre post where "xs = pre @ x # post" and "x \<notin> set pre"
  using assms by (meson split_list_first)

section \<open>What a program keeps\<close>

text \<open>
  A reading of the state that a program keeps, one step at a time: for the operations whose
  state expressions grow.
\<close>

lemma kept_let:
  assumes "g a = v" "\<And>x. g x = v \<Longrightarrow> g (f x) = v"
  shows "g (let x = a in f x) = v"
  using assms by (simp add: Let_def)

lemma kept_let_snd:
  assumes "g a = v" "\<And>x. g x = v \<Longrightarrow> g (snd (f x)) = v"
  shows "g (snd (let x = a in f x)) = v"
  using assms by (simp add: Let_def)

lemma kept_let_any: "(\<And>x. g (snd (f x)) = v) \<Longrightarrow> g (snd (let x = a in f x)) = v"
  by (simp add: Let_def)

lemma kept_let_pair:
  assumes "g (snd a) = v" "\<And>h x. g x = v \<Longrightarrow> g (snd (f h x)) = v"
  shows "g (snd (let (h, x) = a in f h x)) = v"
  using assms by (simp add: Let_def split_beta)

lemma kept_case_snd:
  assumes "g (snd a) = v" "\<And>x. g (snd (f x)) = v"
  shows "g (snd (case tp of None \<Rightarrow> a | Some x \<Rightarrow> f x)) = v"
  using assms by (simp split: option.split)

lemma kept_if_snd: "g (snd a) = v \<Longrightarrow> g (snd b) = v \<Longrightarrow> g (snd (if P then a else b)) = v"
  by simp

lemma kept_if: "g a = v \<Longrightarrow> g b = v \<Longrightarrow> g (if P then a else b) = v"
  by simp

lemmas kept_steps = kept_let_snd kept_let kept_if kept_let_any kept_let_pair kept_case_snd kept_if_snd

section \<open>Programs of guarded steps\<close>

text \<open>
  A client is a list of steps, each a function that may fail to return (\<open>None\<close>). It keeps to
  the rules when every step is legal in the state it is made in. A system that promises to
  return from each legal step, with its invariant kept and its states related, promises the
  same of every list of steps that keeps to the rules.
\<close>

fun run_steps :: "('a \<Rightarrow> 's \<Rightarrow> 's option) \<Rightarrow> 'a list \<Rightarrow> 's \<Rightarrow> 's option" where
  "run_steps step [] c = Some c"
| "run_steps step (a # as) c = Option.bind (step a c) (run_steps step as)"

fun steps_ok :: "('a \<Rightarrow> 's \<Rightarrow> 's option) \<Rightarrow> ('s \<Rightarrow> 'a \<Rightarrow> bool) \<Rightarrow> 's \<Rightarrow> 'a list \<Rightarrow> bool" where
  "steps_ok step legal c [] = True"
| "steps_ok step legal c (a # as) =
     (legal c a \<and> (case step a c of None \<Rightarrow> True | Some c' \<Rightarrow> steps_ok step legal c' as))"

locale guarded_steps =
  fixes step :: "'a \<Rightarrow> 's \<Rightarrow> 's option"
    and legal :: "'s \<Rightarrow> 'a \<Rightarrow> bool"
    and inv :: "'s \<Rightarrow> bool"
    and rel :: "'s \<Rightarrow> 's \<Rightarrow> bool"
  assumes step_total: "\<lbrakk>inv c; legal c a\<rbrakk> \<Longrightarrow> \<exists>c'. step a c = Some c' \<and> inv c' \<and> rel c c'"
    and rel_refl: "rel x x"
    and rel_trans: "\<lbrakk>rel x y; rel y z\<rbrakk> \<Longrightarrow> rel x z"
begin

lemma run_total:
  assumes "inv c" "steps_ok step legal c as"
  shows "\<exists>c'. run_steps step as c = Some c' \<and> inv c' \<and> rel c c'"
  using assms
proof (induction as arbitrary: c)
  case Nil
  then show ?case by (simp add: rel_refl)
next
  case (Cons a as)
  then obtain d where d: "step a c = Some d" "inv d" "rel c d"
    using step_total [of c a] by auto
  with Cons.prems(2) have "steps_ok step legal d as" by simp
  then obtain e where "run_steps step as d = Some e" "inv e" "rel d e"
    using Cons.IH d(2) by blast
  with d rel_trans show ?case by auto
qed

end

end
