(* ===== verification/LM_Types.thy ===== *)
theory LM_Types
  imports LM_Prelude
begin

text \<open>
  The enumerations of \<open>include/monetra_api.h\<close>, the two structures every component works on
  (\<open>struct LM_trans\<close> of \<open>src/monetra_trans.h\<close>, the entries of the event list of
  \<open>src/monetra_conn_event.c\<close>), and the record of calls the library makes to the world
  outside it: mutexes, timers, triggers, io objects, the user's callback, and frees.
\<close>

section \<open>Enumerations of the public header\<close>

datatype LM_event_type =
    LM_EVENT_CONN_CONNECTED
  | LM_EVENT_CONN_DISCONNECT
  | LM_EVENT_CONN_ERROR
  | LM_EVENT_TRANS_DONE
  | LM_EVENT_TRANS_ERROR
  | LM_EVENT_TRANS_NOCONNECT
  | LM_EVENT_TRANS_TIMEOUT

datatype LM_mode = LM_MODE_TLS | LM_MODE_IP

datatype LM_conn_status_t =
    LM_CONN_STATUS_CONNECTING
  | LM_CONN_STATUS_CONNECTED
  | LM_CONN_STATUS_DISCONNECTING
  | LM_CONN_STATUS_IDLE_TIMEOUT
  | LM_CONN_STATUS_DISCONNECTED

datatype LM_trans_status_t =
    LM_TRANS_STATUS_ALL
  | LM_TRANS_STATUS_NEW
  | LM_TRANS_STATUS_READY
  | LM_TRANS_STATUS_PENDING
  | LM_TRANS_STATUS_DONE

text \<open>
  The order of the enumeration's values is the order in which a transaction takes them, so the
  type is ordered by them.
\<close>

fun status_value :: "LM_trans_status_t \<Rightarrow> nat" where
  "status_value LM_TRANS_STATUS_ALL = 1"
| "status_value LM_TRANS_STATUS_NEW = 2"
| "status_value LM_TRANS_STATUS_READY = 3"
| "status_value LM_TRANS_STATUS_PENDING = 4"
| "status_value LM_TRANS_STATUS_DONE = 5"

lemma status_value_inj: "status_value s = status_value s' \<Longrightarrow> s = s'"
  by (cases s; cases s') simp_all

instantiation LM_trans_status_t :: linorder
begin

definition less_eq_LM_trans_status_t :: "LM_trans_status_t \<Rightarrow> LM_trans_status_t \<Rightarrow> bool" where
  "less_eq_LM_trans_status_t s s' \<longleftrightarrow> status_value s \<le> status_value s'"

definition less_LM_trans_status_t :: "LM_trans_status_t \<Rightarrow> LM_trans_status_t \<Rightarrow> bool" where
  "less_LM_trans_status_t s s' \<longleftrightarrow> status_value s < status_value s'"

instance
  by standard (auto simp: less_eq_LM_trans_status_t_def less_LM_trans_status_t_def intro: status_value_inj)

end

lemma status_le [simp]:
  "LM_TRANS_STATUS_NEW \<le> LM_TRANS_STATUS_READY" "LM_TRANS_STATUS_NEW \<le> LM_TRANS_STATUS_PENDING"
  "LM_TRANS_STATUS_READY \<le> LM_TRANS_STATUS_PENDING" "s \<le> LM_TRANS_STATUS_DONE"
  by (simp_all add: less_eq_LM_trans_status_t_def) (cases s; simp)

datatype LM_trans_response_type_t =
    LM_TRANS_RESPONSE_UNKNOWN
  | LM_TRANS_RESPONSE_KV
  | LM_TRANS_RESPONSE_CSV
  | LM_TRANS_RESPONSE_BULK

datatype LM_conn_parse_error =
    LM_CONN_PARSE_ERROR_SUCCESS
  | LM_CONN_PARSE_ERROR_WAIT
  | LM_CONN_PARSE_ERROR_ERROR

section \<open>Values of the mstdlib types the program holds\<close>

text \<open>
  The program uses the containers of mstdlib only through their functions. A container is
  represented by its contents: a queue, a list or a linked list of pointers by the list of
  its members, a dictionary by its key/value pairs, the id table by its pairs, a buffer by
  its bytes, a parser by the bytes consumed since the mark (if there is one) and those left.
  What the functions do to the contents is a parameter (theory \<open>Mstdlib\<close>).
  Timers, triggers, io objects and TLS contexts are opaque handles.
\<close>

type_synonym dict = "(string \<times> cstr) list"
type_synonym id_map = "(u64 \<times> ptr) list"
type_synonym csv = "string list list"
type_synonym handle = nat

record parser =
  p_mark :: cstr
  p_rest :: string

datatype M_event_type =
    M_EVENT_TYPE_CONNECTED
  | M_EVENT_TYPE_ACCEPT
  | M_EVENT_TYPE_READ
  | M_EVENT_TYPE_WRITE
  | M_EVENT_TYPE_DISCONNECTED
  | M_EVENT_TYPE_ERROR
  | M_EVENT_TYPE_OTHER

section \<open>Transactions\<close>

record LM_trans =
  trans_id :: u64
  status :: LM_trans_status_t
  request_params :: "dict option"
  response_type :: LM_trans_response_type_t
  response_params :: "dict option"
  response_raw :: cstr
  response_csv :: "csv option"
  timeout_s :: u64
  timeout_timer :: "handle option"
  user_data :: "nat option"

datatype LM_conn_events_entry = Entry (ev_type: LM_event_type) (ev_trans: "ptr option")

section \<open>The calls to the outside\<close>

datatype lock_id = Conn_lock | Trans_lock ptr

datatype call =
    Mutex_lock lock_id
  | Mutex_unlock lock_id
  | Mutex_destroy lock_id
  | Rand_range u64 u64
  | Timer_add handle
  | Timer_oneshot handle u64 "ptr option"
  | Timer_set_firecount "handle option" nat
  | Timer_reset "handle option" u64
  | Timer_stop "handle option"
  | Timer_remove "handle option"
  | Trigger_add handle
  | Trigger_signal "handle option"
  | Trigger_remove "handle option"
  | Io_net_client_create cstr u16
  | Io_net_set_keepalives nat nat nat
  | Io_net_set_connect_timeout u64
  | Io_tls_client_add cstr
  | Io_destroy "handle option"
  | Io_disconnect handle
  | Io_write_from_buf string
  | Io_read_into_parser
  | Io_get_error_string
  | Iocreate_cb nat
  | Event_add handle
  | Tls_create handle
  | Tls_configure string
  | Tls_destroy handle
  | Tls_upref handle
  | Event_callback LM_event_type "ptr option"
  | Trans_free ptr
  | Conn_free

text \<open>
  The lock discipline as a property of a log of calls, the newest call first: which locks
  are held after it, or \<open>None\<close> when a call in it blocks for ever (the mutexes are not
  recursive), releases a lock that is not held, destroys one that is, or takes the connection's
  lock while a transaction's is held (the order \<open>LM_trans_send\<close> documents).
\<close>

fun locks_held :: "call list \<Rightarrow> lock_id list option" where
  "locks_held [] = Some []"
| "locks_held (x # cs) =
     (case locks_held cs of
        None \<Rightarrow> None
      | Some hs \<Rightarrow>
          (case x of
             Mutex_lock l \<Rightarrow>
               if l \<in> set hs \<or> (l = Conn_lock \<and> hs \<noteq> []) then None else Some (l # hs)
           | Mutex_unlock l \<Rightarrow> if l \<in> set hs then Some (remove1 l hs) else None
           | Mutex_destroy l \<Rightarrow> if l \<in> set hs then None else Some hs
           | _ \<Rightarrow> Some hs))"

text \<open>The events the user's callback has received, oldest first.\<close>

fun delivered_rev :: "call list \<Rightarrow> LM_conn_events_entry list" where
  "delivered_rev [] = []"
| "delivered_rev (x # cs) =
     (case x of Event_callback ev t \<Rightarrow> Entry ev t # delivered_rev cs | _ \<Rightarrow> delivered_rev cs)"

definition delivered :: "call list \<Rightarrow> LM_conn_events_entry list" where
  "delivered cs = rev (delivered_rev cs)"

end
