(* ===== verification/Mstdlib.thy ===== *)
theory Mstdlib
  imports LM_Types
begin

text \<open>
  The functions of mstdlib (the library libmonetra is built on, not part of this repository)
  that the program calls, as one record of parameters. Functions on data take and return the
  contents of the containers. Functions whose answer comes from the outside world (random
  numbers, sockets, the event loop, TLS) also take the log of the calls made so far, so that
  the same question may be answered differently each time it is asked.

  The locales state what the documentation of mstdlib promises about the functions and the
  program relies on. Everything else about them is left open.
\<close>

record mstd =
  \<comment> \<open>strings\<close>
  M_str_isempty :: "cstr \<Rightarrow> bool"
  M_str_eq :: "cstr \<Rightarrow> cstr \<Rightarrow> bool"
  M_str_caseeq :: "cstr \<Rightarrow> cstr \<Rightarrow> bool"
  M_str_trim :: "string \<Rightarrow> string"
  M_chr_isalnumsp :: "char \<Rightarrow> bool"
  M_str_explode_quoted :: "char \<Rightarrow> string \<Rightarrow> char \<Rightarrow> char \<Rightarrow> nat \<Rightarrow> string list option"
  M_str_explode_str_quoted :: "char \<Rightarrow> string \<Rightarrow> char \<Rightarrow> char \<Rightarrow> nat \<Rightarrow> string list option"
  M_str_to_int32 :: "string \<Rightarrow> int"
  M_str_to_int64 :: "string \<Rightarrow> int"
  M_bincodec_encode :: "string \<Rightarrow> cstr"
  M_bincodec_decode :: "string \<Rightarrow> cstr"
  \<comment> \<open>containers\<close>
  M_queue_len :: "ptr list \<Rightarrow> nat"
  M_queue_insert :: "ptr list \<Rightarrow> ptr \<Rightarrow> ptr list"
  M_queue_take :: "ptr list \<Rightarrow> ptr \<Rightarrow> ptr list"
  M_queue_take_first :: "ptr list \<Rightarrow> ptr option \<times> ptr list"
  M_queue_foreach :: "ptr list \<Rightarrow> ptr list"
  M_llist_insert :: "ptr list \<Rightarrow> ptr \<Rightarrow> ptr list"
  M_llist_first :: "ptr list \<Rightarrow> ptr option"
  M_llist_take :: "ptr list \<Rightarrow> ptr \<Rightarrow> ptr list"
  M_list_insert :: "LM_conn_events_entry list \<Rightarrow> LM_conn_events_entry \<Rightarrow> LM_conn_events_entry list"
  M_list_take_first ::
    "LM_conn_events_entry list \<Rightarrow> LM_conn_events_entry option \<times> LM_conn_events_entry list"
  M_list_ptr_insert :: "ptr list \<Rightarrow> ptr \<Rightarrow> ptr list"
  M_hash_u64vp_get :: "id_map \<Rightarrow> u64 \<Rightarrow> ptr option"
  M_hash_u64vp_insert :: "id_map \<Rightarrow> u64 \<Rightarrow> ptr \<Rightarrow> id_map"
  M_hash_u64vp_remove :: "id_map \<Rightarrow> u64 \<Rightarrow> id_map"
  M_hash_dict_num_keys :: "dict option \<Rightarrow> nat"
  M_hash_dict_insert :: "dict \<Rightarrow> string \<Rightarrow> cstr \<Rightarrow> dict"
  M_hash_dict_get_direct :: "dict option \<Rightarrow> string \<Rightarrow> cstr"
  M_hash_dict_duplicate :: "dict \<Rightarrow> dict"
  M_hash_dict_keys :: "dict option \<Rightarrow> string list"
  M_hash_dict_serialize :: "dict option \<Rightarrow> string"
  \<comment> \<open>buffers and parsers\<close>
  M_buf_len :: "string \<Rightarrow> nat"
  M_buf_add_byte :: "string \<Rightarrow> char \<Rightarrow> string"
  M_buf_add_str :: "string \<Rightarrow> string \<Rightarrow> string"
  M_buf_add_uint :: "string \<Rightarrow> u64 \<Rightarrow> string"
  M_buf_truncate :: "string \<Rightarrow> nat \<Rightarrow> string"
  M_parser_len :: "parser \<Rightarrow> nat"
  M_parser_peek_byte :: "parser \<Rightarrow> char option"
  M_parser_peek :: "parser \<Rightarrow> string"
  M_parser_read_byte :: "parser \<Rightarrow> (char \<times> parser) option"
  M_parser_read_uint :: "parser \<Rightarrow> (u64 \<times> parser) option"
  M_parser_mark :: "parser \<Rightarrow> parser"
  M_parser_mark_rewind :: "parser \<Rightarrow> parser"
  M_parser_mark_clear :: "parser \<Rightarrow> parser"
  M_parser_peek_mark :: "parser \<Rightarrow> cstr"
  M_parser_consume_until :: "parser \<Rightarrow> char \<Rightarrow> nat \<times> parser"
  M_parser_truncate :: "parser \<Rightarrow> nat \<Rightarrow> parser"
  M_csv_parse_inplace :: "string \<Rightarrow> csv option"
  M_csv_get_cell :: "csv \<Rightarrow> u64 \<Rightarrow> string \<Rightarrow> cstr"
  M_csv_get_cellbynum :: "csv \<Rightarrow> u64 \<Rightarrow> u64 \<Rightarrow> cstr"
  M_csv_get_header :: "csv \<Rightarrow> u64 \<Rightarrow> cstr"
  M_csv_get_numcols :: "csv \<Rightarrow> u64"
  M_csv_get_numrows :: "csv \<Rightarrow> u64"
  \<comment> \<open>the world: answers may depend on everything that happened before\<close>
  M_thread_once :: "bool \<Rightarrow> bool"
  M_rand_range :: "call list \<Rightarrow> u64 \<Rightarrow> u64 \<Rightarrow> u64"
  M_io_net_client_create :: "call list \<Rightarrow> nat option"
  M_io_tls_client_add :: "call list \<Rightarrow> nat option"
  M_io_error_string :: "nat \<Rightarrow> string"
  M_io_get_error_string :: "call list \<Rightarrow> string"
  M_io_write_from_buf :: "call list \<Rightarrow> string \<Rightarrow> string"
  M_io_read_into_parser :: "call list \<Rightarrow> parser \<Rightarrow> bool \<times> parser"
  M_event_add :: "call list \<Rightarrow> bool"
  M_tls_clientctx_set_cert :: "call list \<Rightarrow> handle option \<Rightarrow> bool"

section \<open>Strings\<close>

definition is_alnum_sp :: "char \<Rightarrow> bool" where
  "is_alnum_sp ch \<longleftrightarrow>
     (let n = of_char ch :: nat in
        48 \<le> n \<and> n \<le> 57 \<or> 65 \<le> n \<and> n \<le> 90 \<or> 97 \<le> n \<and> n \<le> 122 \<or> n = 32)"

definition lower :: "char \<Rightarrow> char" where
  "lower ch = (let n = of_char ch :: nat in if 65 \<le> n \<and> n \<le> 90 then char_of (n + 32) else ch)"

definition lowers :: "string \<Rightarrow> string" where
  "lowers s = map lower s"

locale string_api =
  fixes L :: mstd
  assumes isempty [simp]: "M_str_isempty L s \<longleftrightarrow> s = None \<or> s = Some []"
    and str_eq [simp]: "M_str_eq L (Some a) (Some b) \<longleftrightarrow> a = b"
    and caseeq [simp]: "M_str_caseeq L (Some a) (Some b) \<longleftrightarrow> lowers a = lowers b"
    and caseeq_null: "b \<noteq> [] \<Longrightarrow> \<not> M_str_caseeq L None (Some b)"
    and isalnumsp [simp]: "M_chr_isalnumsp L ch \<longleftrightarrow> is_alnum_sp ch"

section \<open>Queues and lists of pointers\<close>

text \<open>
  A queue created without a sort callback keeps insertion order and holds a pointer once;
  \<open>M_queue_take\<close> of a pointer that is not a member does nothing.
\<close>

locale queue_api =
  fixes L :: mstd
  assumes queue_len [simp]: "M_queue_len L q = length q"
    and queue_insert [simp]: "x \<notin> set q \<Longrightarrow> M_queue_insert L q x = q @ [x]"
    and queue_take [simp]: "distinct q \<Longrightarrow> M_queue_take L q x = remove1 x q"
    and queue_take_first_Nil [simp]: "M_queue_take_first L [] = (None, [])"
    and queue_take_first_Cons [simp]: "M_queue_take_first L (y # q) = (Some y, q)"
    and queue_foreach [simp]: "M_queue_foreach L q = q"

locale list_api =
  fixes L :: mstd
  assumes llist_insert [simp]: "M_llist_insert L l x = l @ [x]"
    and llist_first_Nil [simp]: "M_llist_first L [] = None"
    and llist_first_Cons [simp]: "M_llist_first L (y # l) = Some y"
    and llist_take_Cons [simp]: "M_llist_take L (y # l) y = l"
    and list_insert [simp]: "M_list_insert L es e = es @ [e]"
    and list_take_first_Nil [simp]: "M_list_take_first L [] = (None, [])"
    and list_take_first_Cons [simp]: "M_list_take_first L (e # es) = (Some e, es)"
    and list_ptr_insert [simp]: "M_list_ptr_insert L ps x = ps @ [x]"

section \<open>Tables\<close>

locale id_map_api =
  fixes L :: mstd
  assumes id_get_empty [simp]: "M_hash_u64vp_get L [] k = None"
    and id_get_insert [simp]:
      "M_hash_u64vp_get L (M_hash_u64vp_insert L m k p) k' =
         (if k' = k then Some p else M_hash_u64vp_get L m k')"
    and id_get_remove [simp]:
      "M_hash_u64vp_get L (M_hash_u64vp_remove L m k) k' =
         (if k' = k then None else M_hash_u64vp_get L m k')"

text \<open>
  Dictionaries are created with \<open>M_HASH_DICT_CASECMP\<close>: keys that differ only in case are
  the same key. A NULL dictionary has no key.
\<close>

locale dict_api =
  fixes L :: mstd
  assumes num_keys_null [simp]: "M_hash_dict_num_keys L None = 0"
    and num_keys_empty [simp]: "M_hash_dict_num_keys L (Some []) = 0"
    and num_keys_insert [simp]:
      "k \<noteq> [] \<Longrightarrow> M_hash_dict_num_keys L (Some (M_hash_dict_insert L d k v)) =
         M_hash_dict_num_keys L (Some d) +
           (if \<exists>k' \<in> set (M_hash_dict_keys L (Some d)). lowers k' = lowers k then 0 else 1)"
    and keys_empty [simp]: "M_hash_dict_keys L (Some []) = []"
    and keys_insert:
      "k \<noteq> [] \<Longrightarrow> lowers ` set (M_hash_dict_keys L (Some (M_hash_dict_insert L d k v))) =
         insert (lowers k) (lowers ` set (M_hash_dict_keys L (Some d)))"
    and get_null [simp]: "M_hash_dict_get_direct L None k = None"
    and get_empty [simp]: "M_hash_dict_get_direct L (Some []) k = None"
    and get_insert [simp]:
      "k \<noteq> [] \<Longrightarrow> M_hash_dict_get_direct L (Some (M_hash_dict_insert L d k v)) k' =
         (if lowers k' = lowers k then v else M_hash_dict_get_direct L (Some d) k')"
    and duplicate [simp]: "M_hash_dict_duplicate L d = d"

section \<open>Buffers and parsers\<close>

locale buf_api =
  fixes L :: mstd
  assumes buf_len [simp]: "M_buf_len L b = length b"
    and buf_add_byte [simp]: "M_buf_add_byte L b ch = b @ [ch]"
    and buf_add_str [simp]: "M_buf_add_str L b s = b @ s"
    and buf_add_uint [simp]: "M_buf_add_uint L b n = b @ decimal (unat n)"
    and buf_truncate [simp]: "M_buf_truncate L b k = take k b"

text \<open>
  \<open>M_parser_consume_until\<close> with \<open>eat_pat\<close> consumes up to and including the first
  occurrence of the byte and returns how many bytes that was; it returns 0 and consumes
  nothing when there is none. \<open>M_parser_read_uint\<close> reads the decimal digits at the front,
  as many as there are; it fails when there is none or the number does not fit.
\<close>

locale parser_api =
  fixes L :: mstd
  assumes parser_len [simp]: "M_parser_len L p = length (p_rest p)"
    and parser_peek [simp]: "M_parser_peek L p = p_rest p"
    and parser_peek_byte [simp]: "p_rest p = b # bs \<Longrightarrow> M_parser_peek_byte L p = Some b"
    and parser_read_byte_Nil [simp]: "p_rest p = [] \<Longrightarrow> M_parser_read_byte L p = None"
    and parser_read_byte_Cons [simp]:
      "p_rest p = b # bs \<Longrightarrow> M_parser_read_byte L p = Some (b, p\<lparr>p_rest := bs\<rparr>)"
    and parser_read_uint_none [simp]:
      "p_rest p = [] \<or> \<not> is_digit (hd (p_rest p)) \<Longrightarrow> M_parser_read_uint L p = None"
    and parser_read_uint_some:
      "\<lbrakk>p_rest p = ds @ rest; ds \<noteq> []; \<forall>ch \<in> set ds. is_digit ch;
        rest = [] \<or> \<not> is_digit (hd rest); undecimal ds < 2 ^ 64\<rbrakk>
       \<Longrightarrow> M_parser_read_uint L p = Some (of_nat (undecimal ds), p\<lparr>p_rest := rest\<rparr>)"
    and parser_mark [simp]: "M_parser_mark L p = p\<lparr>p_mark := Some []\<rparr>"
    and parser_mark_rewind [simp]:
      "p_mark p = Some m \<Longrightarrow> M_parser_mark_rewind L p = \<lparr>p_mark = None, p_rest = m @ p_rest p\<rparr>"
    and parser_mark_clear [simp]: "M_parser_mark_clear L p = p\<lparr>p_mark := None\<rparr>"
    and parser_peek_mark [simp]: "p_mark p = Some m \<Longrightarrow> M_parser_peek_mark L p = Some m"
    and parser_consume_none [simp]: "ch \<notin> set (p_rest p) \<Longrightarrow> M_parser_consume_until L p ch = (0, p)"
    and parser_consume_some:
      "\<lbrakk>p_rest p = pre @ ch # post; ch \<notin> set pre; p_mark p = Some m\<rbrakk>
       \<Longrightarrow> M_parser_consume_until L p ch =
             (Suc (length pre), \<lparr>p_mark = Some (m @ pre @ [ch]), p_rest = post\<rparr>)"
    and parser_truncate [simp]: "M_parser_truncate L p k = \<lparr>p_mark = None, p_rest = take k (p_rest p)\<rparr>"

section \<open>One-time initialisation\<close>

text \<open>
  \<open>M_thread_once\<close> runs its function, and returns true, exactly when the flag says that
  it has not run yet.
\<close>

locale once_api =
  fixes L :: mstd
  assumes thread_once [simp]: "M_thread_once L already \<longleftrightarrow> \<not> already"

section \<open>All of it, and the random numbers\<close>

locale mstd_api =
  string_api L + queue_api L + list_api L + id_map_api L + dict_api L + buf_api L + parser_api L + once_api L
  for L :: mstd

text \<open>
  \<open>M_rand_range(r, lo, hi)\<close> draws from \<open>lo \<le> x < hi\<close>. A fair generator drawn from often
  enough, whatever was drawn before and whatever finite list of numbers that leaves one free
  is to be avoided, gives a number outside the list.
\<close>

fun draws_log :: "u64 \<Rightarrow> u64 \<Rightarrow> nat \<Rightarrow> call list \<Rightarrow> call list" where
  "draws_log lo hi 0 cs = cs"
| "draws_log lo hi (Suc n) cs = draws_log lo hi n (Rand_range lo hi # cs)"

locale mstd_rand_api = mstd_api L for L :: mstd +
  assumes rand_range: "lo < hi \<Longrightarrow> lo \<le> M_rand_range L cs lo hi \<and> M_rand_range L cs lo hi < hi"
    and rand_fair:
      "\<lbrakk>finite U; \<exists>x. lo \<le> x \<and> x < hi \<and> x \<notin> U\<rbrakk>
       \<Longrightarrow> \<exists>n. M_rand_range L (draws_log lo hi n cs) lo hi \<notin> U"

end
