(* ===== verification/LM_State.thy ===== *)
theory LM_State
  imports Mstdlib
begin

text \<open>
  The state of one connection: the fields of \<open>struct LM_conn\<close> (\<open>src/monetra_conn.h\<close>) and
  the part of the heap that belongs to it, its transactions by address; and the primitive
  steps every operation is built of: a call to the outside, taking a lock, reading or writing
  through a pointer.

  Reading or writing through a pointer to memory that is not allocated, and freeing it again,
  is undefined in C. Here it sets \<open>fault\<close>, which no step resets: what a run does after that
  means nothing, and the theorems show that it is never set.
\<close>

section \<open>The connection\<close>

record LM_conn =
  trans_new :: "ptr list"
  trans_ready :: "ptr list"
  trans_pending :: "ptr list"
  trans_done :: "ptr list"
  trans_id_map :: id_map
  conn_status :: LM_conn_status_t
  io :: "handle option"
  tlsctx :: "handle option"
  in_use :: bool
  trans_delay_rm :: "ptr list"
  destroy :: bool
  outbuf :: string
  inbuf :: parser
  timer :: "handle option"
  write_trigger :: "handle option"
  pingtxn :: "ptr option"
  error :: string
  host :: cstr
  port :: u16
  mode :: LM_mode
  disable_ping :: bool
  conn_timeout :: u64
  idle_timeout :: u64
  conn_user_data :: "nat option"
  iocreate_cb :: "nat option"
  \<comment> \<open>not fields of the struct: the heap, the handles given out, the outside world\<close>
  txns :: "ptr \<Rightarrow> LM_trans option"
  next_ptr :: ptr
  next_handle :: handle
  conn_freed :: bool
  fault :: bool
  calls :: "call list"

text \<open>The \<open>LM_conn_t *\<close> argument of an operation: NULL or the connection.\<close>

datatype conn_ptr = NULL | CONN

section \<open>Primitive steps\<close>

definition ext :: "call \<Rightarrow> LM_conn \<Rightarrow> LM_conn" where
  "ext x c = c\<lparr>calls := x # calls c\<rparr>"

definition touch :: "LM_conn \<Rightarrow> LM_conn" where
  "touch c = (if conn_freed c then c\<lparr>fault := True\<rparr> else c)"

definition lock_conn :: "LM_conn \<Rightarrow> LM_conn" where
  "lock_conn c = ext (Mutex_lock Conn_lock) (touch c)"

definition unlock_conn :: "LM_conn \<Rightarrow> LM_conn" where
  "unlock_conn c = ext (Mutex_unlock Conn_lock) (touch c)"

definition live :: "LM_conn \<Rightarrow> ptr \<Rightarrow> bool" where
  "live c p \<longleftrightarrow> txns c p \<noteq> None"

definition touch_trans :: "ptr \<Rightarrow> LM_conn \<Rightarrow> LM_conn" where
  "touch_trans p c = (if live c p then c else c\<lparr>fault := True\<rparr>)"

definition lock_trans :: "ptr \<Rightarrow> LM_conn \<Rightarrow> LM_conn" where
  "lock_trans p c = ext (Mutex_lock (Trans_lock p)) (touch_trans p c)"

definition unlock_trans :: "ptr \<Rightarrow> LM_conn \<Rightarrow> LM_conn" where
  "unlock_trans p c = ext (Mutex_unlock (Trans_lock p)) (touch_trans p c)"

definition upd_trans :: "ptr \<Rightarrow> (LM_trans \<Rightarrow> LM_trans) \<Rightarrow> LM_conn \<Rightarrow> LM_conn" where
  "upd_trans p f c =
     (case txns c p of
        None \<Rightarrow> c\<lparr>fault := True\<rparr>
      | Some t \<Rightarrow> c\<lparr>txns := (txns c)(p \<mapsto> f t)\<rparr>)"

text \<open>Zeroed memory, as \<open>M_malloc_zero\<close> returns it.\<close>

definition zero_trans :: LM_trans where
  "zero_trans =
     \<lparr>trans_id = 0, status = LM_TRANS_STATUS_NEW, request_params = None,
      response_type = LM_TRANS_RESPONSE_UNKNOWN, response_params = None, response_raw = None,
      response_csv = None, timeout_s = 0, timeout_timer = None, user_data = None\<rparr>"

text \<open>What a field of a transaction reads as; of memory that is gone, as in zeroed memory.\<close>

definition trans_at :: "LM_conn \<Rightarrow> ptr \<Rightarrow> LM_trans" where
  "trans_at c p = (case txns c p of None \<Rightarrow> zero_trans | Some t \<Rightarrow> t)"

definition new_handle :: "LM_conn \<Rightarrow> handle \<times> LM_conn" where
  "new_handle c = (next_handle c, c\<lparr>next_handle := Suc (next_handle c)\<rparr>)"

definition event_timer_remove :: "LM_conn \<Rightarrow> LM_conn" where
  "event_timer_remove c = (ext (Timer_remove (timer c)) c)\<lparr>timer := None\<rparr>"

text \<open>\<open>M_snprintf\<close> into \<open>char error[256]\<close>: at most 255 bytes and the terminator.\<close>

definition set_error :: "string \<Rightarrow> LM_conn \<Rightarrow> LM_conn" where
  "set_error s c = c\<lparr>error := take 255 s\<rparr>"

section \<open>The queue a status belongs to\<close>

datatype queue_sel = Q_new | Q_ready | Q_pending | Q_done

fun queue_of :: "queue_sel \<Rightarrow> LM_conn \<Rightarrow> ptr list" where
  "queue_of Q_new c = trans_new c"
| "queue_of Q_ready c = trans_ready c"
| "queue_of Q_pending c = trans_pending c"
| "queue_of Q_done c = trans_done c"

fun queue_upd :: "queue_sel \<Rightarrow> (ptr list \<Rightarrow> ptr list) \<Rightarrow> LM_conn \<Rightarrow> LM_conn" where
  "queue_upd Q_new f c = c\<lparr>trans_new := f (trans_new c)\<rparr>"
| "queue_upd Q_ready f c = c\<lparr>trans_ready := f (trans_ready c)\<rparr>"
| "queue_upd Q_pending f c = c\<lparr>trans_pending := f (trans_pending c)\<rparr>"
| "queue_upd Q_done f c = c\<lparr>trans_done := f (trans_done c)\<rparr>"

definition queues :: "LM_conn \<Rightarrow> ptr list" where
  "queues c = trans_new c @ trans_ready c @ trans_pending c @ trans_done c"

end
