(* ===== verification/LM_Conn.thy ===== *)
theory LM_Conn
  imports LM_State
begin

text \<open>
  The connection object's own operations (\<open>src/monetra_conn.c\<close>): its settings, which are
  frozen while a connection exists or is being made, connecting and disconnecting, and the
  counts and lists of its transactions. Initialisation and destruction are in
  \<open>LM_Lifecycle\<close>, since they free transactions.
\<close>

section \<open>Settings\<close>

definition LM_conn_set_userdata :: "conn_ptr \<Rightarrow> nat option \<Rightarrow> LM_conn \<Rightarrow> bool \<times> LM_conn" where
  "LM_conn_set_userdata conn ud c =
     (if conn = NULL then (False, c)
      else (True, (touch c)\<lparr>conn_user_data := ud\<rparr>))"

definition LM_conn_get_userdata :: "conn_ptr \<Rightarrow> LM_conn \<Rightarrow> nat option \<times> LM_conn" where
  "LM_conn_get_userdata conn c =
     (if conn = NULL then (None, c) else (conn_user_data c, touch c))"

text \<open>The guard of every setting: not in the process of connecting, nor connected.\<close>

definition settings_open :: "LM_conn \<Rightarrow> bool" where
  "settings_open c \<longleftrightarrow>
     conn_status c \<noteq> LM_CONN_STATUS_CONNECTING \<and> conn_status c \<noteq> LM_CONN_STATUS_CONNECTED"

definition LM_conn_change_server ::
  "mstd \<Rightarrow> conn_ptr \<Rightarrow> cstr \<Rightarrow> u16 \<Rightarrow> LM_conn \<Rightarrow> bool \<times> LM_conn" where
  "LM_conn_change_server L conn h p c =
     (if conn = NULL \<or> M_str_isempty L h \<or> p = 0 then (False, c)
      else
        let c = lock_conn c;
            ok = settings_open c;
            c = (if ok then c\<lparr>host := h, port := p\<rparr> else c)
        in (ok, unlock_conn c))"

definition LM_conn_change_mode :: "conn_ptr \<Rightarrow> LM_mode \<Rightarrow> LM_conn \<Rightarrow> bool \<times> LM_conn" where
  "LM_conn_change_mode conn m c =
     (if conn = NULL then (False, c)
      else
        let c = lock_conn c;
            ok = settings_open c;
            c = (if ok then c\<lparr>mode := m\<rparr> else c)
        in (ok, unlock_conn c))"

definition LM_conn_disable_ping :: "conn_ptr \<Rightarrow> LM_conn \<Rightarrow> LM_conn" where
  "LM_conn_disable_ping conn c =
     (if conn = NULL then c else (touch c)\<lparr>disable_ping := True\<rparr>)"

definition LM_conn_set_conn_timeout :: "conn_ptr \<Rightarrow> u64 \<Rightarrow> LM_conn \<Rightarrow> bool \<times> LM_conn" where
  "LM_conn_set_conn_timeout conn to_secs c =
     (if conn = NULL \<or> to_secs = 0 then (False, c)
      else
        let c = lock_conn c;
            ok = settings_open c;
            c = (if ok then c\<lparr>conn_timeout := to_secs\<rparr> else c)
        in (ok, unlock_conn c))"

definition LM_conn_set_tls_clientctx ::
  "conn_ptr \<Rightarrow> handle option \<Rightarrow> LM_conn \<Rightarrow> bool \<times> LM_conn" where
  "LM_conn_set_tls_clientctx conn ctx c =
     (if conn = NULL then (False, c)
      else
        let c = lock_conn c;
            ok = settings_open c;
            c = (if ok then
                   let c = (case tlsctx c of
                              None \<Rightarrow> c
                            | Some old \<Rightarrow> (ext (Tls_destroy old) c)\<lparr>tlsctx := None\<rparr>);
                       c = c\<lparr>tlsctx := ctx\<rparr>
                   in (case ctx of None \<Rightarrow> c | Some h \<Rightarrow> ext (Tls_upref h) c)
                 else c)
        in (ok, unlock_conn c))"

definition LM_conn_set_tls_cert ::
  "mstd \<Rightarrow> conn_ptr \<Rightarrow> cstr \<Rightarrow> u64 \<Rightarrow> cstr \<Rightarrow> u64 \<Rightarrow> LM_conn \<Rightarrow> bool \<times> LM_conn" where
  "LM_conn_set_tls_cert L conn key key_len crt crt_len c =
     (if conn = NULL \<or> key = None \<or> crt = None \<or> key_len = 0 \<or> crt_len = 0 then (False, c)
      else
        let c = lock_conn c;
            (ok, c) = (if settings_open c
                       then (M_tls_clientctx_set_cert L (calls c) (tlsctx c),
                             ext (Tls_configure ''set_cert'') c)
                       else (False, c))
        in (ok, unlock_conn c))"

definition LM_conn_set_tls_cert_files ::
  "mstd \<Rightarrow> conn_ptr \<Rightarrow> cstr \<Rightarrow> cstr \<Rightarrow> LM_conn \<Rightarrow> bool \<times> LM_conn" where
  "LM_conn_set_tls_cert_files L conn keypath crtpath c =
     (if conn = NULL \<or> M_str_isempty L keypath \<or> M_str_isempty L crtpath then (False, c)
      else
        let c = lock_conn c;
            (ok, c) = (if settings_open c
                       then (M_tls_clientctx_set_cert L (calls c) (tlsctx c),
                             ext (Tls_configure ''set_cert_files'') c)
                       else (False, c))
        in (ok, unlock_conn c))"

definition LM_conn_set_iocreate_callback ::
  "conn_ptr \<Rightarrow> nat option \<Rightarrow> LM_conn \<Rightarrow> bool \<times> LM_conn" where
  "LM_conn_set_iocreate_callback conn cb c =
     (if conn = NULL then (False, c)
      else
        let c = lock_conn c;
            ok = settings_open c;
            c = (if ok then c\<lparr>iocreate_cb := cb\<rparr> else c)
        in (ok, unlock_conn c))"

definition LM_conn_set_idle_timeout ::
  "mstd \<Rightarrow> conn_ptr \<Rightarrow> u64 \<Rightarrow> LM_conn \<Rightarrow> bool \<times> LM_conn" where
  "LM_conn_set_idle_timeout L conn to_secs c =
     (if conn = NULL then (False, c)
      else
        let c = (lock_conn c)\<lparr>idle_timeout := to_secs\<rparr>;
            c = (if conn_status c = LM_CONN_STATUS_CONNECTED then
                   let c = (if idle_timeout c = 0 \<and> timer c \<noteq> None
                            then event_timer_remove c else c);
                       c = (if idle_timeout c \<noteq> 0 \<and> timer c = None then
                              let (h, c) = new_handle c;
                                  c = (ext (Timer_add h) c)\<lparr>timer := Some h\<rparr>
                              in ext (Timer_set_firecount (timer c) 1) c
                            else c)
                   in (if idle_timeout c \<noteq> 0 \<and> M_queue_len L (trans_pending c) = 0
                       then ext (Timer_reset (timer c) (idle_timeout c * 1000)) c else c)
                 else c)
        in (True, unlock_conn c))"

definition LM_conn_error :: "conn_ptr \<Rightarrow> LM_conn \<Rightarrow> cstr" where
  "LM_conn_error conn c = (if conn = NULL then None else Some (error c))"

definition LM_conn_status :: "conn_ptr \<Rightarrow> LM_conn \<Rightarrow> LM_conn_status_t" where
  "LM_conn_status conn c =
     (if conn = NULL then LM_CONN_STATUS_DISCONNECTED else conn_status c)"

section \<open>Connecting and disconnecting\<close>

text \<open>
  The default TLS context of a connection that was given none.
\<close>

definition ensure_tlsctx :: "LM_conn \<Rightarrow> LM_conn" where
  "ensure_tlsctx c =
     (case tlsctx c of
        Some _ \<Rightarrow> c
      | None \<Rightarrow>
          let (h, c) = new_handle c;
              c = (ext (Tls_create h) c)\<lparr>tlsctx := Some h\<rparr>;
              c = ext (Tls_configure ''set_default_trust'') c;
              c = ext (Tls_configure ''set_verify_level FULL'') c;
              c = ext (Tls_configure ''set_negotiation_timeout_ms'') c
          in ext (Tls_configure ''set_protocols TLSv1_2|TLSv1_3'') c)"

text \<open>Everything between taking and releasing the lock, with its exits to \<open>end\<close>.\<close>

definition connect_locked :: "mstd \<Rightarrow> LM_conn \<Rightarrow> bool \<times> LM_conn" where
  "connect_locked L c =
     (let c = c\<lparr>error := []\<rparr> in
      if io c \<noteq> None then (False, set_error ''Already connected'' c)
      else
        let c = ensure_tlsctx c;
            created = M_io_net_client_create L (calls c);
            c = ext (Io_net_client_create (host c) (port c)) c
        in case created of
          Some err \<Rightarrow> (False, set_error (M_io_error_string L err) c)
        | None \<Rightarrow>
            let (h, c) = new_handle c;
                c = c\<lparr>io := Some h\<rparr>;
                c = ext (Io_net_set_keepalives 4 15 3) c;
                c = ext (Io_net_set_connect_timeout (conn_timeout c * 1000)) c;
                (tls_err, c) =
                  (if mode c = LM_MODE_TLS
                   then (M_io_tls_client_add L (calls c), ext (Io_tls_client_add (host c)) c)
                   else (None, c))
            in case tls_err of
              Some err \<Rightarrow>
                (False, set_error (M_io_error_string L err)
                          ((ext (Io_destroy (io c)) c)\<lparr>io := None\<rparr>))
            | None \<Rightarrow>
                let c = (case iocreate_cb c of
                           None \<Rightarrow> c
                         | Some f \<Rightarrow> lock_conn (ext (Iocreate_cb f) (unlock_conn c)));
                    added = M_event_add L (calls c);
                    c = ext (Event_add h) c
                in if \<not> added then
                     (False, set_error ''Failed to register connection with event subsystem''
                               ((ext (Io_destroy (io c)) c)\<lparr>io := None\<rparr>))
                   else (True, c\<lparr>conn_status := LM_CONN_STATUS_CONNECTING\<rparr>))"

definition LM_conn_connect :: "mstd \<Rightarrow> conn_ptr \<Rightarrow> LM_conn \<Rightarrow> bool \<times> LM_conn" where
  "LM_conn_connect L conn c =
     (if conn = NULL then (False, c)
      else
        let (ok, c) = connect_locked L (lock_conn c)
        in (ok, unlock_conn c))"

definition LM_conn_disconnect_connlocked :: "LM_conn \<Rightarrow> bool \<times> LM_conn" where
  "LM_conn_disconnect_connlocked c =
     (case io c of
        Some h \<Rightarrow>
          if conn_status c = LM_CONN_STATUS_CONNECTED
          then (True, (ext (Io_disconnect h) c)\<lparr>conn_status := LM_CONN_STATUS_DISCONNECTING\<rparr>)
          else (False, c)
      | None \<Rightarrow> (False, c))"

definition LM_conn_disconnect :: "conn_ptr \<Rightarrow> LM_conn \<Rightarrow> bool \<times> LM_conn" where
  "LM_conn_disconnect conn c =
     (if conn = NULL then (False, c)
      else
        let (ok, c) = LM_conn_disconnect_connlocked (lock_conn c)
        in (ok, unlock_conn c))"

section \<open>Counting, listing and looking up transactions\<close>

definition LM_conn_trans_count ::
  "mstd \<Rightarrow> conn_ptr \<Rightarrow> LM_trans_status_t \<Rightarrow> LM_conn \<Rightarrow> nat \<times> LM_conn" where
  "LM_conn_trans_count L conn s c =
     (if conn = NULL then (0, c)
      else
        let c = lock_conn c;
            cnt = (0 :: nat);
            cnt = (if s = LM_TRANS_STATUS_NEW \<or> s = LM_TRANS_STATUS_ALL
                   then cnt + M_queue_len L (trans_new c) else cnt);
            cnt = (if s = LM_TRANS_STATUS_READY \<or> s = LM_TRANS_STATUS_ALL
                   then cnt + M_queue_len L (trans_ready c) else cnt);
            cnt = (if s = LM_TRANS_STATUS_PENDING \<or> s = LM_TRANS_STATUS_ALL
                   then cnt + M_queue_len L (trans_pending c) else cnt);
            cnt = (if s = LM_TRANS_STATUS_DONE \<or> s = LM_TRANS_STATUS_ALL
                   then cnt + M_queue_len L (trans_done c) else cnt)
        in (cnt, unlock_conn c))"

definition LM_conn_trans_list_append :: "mstd \<Rightarrow> ptr list \<Rightarrow> ptr list \<Rightarrow> ptr list" where
  "LM_conn_trans_list_append L l q = foldl (M_list_ptr_insert L) l (M_queue_foreach L q)"

definition LM_conn_trans_list ::
  "mstd \<Rightarrow> conn_ptr \<Rightarrow> LM_trans_status_t \<Rightarrow> LM_conn \<Rightarrow> ptr list option \<times> LM_conn" where
  "LM_conn_trans_list L conn s c =
     (if conn = NULL then (None, c)
      else
        let c = lock_conn c;
            l = [];
            l = (if s = LM_TRANS_STATUS_NEW \<or> s = LM_TRANS_STATUS_ALL
                 then LM_conn_trans_list_append L l (trans_new c) else l);
            l = (if s = LM_TRANS_STATUS_READY \<or> s = LM_TRANS_STATUS_ALL
                 then LM_conn_trans_list_append L l (trans_ready c) else l);
            l = (if s = LM_TRANS_STATUS_PENDING \<or> s = LM_TRANS_STATUS_ALL
                 then LM_conn_trans_list_append L l (trans_pending c) else l);
            l = (if s = LM_TRANS_STATUS_DONE \<or> s = LM_TRANS_STATUS_ALL
                 then LM_conn_trans_list_append L l (trans_done c) else l)
        in (Some l, unlock_conn c))"

definition LM_conn_get_trans_by_internal_id ::
  "mstd \<Rightarrow> conn_ptr \<Rightarrow> u64 \<Rightarrow> LM_conn \<Rightarrow> ptr option \<times> LM_conn" where
  "LM_conn_get_trans_by_internal_id L conn k c =
     (if conn = NULL then (None, c)
      else
        let c = lock_conn c;
            t = M_hash_u64vp_get L (trans_id_map c) k
        in (t, unlock_conn c))"

end
