(* ===== verification/LM_Structure.thy ===== *)
theory LM_Structure
  imports LM_Conn
begin

text \<open>
  Putting requests on the wire (\<open>src/monetra_trans_structure.c\<close>): the frame of one request,
  and the loop that moves the ready transactions to the pending queue.
\<close>

definition LM_trans_structure :: "mstd \<Rightarrow> ptr \<Rightarrow> LM_conn \<Rightarrow> LM_conn" where
  "LM_trans_structure L p c =
     (let t = trans_at c p;
          b = outbuf c;
          b = M_buf_add_byte L b (CHR 0x02);
          b = M_buf_add_uint L b (trans_id t);
          b = M_buf_add_byte L b (CHR 0x1C);
          b = (if M_hash_dict_num_keys L (request_params t) = 1 \<and>
                  M_str_caseeq L (M_hash_dict_get_direct L (request_params t) ''action'')
                    (Some ''ping'')
               then M_buf_add_str L b ''PING''
               else M_buf_add_str L b (M_hash_dict_serialize L (request_params t)));
          c = upd_trans p (\<lambda>t. t\<lparr>request_params := None\<rparr>) c;
          b = M_buf_add_byte L b (CHR 0x03)
      in c\<lparr>outbuf := b\<rparr>)"

text \<open>One turn of the loop: the body for the transaction taken from the ready queue.\<close>

definition send_one :: "mstd \<Rightarrow> ptr \<Rightarrow> LM_conn \<Rightarrow> LM_conn" where
  "send_one L p c =
     (let c = lock_trans p c;
          c = upd_trans p (\<lambda>t. t\<lparr>status := LM_TRANS_STATUS_PENDING\<rparr>) c;
          c = LM_trans_structure L p c;
          c = (if timeout_s (trans_at c p) \<noteq> 0 then
                 let (h, c) = new_handle c;
                     c = ext (Timer_oneshot h (timeout_s (trans_at c p) * 1000) (Some p)) c
                 in upd_trans p (\<lambda>t. t\<lparr>timeout_timer := Some h\<rparr>) c
               else c);
          c = unlock_trans p c
      in c\<lparr>trans_pending := M_queue_insert L (trans_pending c) p\<rparr>)"

partial_function (option) send_loop :: "mstd \<Rightarrow> LM_conn \<Rightarrow> LM_conn option" where
  "send_loop L c =
     (case M_queue_take_first L (trans_ready c) of
        (None, q) \<Rightarrow> Some (c\<lparr>trans_ready := q\<rparr>)
      | (Some p, q) \<Rightarrow> send_loop L (send_one L p (c\<lparr>trans_ready := q\<rparr>)))"

definition LM_trans_send_messages :: "mstd \<Rightarrow> LM_conn \<Rightarrow> LM_conn option" where
  "LM_trans_send_messages L c =
     (if conn_status c = LM_CONN_STATUS_DISCONNECTED then
        let c = unlock_conn c;
            (_, c) = LM_conn_connect L CONN c
        in Some (lock_conn c)
      else if conn_status c \<noteq> LM_CONN_STATUS_CONNECTED then Some c
      else
        let orig_outbuf_empty = (M_buf_len L (outbuf c) = 0) in
        do {
          c \<leftarrow> send_loop L c;
          let c = (if M_queue_len L (trans_pending c) \<noteq> 0 then ext (Timer_stop (timer c)) c else c);
          Some (if orig_outbuf_empty \<and> M_buf_len L (outbuf c) \<noteq> 0
                then ext (Trigger_signal (write_trigger c)) c else c)
        })"

end
