(* ===== verification/LM_Trans.thy ===== *)
theory LM_Trans
  imports LM_Structure
begin

text \<open>
  The transaction object (\<open>src/monetra_trans.c\<close>): creation under a fresh random id, its
  parameters, sending, immediate and delayed deletion, and the accessors of the response.
  A \<open>LM_trans_t *\<close> argument is \<open>None\<close> for NULL.
\<close>

section \<open>Creation\<close>

text \<open>The loop that draws ids until it finds one that is not in use.\<close>

partial_function (option) pick_trans_id :: "mstd \<Rightarrow> LM_conn \<Rightarrow> (u64 \<times> LM_conn) option" where
  "pick_trans_id L c =
     (let k = M_rand_range L (calls c) 1 0xFFFFFFFF;
          c = ext (Rand_range 1 0xFFFFFFFF) c
      in if M_hash_u64vp_get L (trans_id_map c) k = None then Some (k, c)
         else pick_trans_id L c)"

definition LM_trans_new_internal :: "mstd \<Rightarrow> LM_conn \<Rightarrow> (ptr \<times> LM_conn) option" where
  "LM_trans_new_internal L c =
     (let p = next_ptr c;
          c = c\<lparr>next_ptr := Suc p, txns := (txns c)(p \<mapsto> zero_trans)\<rparr>
      in do {
        (k, c) \<leftarrow> pick_trans_id L c;
        let c = upd_trans p (\<lambda>t. t\<lparr>trans_id := k\<rparr>) c;
        let c = upd_trans p (\<lambda>t. t\<lparr>status := LM_TRANS_STATUS_NEW\<rparr>) c;
        Some (p, c)
      })"

definition LM_trans_new :: "mstd \<Rightarrow> conn_ptr \<Rightarrow> LM_conn \<Rightarrow> (ptr option \<times> LM_conn) option" where
  "LM_trans_new L conn c =
     (if conn = NULL then Some (None, c)
      else do {
        let c = lock_conn c;
        (p, c) \<leftarrow> LM_trans_new_internal L c;
        let c = c\<lparr>trans_new := M_queue_insert L (trans_new c) p\<rparr>;
        let c = c\<lparr>trans_id_map :=
                    M_hash_u64vp_insert L (trans_id_map c) (trans_id (trans_at c p)) p\<rparr>;
        Some (Some p, unlock_conn c)
      })"

section \<open>Destruction\<close>

definition LM_trans_free :: "ptr option \<Rightarrow> LM_conn \<Rightarrow> LM_conn" where
  "LM_trans_free tp c =
     (case tp of
        None \<Rightarrow> c
      | Some p \<Rightarrow>
          let c = ext (Mutex_destroy (Trans_lock p)) (touch_trans p c)
          in (ext (Trans_free p) c)\<lparr>txns := (txns c)(p := None)\<rparr>)"

definition LM_trans_get_conn_queue :: "LM_trans \<Rightarrow> queue_sel option" where
  "LM_trans_get_conn_queue t =
     (case status t of
        LM_TRANS_STATUS_NEW \<Rightarrow> Some Q_new
      | LM_TRANS_STATUS_READY \<Rightarrow> Some Q_ready
      | LM_TRANS_STATUS_PENDING \<Rightarrow> Some Q_pending
      | LM_TRANS_STATUS_DONE \<Rightarrow> Some Q_done
      | _ \<Rightarrow> None)"

definition LM_trans_delete_unlocked :: "mstd \<Rightarrow> ptr option \<Rightarrow> LM_conn \<Rightarrow> LM_conn" where
  "LM_trans_delete_unlocked L tp c =
     (case tp of
        None \<Rightarrow> c
      | Some p \<Rightarrow>
          let c = touch_trans p c;
              c = (case LM_trans_get_conn_queue (trans_at c p) of
                     None \<Rightarrow> c
                   | Some q \<Rightarrow> queue_upd q (\<lambda>ps. M_queue_take L ps p) c);
              c = c\<lparr>trans_id_map :=
                      M_hash_u64vp_remove L (trans_id_map c) (trans_id (trans_at c p))\<rparr>;
              c = (if conn_status c = LM_CONN_STATUS_CONNECTED \<and>
                      M_queue_len L (trans_pending c) = 0
                   then ext (Timer_reset (timer c) (idle_timeout c * 1000)) c
                   else c)
          in LM_trans_free (Some p) c)"

definition LM_trans_delete :: "mstd \<Rightarrow> ptr option \<Rightarrow> LM_conn \<Rightarrow> LM_conn" where
  "LM_trans_delete L tp c =
     (case tp of
        None \<Rightarrow> c
      | Some p \<Rightarrow>
          let c = lock_conn (touch_trans p c);
              c = upd_trans p (\<lambda>t. t\<lparr>user_data := None\<rparr>) c;
              c = (case timeout_timer (trans_at c p) of
                     None \<Rightarrow> c
                   | Some h \<Rightarrow>
                       upd_trans p (\<lambda>t. t\<lparr>timeout_timer := None\<rparr>)
                         (ext (Timer_remove (Some h)) c))
          in if in_use c
             then unlock_conn (c\<lparr>trans_delay_rm := M_llist_insert L (trans_delay_rm c) p\<rparr>)
             else unlock_conn (LM_trans_delete_unlocked L (Some p) c))"

section \<open>Request parameters\<close>

definition LM_trans_set_param ::
  "mstd \<Rightarrow> ptr option \<Rightarrow> cstr \<Rightarrow> cstr \<Rightarrow> LM_conn \<Rightarrow> bool \<times> LM_conn" where
  "LM_trans_set_param L tp key val c =
     (case tp of
        None \<Rightarrow> (False, c)
      | Some p \<Rightarrow>
          if M_str_isempty L key then (False, c)
          else
            let c = lock_trans p c;
                t = trans_at c p;
                ok = (status t = LM_TRANS_STATUS_NEW);
                c = (if ok then
                       let d = (case request_params t of None \<Rightarrow> [] | Some d \<Rightarrow> d)
                       in upd_trans p
                            (\<lambda>t. t\<lparr>request_params := Some (M_hash_dict_insert L d (the key) val)\<rparr>) c
                     else c)
            in (ok, unlock_trans p c))"

definition LM_trans_set_param_binary ::
  "mstd \<Rightarrow> ptr option \<Rightarrow> cstr \<Rightarrow> string \<Rightarrow> LM_conn \<Rightarrow> bool \<times> LM_conn" where
  "LM_trans_set_param_binary L tp key val c =
     (if tp = None \<or> M_str_isempty L key then (False, c)
      else
        let b64 = M_bincodec_encode L val
        in LM_trans_set_param L tp key b64 c)"

definition LM_trans_set_timeout :: "ptr option \<Rightarrow> u64 \<Rightarrow> LM_conn \<Rightarrow> bool \<times> LM_conn" where
  "LM_trans_set_timeout tp secs c =
     (case tp of
        None \<Rightarrow> (False, c)
      | Some p \<Rightarrow>
          let c = lock_trans p c
          in if status (trans_at c p) \<noteq> LM_TRANS_STATUS_NEW
             then (False, unlock_trans p c)
             else (True, unlock_trans p (upd_trans p (\<lambda>t. t\<lparr>timeout_s := secs\<rparr>) c)))"

section \<open>Sending\<close>

definition LM_trans_send :: "mstd \<Rightarrow> ptr option \<Rightarrow> LM_conn \<Rightarrow> (bool \<times> LM_conn) option" where
  "LM_trans_send L tp c =
     (case tp of
        None \<Rightarrow> Some (False, c)
      | Some p \<Rightarrow>
          let c = lock_trans p (lock_conn (touch_trans p c)) in
          if status (trans_at c p) \<noteq> LM_TRANS_STATUS_NEW \<or>
             M_hash_dict_num_keys L (request_params (trans_at c p)) = 0
          then Some (False, unlock_conn (unlock_trans p c))
          else do {
            let c = upd_trans p (\<lambda>t. t\<lparr>status := LM_TRANS_STATUS_READY\<rparr>) c;
            let c = c\<lparr>trans_new := M_queue_take L (trans_new c) p\<rparr>;
            let c = c\<lparr>trans_ready := M_queue_insert L (trans_ready c) p\<rparr>;
            let c = unlock_trans p c;
            c \<leftarrow> LM_trans_send_messages L c;
            Some (True, unlock_conn c)
          })"

definition LM_trans_run ::
  "mstd \<Rightarrow> conn_ptr \<Rightarrow> dict option \<Rightarrow> LM_conn \<Rightarrow> (ptr option \<times> LM_conn) option" where
  "LM_trans_run L conn params c =
     (case params of
        None \<Rightarrow> Some (None, c)
      | Some d \<Rightarrow>
          if conn = NULL \<or> M_hash_dict_num_keys L (Some d) = 0 then Some (None, c)
          else do {
            (tp, c) \<leftarrow> LM_trans_new L conn c;
            case tp of
              None \<Rightarrow> Some (None, c)
            | Some p \<Rightarrow> do {
                let c = lock_trans p c;
                let c = upd_trans p (\<lambda>t. t\<lparr>request_params := Some (M_hash_dict_duplicate L d)\<rparr>) c;
                let c = unlock_trans p c;
                (ok, c) \<leftarrow> LM_trans_send L (Some p) c;
                if \<not> ok then Some (None, LM_trans_delete L (Some p) c)
                else Some (Some p, c)
              }
          })"

definition LM_trans_ping_request :: "mstd \<Rightarrow> LM_conn \<Rightarrow> (ptr \<times> LM_conn) option" where
  "LM_trans_ping_request L c = do {
     (p, c) \<leftarrow> LM_trans_new_internal L c;
     let (_, c) = LM_trans_set_param L (Some p) (Some ''action'') (Some ''ping'') c;
     let c = upd_trans p (\<lambda>t. t\<lparr>status := LM_TRANS_STATUS_PENDING\<rparr>) c;
     let c = c\<lparr>trans_pending := M_queue_insert L (trans_pending c) p\<rparr>;
     let c = c\<lparr>trans_id_map :=
                 M_hash_u64vp_insert L (trans_id_map c) (trans_id (trans_at c p)) p\<rparr>;
     let c = LM_trans_structure L p c;
     let rest = M_io_write_from_buf L (calls c) (outbuf c);
     let c = (ext (Io_write_from_buf (outbuf c)) c)\<lparr>outbuf := rest\<rparr>;
     Some (p, c)
   }"

section \<open>User data and status\<close>

definition LM_trans_set_userdata :: "ptr option \<Rightarrow> nat option \<Rightarrow> LM_conn \<Rightarrow> bool \<times> LM_conn" where
  "LM_trans_set_userdata tp ud c =
     (case tp of
        None \<Rightarrow> (False, c)
      | Some p \<Rightarrow> (True, upd_trans p (\<lambda>t. t\<lparr>user_data := ud\<rparr>) c))"

definition LM_trans_get_userdata :: "ptr option \<Rightarrow> LM_conn \<Rightarrow> nat option \<times> LM_conn" where
  "LM_trans_get_userdata tp c =
     (case tp of
        None \<Rightarrow> (None, c)
      | Some p \<Rightarrow> (user_data (trans_at c p), touch_trans p c))"

definition LM_trans_internal_id :: "ptr option \<Rightarrow> LM_conn \<Rightarrow> u64 \<times> LM_conn" where
  "LM_trans_internal_id tp c =
     (case tp of
        None \<Rightarrow> (0, c)
      | Some p \<Rightarrow> (trans_id (trans_at c p), touch_trans p c))"

text \<open>The 0 returned for NULL is no member of the enumeration: \<open>None\<close>.\<close>

definition LM_trans_status :: "ptr option \<Rightarrow> LM_conn \<Rightarrow> LM_trans_status_t option \<times> LM_conn" where
  "LM_trans_status tp c =
     (case tp of
        None \<Rightarrow> (None, c)
      | Some p \<Rightarrow>
          let c = lock_trans p c;
              s = status (trans_at c p)
          in (Some s, unlock_trans p c))"

definition LM_trans_response_type ::
  "ptr option \<Rightarrow> LM_conn \<Rightarrow> LM_trans_response_type_t \<times> LM_conn" where
  "LM_trans_response_type tp c =
     (case tp of
        None \<Rightarrow> (LM_TRANS_RESPONSE_UNKNOWN, c)
      | Some p \<Rightarrow>
          let c = lock_trans p c;
              r = response_type (trans_at c p)
          in (r, unlock_trans p c))"

section \<open>The response\<close>

text \<open>The C string at the start of a buffer, as \<open>M_str_len\<close> measures it: up to the first NUL.\<close>

definition c_string :: "string \<Rightarrow> string" where
  "c_string s = takeWhile (\<lambda>ch. ch \<noteq> CHR 0x00) s"

definition done_kv :: "LM_trans \<Rightarrow> bool" where
  "done_kv t \<longleftrightarrow>
     status t = LM_TRANS_STATUS_DONE \<and> response_type t = LM_TRANS_RESPONSE_KV"

definition LM_trans_response_dict :: "ptr option \<Rightarrow> LM_conn \<Rightarrow> dict option \<times> LM_conn" where
  "LM_trans_response_dict tp c =
     (case tp of
        None \<Rightarrow> (None, c)
      | Some p \<Rightarrow>
          let c = lock_trans p c;
              t = trans_at c p;
              r = (if done_kv t then response_params t else None)
          in (r, unlock_trans p c))"

definition LM_trans_response_keys ::
  "mstd \<Rightarrow> ptr option \<Rightarrow> LM_conn \<Rightarrow> string list option \<times> LM_conn" where
  "LM_trans_response_keys L tp c =
     (case tp of
        None \<Rightarrow> (None, c)
      | Some p \<Rightarrow>
          let c = lock_trans p c;
              t = trans_at c p;
              r = (if done_kv t then Some (M_hash_dict_keys L (response_params t)) else None)
          in (r, unlock_trans p c))"

definition LM_trans_response_param ::
  "mstd \<Rightarrow> ptr option \<Rightarrow> cstr \<Rightarrow> LM_conn \<Rightarrow> cstr \<times> LM_conn" where
  "LM_trans_response_param L tp key c =
     (case tp of
        None \<Rightarrow> (None, c)
      | Some p \<Rightarrow>
          if M_str_isempty L key then (None, c)
          else
            let c = lock_trans p c;
                t = trans_at c p;
                r = (if done_kv t
                     then M_hash_dict_get_direct L (response_params t) (the key) else None)
            in (r, unlock_trans p c))"

text \<open>The decoded bytes; the length the C function stores through \<open>len\<close> is theirs.\<close>

definition LM_trans_response_param_binary ::
  "mstd \<Rightarrow> ptr option \<Rightarrow> cstr \<Rightarrow> bool \<Rightarrow> LM_conn \<Rightarrow> cstr \<times> LM_conn" where
  "LM_trans_response_param_binary L tp key len_is_null c =
     (if tp = None \<or> M_str_isempty L key \<or> len_is_null then (None, c)
      else
        let (r, c) = LM_trans_response_param L tp key c
        in (case r of None \<Rightarrow> (None, c) | Some v \<Rightarrow> (M_bincodec_decode L v, c)))"

definition LM_trans_response_raw :: "ptr option \<Rightarrow> LM_conn \<Rightarrow> cstr \<times> LM_conn" where
  "LM_trans_response_raw tp c =
     (case tp of
        None \<Rightarrow> (None, c)
      | Some p \<Rightarrow>
          let c = lock_trans p c;
              t = trans_at c p;
              r = (if status t = LM_TRANS_STATUS_DONE \<and> response_type t \<noteq> LM_TRANS_RESPONSE_KV
                   then response_raw t else None)
          in (r, unlock_trans p c))"

definition LM_trans_response_csv ::
  "mstd \<Rightarrow> ptr option \<Rightarrow> LM_conn \<Rightarrow> csv option \<times> LM_conn" where
  "LM_trans_response_csv L tp c =
     (case tp of
        None \<Rightarrow> (None, c)
      | Some p \<Rightarrow>
          let c = lock_trans p c;
              t = trans_at c p
          in if status t = LM_TRANS_STATUS_DONE \<and> response_type t = LM_TRANS_RESPONSE_CSV then
               let c = (case response_raw t of
                          Some raw \<Rightarrow>
                            if response_csv t = None
                            then upd_trans p
                                   (\<lambda>t. t\<lparr>response_csv := M_csv_parse_inplace L (c_string raw),
                                         response_raw := None\<rparr>) c
                            else c
                        | None \<Rightarrow> c)
               in (response_csv (trans_at c p), unlock_trans p c)
             else (None, unlock_trans p c))"

end
