(* ===== verification/LM_Lifecycle.thy ===== *)
theory LM_Lifecycle
  imports LM_Trans
begin

text \<open>
  Initialisation of the library (\<open>src/monetra_init.c\<close>) and the birth and death of a
  connection object (\<open>LM_conn_init\<close>, \<open>LM_conn_destroy\<close> of \<open>src/monetra_conn.c\<close>).
\<close>

unbundle bit_operations_syntax

section \<open>The library\<close>

datatype M_tls_init_t = M_TLS_INIT_EXTERNAL | M_TLS_INIT_NORMAL

record lm_globals =
  LM_once :: bool
  tls_init :: "M_tls_init_t option"
  cleanup_handlers :: nat

definition LM_INIT_NORMAL :: u64 where
  "LM_INIT_NORMAL = 0"

definition LM_INIT_SSLLOCK_EXTERNAL :: u64 where
  "LM_INIT_SSLLOCK_EXTERNAL = 1"

definition LM_init_destructor :: "lm_globals \<Rightarrow> lm_globals" where
  "LM_init_destructor g = g\<lparr>LM_once := False\<rparr>"

definition LM_init_int :: "u64 \<Rightarrow> lm_globals \<Rightarrow> lm_globals" where
  "LM_init_int flags g =
     (let g = g\<lparr>tls_init := Some (if flags AND LM_INIT_SSLLOCK_EXTERNAL \<noteq> 0
                                  then M_TLS_INIT_EXTERNAL else M_TLS_INIT_NORMAL)\<rparr>
      in g\<lparr>cleanup_handlers := Suc (cleanup_handlers g)\<rparr>)"

definition LM_init :: "mstd \<Rightarrow> u64 \<Rightarrow> lm_globals \<Rightarrow> bool \<times> lm_globals" where
  "LM_init L flags g =
     (if M_thread_once L (LM_once g)
      then (True, (LM_init_int flags g)\<lparr>LM_once := True\<rparr>)
      else (False, g))"

section \<open>A connection is made\<close>

definition zero_conn :: LM_conn where
  "zero_conn =
     \<lparr>trans_new = [], trans_ready = [], trans_pending = [], trans_done = [], trans_id_map = [],
      conn_status = LM_CONN_STATUS_DISCONNECTED, io = None, tlsctx = None, in_use = False,
      trans_delay_rm = [], destroy = False, outbuf = [],
      inbuf = \<lparr>p_mark = None, p_rest = []\<rparr>, timer = None, write_trigger = None,
      pingtxn = None, error = [], host = None, port = 0, mode = LM_MODE_TLS,
      disable_ping = False, conn_timeout = 0, idle_timeout = 0, conn_user_data = None,
      iocreate_cb = None, txns = (\<lambda>_. None), next_ptr = 1, next_handle = 1,
      conn_freed = False, fault = False, calls = []\<rparr>"

definition LM_conn_init ::
  "mstd \<Rightarrow> bool \<Rightarrow> bool \<Rightarrow> cstr \<Rightarrow> u16 \<Rightarrow> lm_globals \<Rightarrow> LM_conn option \<times> lm_globals" where
  "LM_conn_init L event_null callback_null h p g =
     (let (_, g) = LM_init L LM_INIT_NORMAL g in
      if event_null \<or> callback_null \<or> M_str_isempty L h \<or> p = 0 then (None, g)
      else
        let c = zero_conn\<lparr>conn_status := LM_CONN_STATUS_DISCONNECTED\<rparr>;
            c = c\<lparr>mode := LM_MODE_TLS\<rparr>;
            c = c\<lparr>conn_timeout := 10\<rparr>;
            (_, c) = LM_conn_change_server L CONN h p c
        in (Some c, g))"

section \<open>A connection is destroyed\<close>

text \<open>\<open>M_queue_destroy\<close> hands every member to \<open>LM_conn_trans_destructor\<close>.\<close>

definition LM_conn_trans_destructor :: "ptr \<Rightarrow> LM_conn \<Rightarrow> LM_conn" where
  "LM_conn_trans_destructor p c = LM_trans_free (Some p) c"

definition destroy_queue :: "mstd \<Rightarrow> ptr list \<Rightarrow> LM_conn \<Rightarrow> LM_conn" where
  "destroy_queue L q c = fold LM_conn_trans_destructor (M_queue_foreach L q) c"

definition LM_conn_destroy :: "mstd \<Rightarrow> conn_ptr \<Rightarrow> LM_conn \<Rightarrow> LM_conn" where
  "LM_conn_destroy L conn c =
     (if conn = NULL then c
      else
        let c = lock_conn c in
        if in_use c then unlock_conn (c\<lparr>destroy := True\<rparr>)
        else
          let c = unlock_conn c;
              c = ext (Timer_remove (timer c)) c;
              c = ext (Trigger_remove (write_trigger c)) c;
              c = ext (Io_destroy (io c)) c;
              c = (case tlsctx c of None \<Rightarrow> c | Some h \<Rightarrow> ext (Tls_destroy h) c);
              c = ext (Mutex_destroy Conn_lock) c;
              c = destroy_queue L (trans_new c) c;
              c = destroy_queue L (trans_ready c) c;
              c = destroy_queue L (trans_pending c) c;
              c = destroy_queue L (trans_done c) c;
              c = fold (\<lambda>p. LM_trans_delete_unlocked L (Some p)) (trans_delay_rm c) c
          in (ext Conn_free c)\<lparr>conn_freed := True\<rparr>)"

end
