(* ===== verification/LM_Api.thy ===== *)
theory LM_Api
  imports LM_Lifecycle
begin

text \<open>
  The client of the library. An event callback, and the code that runs between events, is an
  arbitrary program over the public operations: a function from what it has seen (the event
  and the state it can read) to the list of calls it makes.
\<close>

datatype api_call =
    Conn_connect
  | Conn_disconnect
  | Conn_change_server cstr u16
  | Conn_change_mode LM_mode
  | Conn_disable_ping
  | Conn_set_conn_timeout u64
  | Conn_set_idle_timeout u64
  | Conn_set_userdata "nat option"
  | Conn_set_tls_clientctx "handle option"
  | Conn_set_iocreate_callback "nat option"
  | Conn_destroy
  | Trans_new
  | Trans_run "dict option"
  | Trans_set_param "ptr option" cstr cstr
  | Trans_set_param_binary "ptr option" cstr string
  | Trans_set_timeout "ptr option" u64
  | Trans_send "ptr option"
  | Trans_delete "ptr option"
  | Trans_set_userdata "ptr option" "nat option"
  | Trans_response_csv "ptr option"

fun run_call :: "mstd \<Rightarrow> api_call \<Rightarrow> LM_conn \<Rightarrow> LM_conn option" where
  "run_call L Conn_connect c = Some (snd (LM_conn_connect L CONN c))"
| "run_call L Conn_disconnect c = Some (snd (LM_conn_disconnect CONN c))"
| "run_call L (Conn_change_server h p) c = Some (snd (LM_conn_change_server L CONN h p c))"
| "run_call L (Conn_change_mode m) c = Some (snd (LM_conn_change_mode CONN m c))"
| "run_call L Conn_disable_ping c = Some (LM_conn_disable_ping CONN c)"
| "run_call L (Conn_set_conn_timeout n) c = Some (snd (LM_conn_set_conn_timeout CONN n c))"
| "run_call L (Conn_set_idle_timeout n) c = Some (snd (LM_conn_set_idle_timeout L CONN n c))"
| "run_call L (Conn_set_userdata ud) c = Some (snd (LM_conn_set_userdata CONN ud c))"
| "run_call L (Conn_set_tls_clientctx x) c = Some (snd (LM_conn_set_tls_clientctx CONN x c))"
| "run_call L (Conn_set_iocreate_callback f) c =
     Some (snd (LM_conn_set_iocreate_callback CONN f c))"
| "run_call L Conn_destroy c = Some (LM_conn_destroy L CONN c)"
| "run_call L Trans_new c = map_option snd (LM_trans_new L CONN c)"
| "run_call L (Trans_run d) c = map_option snd (LM_trans_run L CONN d c)"
| "run_call L (Trans_set_param t k v) c = Some (snd (LM_trans_set_param L t k v c))"
| "run_call L (Trans_set_param_binary t k v) c = Some (snd (LM_trans_set_param_binary L t k v c))"
| "run_call L (Trans_set_timeout t n) c = Some (snd (LM_trans_set_timeout t n c))"
| "run_call L (Trans_send t) c = map_option snd (LM_trans_send L t c)"
| "run_call L (Trans_delete t) c = Some (LM_trans_delete L t c)"
| "run_call L (Trans_set_userdata t ud) c = Some (snd (LM_trans_set_userdata t ud c))"
| "run_call L (Trans_response_csv t) c = Some (snd (LM_trans_response_csv L t c))"

definition run_calls :: "mstd \<Rightarrow> api_call list \<Rightarrow> LM_conn \<Rightarrow> LM_conn option" where
  "run_calls L = run_steps (run_call L)"

section \<open>What a client must keep to\<close>

text \<open>
  A transaction pointer the client may use: allocated, not already deleted (in a callback,
  deletion is delayed), and not the library's own ping while that is on the wire.
\<close>

definition usable :: "LM_conn \<Rightarrow> ptr option \<Rightarrow> bool" where
  "usable c tp \<longleftrightarrow>
     (case tp of
        None \<Rightarrow> True
      | Some p \<Rightarrow>
          live c p \<and> p \<notin> set (trans_delay_rm c) \<and>
          (pingtxn c = Some p \<longrightarrow> p \<notin> set (trans_pending c)))"

text \<open>
  The ids are 1 to \<open>M_UINT32_MAX - 1\<close>; a client does not hold so many transactions that none
  is left.
\<close>

definition ids_left :: "LM_conn \<Rightarrow> bool" where
  "ids_left c \<longleftrightarrow> length (queues c) + length (trans_delay_rm c) < 0xFFFFFFFE"

fun call_ok :: "LM_conn \<Rightarrow> api_call \<Rightarrow> bool" where
  "call_ok c (Trans_set_param t k v) = usable c t"
| "call_ok c (Trans_set_param_binary t k v) = usable c t"
| "call_ok c (Trans_set_timeout t n) = usable c t"
| "call_ok c (Trans_send t) = usable c t"
| "call_ok c (Trans_delete t) = usable c t"
| "call_ok c (Trans_set_userdata t ud) = usable c t"
| "call_ok c (Trans_response_csv t) = usable c t"
| "call_ok c Trans_new = ids_left c"
| "call_ok c (Trans_run d) = ids_left c"
| "call_ok c Conn_disable_ping = (pingtxn c = None)"
| "call_ok c _ = True"

text \<open>No call is made on a connection that has been destroyed.\<close>

definition may_call :: "LM_conn \<Rightarrow> api_call \<Rightarrow> bool" where
  "may_call c a \<longleftrightarrow> \<not> conn_freed c \<and> call_ok c a"

definition calls_ok :: "mstd \<Rightarrow> LM_conn \<Rightarrow> api_call list \<Rightarrow> bool" where
  "calls_ok L c as \<longleftrightarrow> steps_ok (run_call L) may_call c as"

type_synonym event_callback = "LM_event_type \<Rightarrow> ptr option \<Rightarrow> LM_conn \<Rightarrow> api_call list"

definition callback_ok :: "mstd \<Rightarrow> event_callback \<Rightarrow> bool" where
  "callback_ok L cb \<longleftrightarrow> (\<forall>ev tp c. calls_ok L c (cb ev tp c))"

end
