(* ===== verification/LM_Parse.thy ===== *)
theory LM_Parse
  imports LM_Trans
begin

text \<open>
  Reading responses off the wire (\<open>src/monetra_parse.c\<close>): which format a response has, its
  key/value pairs, one framed message, and the loop over the messages in the input buffer.
\<close>

section \<open>The format of a response\<close>

text \<open>The loop over the bytes after the first; the switch of the C code.\<close>

fun response_type_scan :: "mstd \<Rightarrow> string \<Rightarrow> LM_trans_response_type_t" where
  "response_type_scan L [] = LM_TRANS_RESPONSE_BULK"
| "response_type_scan L (b # bs) =
     (if b = CHR ''='' then LM_TRANS_RESPONSE_KV
      else if b = CHR '','' then LM_TRANS_RESPONSE_CSV
      else if b = CHR 0x0D \<or> b = CHR 0x0A then LM_TRANS_RESPONSE_CSV
      else if b = CHR 0x22 \<or> b = CHR ''_'' \<or> b = CHR ''-'' then response_type_scan L bs
      else if \<not> M_chr_isalnumsp L b then LM_TRANS_RESPONSE_BULK
      else response_type_scan L bs)"

definition LM_conn_determine_response_type :: "mstd \<Rightarrow> string \<Rightarrow> LM_trans_response_type_t" where
  "LM_conn_determine_response_type L msg =
     (let msg_len = (if length msg > 32 then 32 else length msg) in
      if msg_len = 0 \<or> hd msg = CHR ''='' \<or> hd msg = CHR '','' then LM_TRANS_RESPONSE_BULK
      else response_type_scan L (tl (take msg_len msg)))"

section \<open>Key/value pairs\<close>

text \<open>
  Removing quotes. The C string is its bytes and the terminating NUL; \<open>off\<close> is 1 when the
  surrounding quotes are skipped, so that \<open>str[i]\<close> is byte \<open>off + i\<close>, and \<open>str[i+1]\<close> at
  the last index reads the closing quote or the terminator.
\<close>

function unquote_loop :: "string \<Rightarrow> nat \<Rightarrow> nat \<Rightarrow> char \<Rightarrow> nat \<Rightarrow> string" where
  "unquote_loop buf off len quote_char i =
     (if i < len then
        let b = buf ! (off + i) in
        b # (if b = quote_char \<and> buf ! (off + (i + 1)) = quote_char
             then unquote_loop buf off len quote_char (i + 2)
             else unquote_loop buf off len quote_char (i + 1))
      else [])"
  by pat_completeness auto
termination
  by (relation "measure (\<lambda>(buf, off, len, q, i). len - i)") auto

declare unquote_loop.simps [simp del]

definition M_hash_dict_deserialize_unquote :: "mstd \<Rightarrow> cstr \<Rightarrow> char \<Rightarrow> cstr" where
  "M_hash_dict_deserialize_unquote L str quote_char =
     (if M_str_isempty L str then None
      else
        let s = the str;
            len = length s;
            buf = s @ [CHR 0x00];
            strip = (len \<ge> 2 \<and> buf ! 0 = quote_char \<and> buf ! (len - 1) = quote_char);
            off = (if strip then 1 else 0);
            len = (if strip then len - 2 else len)
        in Some (unquote_loop buf off len quote_char 0))"

text \<open>
  The loop over the lines. \<open>None\<close> is the jump to \<open>cleanup\<close> without success.
\<close>

fun deserialize_lines ::
  "mstd \<Rightarrow> bool \<Rightarrow> char \<Rightarrow> char \<Rightarrow> char \<Rightarrow> string list \<Rightarrow> dict \<Rightarrow> dict option" where
  "deserialize_lines L trim_ws key_delim quote_char escape_char [] d = Some d"
| "deserialize_lines L trim_ws key_delim quote_char escape_char (line # kvs) d =
     (if M_str_isempty L (Some line)
      then deserialize_lines L trim_ws key_delim quote_char escape_char kvs d
      else
        case M_str_explode_str_quoted L key_delim line quote_char escape_char 2 of
          None \<Rightarrow> None
        | Some kv \<Rightarrow>
            if length kv \<noteq> 2 then None
            else
              let k = (if trim_ws then M_str_trim L (kv ! 0) else kv ! 0);
                  v = (if trim_ws then M_str_trim L (kv ! 1) else kv ! 1);
                  temp = M_hash_dict_deserialize_unquote L (Some v) quote_char
              in deserialize_lines L trim_ws key_delim quote_char escape_char kvs
                   (M_hash_dict_insert L d k temp))"

definition LM_hash_dict_deserialize ::
  "mstd \<Rightarrow> string \<Rightarrow> bool \<Rightarrow> char \<Rightarrow> char \<Rightarrow> char \<Rightarrow> char \<Rightarrow> dict option" where
  "LM_hash_dict_deserialize L str trim_ws key_delim val_delim quote_char escape_char =
     (if str = [] then None
      else case M_str_explode_quoted L val_delim str quote_char escape_char 0 of
        None \<Rightarrow> None
      | Some kvs \<Rightarrow> deserialize_lines L trim_ws key_delim quote_char escape_char kvs [])"

section \<open>One message\<close>

text \<open>
  \<open>p_out\<close> is what the caller's \<open>*trans\<close> holds; the result is the error code, what it holds
  then, and the connection.
\<close>

definition complete_trans :: "mstd \<Rightarrow> string \<Rightarrow> LM_trans \<Rightarrow> LM_trans" where
  "complete_trans L data t =
     (let t = t\<lparr>status := LM_TRANS_STATUS_DONE\<rparr>;
          t = t\<lparr>response_type := LM_conn_determine_response_type L data\<rparr>
      in if response_type t = LM_TRANS_RESPONSE_KV
         then t\<lparr>response_params :=
                  LM_hash_dict_deserialize L data True (CHR ''='') (CHR 0x0A) (CHR 0x22) (CHR 0x22)\<rparr>
         else t\<lparr>response_raw := Some data\<rparr>)"

definition LM_conn_parse_msg ::
  "mstd \<Rightarrow> ptr option \<Rightarrow> string \<Rightarrow> LM_conn \<Rightarrow> LM_conn_parse_error \<times> ptr option \<times> LM_conn" where
  "LM_conn_parse_msg L p_out msg c =
     (let parser = \<lparr>p_mark = None, p_rest = msg\<rparr> in
      case M_parser_read_uint L parser of
        None \<Rightarrow> (LM_CONN_PARSE_ERROR_ERROR, p_out, c)
      | Some (tran_id, parser) \<Rightarrow>
          (case M_parser_read_byte L parser of
             None \<Rightarrow> (LM_CONN_PARSE_ERROR_ERROR, p_out, c)
           | Some (b, parser) \<Rightarrow>
               if b \<noteq> CHR 0x1C then (LM_CONN_PARSE_ERROR_ERROR, p_out, c)
               else
                 case M_hash_u64vp_get L (trans_id_map c) tran_id of
                   None \<Rightarrow> (LM_CONN_PARSE_ERROR_WAIT, None, c)
                 | Some p \<Rightarrow>
                     let c = touch_trans p c in
                     if status (trans_at c p) \<noteq> LM_TRANS_STATUS_PENDING
                     then (LM_CONN_PARSE_ERROR_WAIT, Some p, c)
                     else
                       let c = lock_trans p c;
                           data = M_parser_peek L parser;
                           c = upd_trans p (complete_trans L data) c;
                           c = c\<lparr>trans_pending := M_queue_take L (trans_pending c) p\<rparr>;
                           c = c\<lparr>trans_done := M_queue_insert L (trans_done c) p\<rparr>;
                           c = unlock_trans p c
                       in (LM_CONN_PARSE_ERROR_SUCCESS, Some p, c)))"

section \<open>The input buffer\<close>

text \<open>
  The loop goes on while messages turn out
  to be for nobody.
\<close>

partial_function (option) LM_conn_parse_trans_buffer ::
  "mstd \<Rightarrow> ptr option \<Rightarrow> LM_conn \<Rightarrow> (LM_conn_parse_error \<times> ptr option \<times> LM_conn) option" where
  "LM_conn_parse_trans_buffer L p_out c =
     (if M_parser_len L (inbuf c) < 5 then Some (LM_CONN_PARSE_ERROR_WAIT, p_out, c)
      else if M_parser_peek_byte L (inbuf c) \<noteq> Some (CHR 0x02)
      then Some (LM_CONN_PARSE_ERROR_ERROR, p_out, c)
      else
        let c = c\<lparr>inbuf := M_parser_mark L (inbuf c)\<rparr>;
            (n, ib) = M_parser_consume_until L (inbuf c) (CHR 0x03);
            c = c\<lparr>inbuf := ib\<rparr>
        in if n = 0
           then Some (LM_CONN_PARSE_ERROR_WAIT, p_out,
                      c\<lparr>inbuf := M_parser_mark_rewind L (inbuf c)\<rparr>)
           else case M_parser_peek_mark L (inbuf c) of
             None \<Rightarrow> Some (LM_CONN_PARSE_ERROR_ERROR, p_out, c)
           | Some msg \<Rightarrow>
               if length msg < 5 then Some (LM_CONN_PARSE_ERROR_ERROR, p_out, c)
               else
                 let (err, p_out, c) = LM_conn_parse_msg L p_out (butlast (tl msg)) c;
                     c = c\<lparr>inbuf := M_parser_mark_clear L (inbuf c)\<rparr>
                 in if err = LM_CONN_PARSE_ERROR_WAIT
                    then LM_conn_parse_trans_buffer L p_out c
                    else Some (err, p_out, c))"

end
