(* ===== verification/LM_Event.thy ===== *)
theory LM_Event
  imports LM_Api LM_Parse
begin

text \<open>
  The event handler (\<open>src/monetra_conn_event.c\<close>): every event of the socket, the timers and
  the write trigger goes through \<open>LM_conntrans_event_handler\<close>, which changes the connection
  under its lock, collects the events for the user, delivers them without the lock, frees what
  the user deleted meanwhile, and reconnects or destroys the connection when that is due.
\<close>

type_synonym events = "LM_conn_events_entry list"

definition LM_conn_destroy_is_set :: "LM_conn \<Rightarrow> bool \<times> LM_conn" where
  "LM_conn_destroy_is_set c =
     (let c = lock_conn c; r = destroy c in (r, unlock_conn c))"

definition LM_conn_event_add ::
  "mstd \<Rightarrow> LM_event_type \<Rightarrow> ptr option \<Rightarrow> events \<Rightarrow> events" where
  "LM_conn_event_add L ty tp es = M_list_insert L es (Entry ty tp)"

section \<open>The connection fails\<close>

definition rewrite_event_type :: "LM_conn \<Rightarrow> M_event_type \<Rightarrow> M_event_type" where
  "rewrite_event_type c ty =
     (if ty = M_EVENT_TYPE_ERROR \<and>
         (conn_status c = LM_CONN_STATUS_DISCONNECTING \<or>
          conn_status c = LM_CONN_STATUS_IDLE_TIMEOUT)
      then M_EVENT_TYPE_DISCONNECTED else ty)"

definition destroy_io :: "mstd \<Rightarrow> LM_conn \<Rightarrow> LM_conn" where
  "destroy_io L c =
     (let c = ext (Io_destroy (io c)) c;
          c = ext (Trigger_remove (write_trigger c)) c;
          c = c\<lparr>io := None\<rparr>;
          c = c\<lparr>write_trigger := None\<rparr>;
          c = c\<lparr>conn_status := LM_CONN_STATUS_DISCONNECTED\<rparr>;
          c = c\<lparr>outbuf := M_buf_truncate L (outbuf c) 0\<rparr>;
          c = c\<lparr>inbuf := M_parser_truncate L (inbuf c) 0\<rparr>
      in if timer c \<noteq> None then event_timer_remove c else c)"

definition error_response :: "mstd \<Rightarrow> string \<Rightarrow> LM_trans \<Rightarrow> LM_trans" where
  "error_response L msg t =
     (let t = t\<lparr>status := LM_TRANS_STATUS_DONE\<rparr>;
          t = t\<lparr>response_type := LM_TRANS_RESPONSE_KV\<rparr>;
          d = M_hash_dict_insert L [] ''code'' (Some ''DENY'');
          d = M_hash_dict_insert L d ''verbiage'' (Some msg)
      in t\<lparr>response_params := Some d\<rparr>)"

text \<open>The body of the loop over the pending transactions.\<close>

definition fail_one :: "mstd \<Rightarrow> ptr \<Rightarrow> events \<times> LM_conn \<Rightarrow> events \<times> LM_conn" where
  "fail_one L p ec =
     (let (es, c) = ec;
          c = lock_trans p c;
          c = c\<lparr>trans_done := M_queue_insert L (trans_done c) p\<rparr>;
          c = upd_trans p (error_response L (error c)) c;
          c = (case timeout_timer (trans_at c p) of
                 None \<Rightarrow> c
               | Some h \<Rightarrow>
                   upd_trans p (\<lambda>t. t\<lparr>timeout_timer := None\<rparr>) (ext (Timer_remove (Some h)) c));
          c = unlock_trans p c
      in (LM_conn_event_add L LM_EVENT_TRANS_ERROR (Some p) es, c))"

partial_function (option) fail_loop ::
  "mstd \<Rightarrow> events \<times> LM_conn \<Rightarrow> (events \<times> LM_conn) option" where
  "fail_loop L ec =
     (case M_queue_take_first L (trans_pending (snd ec)) of
        (None, q) \<Rightarrow> Some (fst ec, (snd ec)\<lparr>trans_pending := q\<rparr>)
      | (Some p, q) \<Rightarrow> fail_loop L (fail_one L p (fst ec, (snd ec)\<lparr>trans_pending := q\<rparr>)))"

definition LM_conn_event_handle_conn_error ::
  "mstd \<Rightarrow> M_event_type \<Rightarrow> events \<Rightarrow> LM_conn \<Rightarrow> (events \<times> LM_conn) option" where
  "LM_conn_event_handle_conn_error L ty es c =
     (let disconnect_was_idle = (conn_status c = LM_CONN_STATUS_IDLE_TIMEOUT);
          ty = rewrite_event_type c ty;
          c = destroy_io L c;
          es = (if \<not> disconnect_was_idle
                then foldl (\<lambda>es p. LM_conn_event_add L LM_EVENT_TRANS_NOCONNECT (Some p) es) es
                       (M_queue_foreach L (trans_ready c))
                else es)
      in do {
        (es, c) \<leftarrow> fail_loop L (es, c);
        Some (LM_conn_event_add L
                (if ty = M_EVENT_TYPE_DISCONNECTED then LM_EVENT_CONN_DISCONNECT
                 else LM_EVENT_CONN_ERROR) None es, c)
      })"

section \<open>The connection is up\<close>

definition LM_conn_cleanup_ping :: "mstd \<Rightarrow> LM_conn \<Rightarrow> LM_conn" where
  "LM_conn_cleanup_ping L c =
     (let c = event_timer_remove c;
          c = (case pingtxn c of
                 None \<Rightarrow> c
               | Some p \<Rightarrow> c\<lparr>trans_pending := M_queue_take L (trans_pending c) p\<rparr>);
          c = unlock_conn c;
          c = LM_trans_delete L (pingtxn c) c;
          c = lock_conn c
      in c\<lparr>pingtxn := None\<rparr>)"

definition LM_conn_event_set_connected ::
  "mstd \<Rightarrow> events \<Rightarrow> LM_conn \<Rightarrow> (events \<times> LM_conn) option" where
  "LM_conn_event_set_connected L es c =
     (let c = LM_conn_cleanup_ping L c;
          c = c\<lparr>conn_status := LM_CONN_STATUS_CONNECTED\<rparr>;
          es = LM_conn_event_add L LM_EVENT_CONN_CONNECTED None es
      in do {
        c \<leftarrow> LM_trans_send_messages L c;
        Some (es,
          if idle_timeout c \<noteq> 0 then
            let (h, c) = new_handle c;
                c = (ext (Timer_add h) c)\<lparr>timer := Some h\<rparr>
            in ext (Timer_set_firecount (timer c) 1) c
          else c)
      })"

section \<open>The cases of the handler\<close>

definition handle_connected :: "mstd \<Rightarrow> LM_conn \<Rightarrow> (events \<times> LM_conn) option" where
  "handle_connected L c = do {
     (es, c) \<leftarrow>
       (if disable_ping c then LM_conn_event_set_connected L [] c
        else
          let (h, c) = new_handle c;
              c = (ext (Timer_oneshot h (5 * 1000) None) c)\<lparr>timer := Some h\<rparr>
          in do {
            (p, c) \<leftarrow> LM_trans_ping_request L c;
            Some ([], c\<lparr>pingtxn := Some p\<rparr>)
          });
     let (h, c) = new_handle c;
     Some (es, (ext (Trigger_add h) c)\<lparr>write_trigger := Some h\<rparr>)
   }"

definition handle_failure ::
  "mstd \<Rightarrow> M_event_type \<Rightarrow> LM_conn \<Rightarrow> (events \<times> LM_conn) option" where
  "handle_failure L ty c =
     (let c = (if conn_status c = LM_CONN_STATUS_IDLE_TIMEOUT
               then set_error ''Idle connection timeout'' c
               else set_error (M_io_get_error_string L (calls c)) (ext Io_get_error_string c))
      in LM_conn_event_handle_conn_error L ty [] c)"

text \<open>A completed transaction: the ping's answer completes the connection.\<close>

definition note_done ::
  "mstd \<Rightarrow> ptr option \<Rightarrow> events \<Rightarrow> LM_conn \<Rightarrow> (events \<times> LM_conn) option" where
  "note_done L tp es c =
     (if tp = pingtxn c then LM_conn_event_set_connected L es c
      else
        let es = LM_conn_event_add L LM_EVENT_TRANS_DONE tp es in
        case tp of
          None \<Rightarrow> Some (es, c\<lparr>fault := True\<rparr>)
        | Some p \<Rightarrow>
            let c = lock_trans p c;
                c = (case timeout_timer (trans_at c p) of
                       None \<Rightarrow> c
                     | Some h \<Rightarrow>
                         upd_trans p (\<lambda>t. t\<lparr>timeout_timer := None\<rparr>)
                           (ext (Timer_remove (Some h)) c))
            in Some (es, unlock_trans p c))"

partial_function (option) read_loop ::
  "mstd \<Rightarrow> ptr option \<Rightarrow> events \<Rightarrow> LM_conn
    \<Rightarrow> (LM_conn_parse_error \<times> events \<times> LM_conn) option" where
  "read_loop L tp es c =
     (case LM_conn_parse_trans_buffer L tp c of
        None \<Rightarrow> None
      | Some (err, tp, c) \<Rightarrow>
          if err = LM_CONN_PARSE_ERROR_SUCCESS
          then (case note_done L tp es c of
                  None \<Rightarrow> None
                | Some (es, c) \<Rightarrow> read_loop L tp es c)
          else Some (err, es, c))"

definition handle_read :: "mstd \<Rightarrow> LM_conn \<Rightarrow> (events \<times> LM_conn) option" where
  "handle_read L c =
     (let (ok, ib) = M_io_read_into_parser L (calls c) (inbuf c);
          c = (ext Io_read_into_parser c)\<lparr>inbuf := ib\<rparr>
      in if \<not> ok then Some ([], c)
         else do {
           (err, es, c) \<leftarrow> read_loop L None [] c;
           let c = (if M_queue_len L (trans_pending c) = 0
                    then ext (Timer_reset (timer c) (idle_timeout c * 1000)) c else c);
           if err = LM_CONN_PARSE_ERROR_ERROR
           then LM_conn_event_handle_conn_error L M_EVENT_TYPE_ERROR es
                  (set_error ''Invalid response format received. Disconnect.'' c)
           else Some (es, c)
         })"

definition handle_write :: "mstd \<Rightarrow> LM_conn \<Rightarrow> (events \<times> LM_conn) option" where
  "handle_write L c =
     (if M_buf_len L (outbuf c) \<noteq> 0
      then Some ([], (ext (Io_write_from_buf (outbuf c)) c)
                       \<lparr>outbuf := M_io_write_from_buf L (calls c) (outbuf c)\<rparr>)
      else Some ([], c))"

definition handle_other ::
  "mstd \<Rightarrow> ptr option \<Rightarrow> LM_conn \<Rightarrow> (events \<times> LM_conn) option" where
  "handle_other L event_trans c =
     (case event_trans of
        Some p \<Rightarrow>
          let es = LM_conn_event_add L LM_EVENT_TRANS_TIMEOUT (Some p) [];
              c = lock_trans p c;
              c = ext (Timer_remove (timeout_timer (trans_at c p))) c;
              c = upd_trans p (\<lambda>t. t\<lparr>timeout_timer := None\<rparr>) c
          in Some (es, unlock_trans p c)
      | None \<Rightarrow> do {
          (es, c) \<leftarrow>
            (if conn_status c = LM_CONN_STATUS_CONNECTING then
               let c = LM_conn_cleanup_ping L c;
                   c = set_error ''Failed to receive reply to PING request'' c
               in LM_conn_event_handle_conn_error L M_EVENT_TYPE_ERROR [] c
             else if conn_status c = LM_CONN_STATUS_CONNECTED \<and>
                     M_queue_len L (trans_pending c) = 0 then
               let (_, c) = LM_conn_disconnect_connlocked c
               in Some ([], c\<lparr>conn_status := LM_CONN_STATUS_IDLE_TIMEOUT\<rparr>)
             else Some ([], c));
          Some (es, if timer c \<noteq> None then event_timer_remove c else c)
        })"

definition handle_event ::
  "mstd \<Rightarrow> M_event_type \<Rightarrow> ptr option \<Rightarrow> LM_conn \<Rightarrow> (events \<times> LM_conn) option" where
  "handle_event L ty event_trans c =
     (case ty of
        M_EVENT_TYPE_CONNECTED \<Rightarrow> handle_connected L c
      | M_EVENT_TYPE_DISCONNECTED \<Rightarrow> handle_failure L ty c
      | M_EVENT_TYPE_ERROR \<Rightarrow> handle_failure L ty c
      | M_EVENT_TYPE_READ \<Rightarrow> handle_read L c
      | M_EVENT_TYPE_WRITE \<Rightarrow> handle_write L c
      | M_EVENT_TYPE_OTHER \<Rightarrow> handle_other L event_trans c
      | M_EVENT_TYPE_ACCEPT \<Rightarrow> Some ([], c))"

section \<open>Delivery\<close>

partial_function (option) deliver ::
  "mstd \<Rightarrow> event_callback \<Rightarrow> events \<Rightarrow> LM_conn \<Rightarrow> LM_conn option" where
  "deliver L cb es c =
     (case M_list_take_first L es of
        (None, _) \<Rightarrow> Some c
      | (Some e, es) \<Rightarrow>
          let c = ext (Event_callback (ev_type e) (ev_trans e)) c in
          (case run_calls L (cb (ev_type e) (ev_trans e) c) c of
             None \<Rightarrow> None
           | Some c \<Rightarrow>
               let (stop, c) = LM_conn_destroy_is_set c
               in if stop then Some c else deliver L cb es c))"

partial_function (option) delay_rm_loop :: "mstd \<Rightarrow> LM_conn \<Rightarrow> LM_conn option" where
  "delay_rm_loop L c =
     (case M_llist_first L (trans_delay_rm c) of
        None \<Rightarrow> Some c
      | Some p \<Rightarrow>
          delay_rm_loop L
            (LM_trans_delete_unlocked L (Some p)
               (c\<lparr>trans_delay_rm := M_llist_take L (trans_delay_rm c) p\<rparr>)))"

section \<open>The handler\<close>

definition finish_event :: "mstd \<Rightarrow> LM_conn \<Rightarrow> LM_conn option" where
  "finish_event L c = do {
     let c = lock_conn c;
     c \<leftarrow> delay_rm_loop L c;
     let c = c\<lparr>in_use := False\<rparr>;
     let request_connect =
       (conn_status c = LM_CONN_STATUS_DISCONNECTED \<and> M_queue_len L (trans_ready c) \<noteq> 0);
     let c = unlock_conn c;
     let c = (if request_connect then snd (LM_conn_connect L CONN c) else c);
     let (stop, c) = LM_conn_destroy_is_set c;
     Some (if stop then LM_conn_destroy L CONN c else c)
   }"

definition LM_conntrans_event_handler ::
  "mstd \<Rightarrow> event_callback \<Rightarrow> M_event_type \<Rightarrow> ptr option \<Rightarrow> LM_conn \<Rightarrow> LM_conn option" where
  "LM_conntrans_event_handler L cb ty event_trans c = do {
     let c = (lock_conn c)\<lparr>in_use := True\<rparr>;
     (es, c) \<leftarrow> handle_event L ty event_trans c;
     let c = unlock_conn c;
     c \<leftarrow> deliver L cb es c;
     finish_event L c
   }"

definition LM_conn_event_handler ::
  "mstd \<Rightarrow> event_callback \<Rightarrow> M_event_type \<Rightarrow> LM_conn \<Rightarrow> LM_conn option" where
  "LM_conn_event_handler L cb ty c = LM_conntrans_event_handler L cb ty None c"

definition LM_trans_event_handler ::
  "mstd \<Rightarrow> event_callback \<Rightarrow> M_event_type \<Rightarrow> ptr \<Rightarrow> LM_conn \<Rightarrow> LM_conn option" where
  "LM_trans_event_handler L cb ty p c =
     LM_conntrans_event_handler L cb ty (Some p) (touch_trans p c)"

definition LM_conn_event_handler_writetrigger ::
  "mstd \<Rightarrow> event_callback \<Rightarrow> M_event_type \<Rightarrow> LM_conn \<Rightarrow> LM_conn option" where
  "LM_conn_event_handler_writetrigger L cb ty c =
     LM_conntrans_event_handler L cb M_EVENT_TYPE_WRITE None c"

text \<open>The loops compute.\<close>

declare pick_trans_id.simps [code] send_loop.simps [code] LM_conn_parse_trans_buffer.simps [code]
  fail_loop.simps [code] read_loop.simps [code] deliver.simps [code] delay_rm_loop.simps [code]

end
