(* ===== verification/LM_Invariant.thy ===== *)
theory LM_Invariant
  imports LM_Event
begin

text \<open>
  The invariant of a connection, and that the primitive moves of a transaction (allocating it,
  taking it from one queue to the next, rewriting its fields, freeing it) keep it. The
  operations of the other theories are shown to be compositions of these moves.
\<close>

section \<open>One transaction\<close>

text \<open>
  Its response fields agree with its status and response type, the id fits, and the request
  parameters (passwords, card numbers) are gone once it is on the wire.
\<close>

definition trans_wf :: "LM_trans \<Rightarrow> bool" where
  "trans_wf t \<longleftrightarrow>
     trans_id t \<noteq> 0 \<and> trans_id t < 0xFFFFFFFF \<and>
     status t \<noteq> LM_TRANS_STATUS_ALL \<and>
     (status t = LM_TRANS_STATUS_DONE \<longleftrightarrow> response_type t \<noteq> LM_TRANS_RESPONSE_UNKNOWN) \<and>
     (status t = LM_TRANS_STATUS_PENDING \<or> status t = LM_TRANS_STATUS_DONE \<longrightarrow>
        request_params t = None) \<and>
     (response_params t \<noteq> None \<longrightarrow> response_type t = LM_TRANS_RESPONSE_KV) \<and>
     (response_raw t \<noteq> None \<longrightarrow>
        response_type t = LM_TRANS_RESPONSE_CSV \<or> response_type t = LM_TRANS_RESPONSE_BULK) \<and>
     (response_csv t \<noteq> None \<longrightarrow>
        response_type t = LM_TRANS_RESPONSE_CSV \<and> response_raw t = None)"

definition status_is :: "(ptr \<Rightarrow> LM_trans option) \<Rightarrow> LM_trans_status_t \<Rightarrow> ptr \<Rightarrow> bool" where
  "status_is h s p \<longleftrightarrow> map_option status (h p) = Some s"

lemma status_is_upd [simp]:
  "status_is (h(p \<mapsto> t)) s q \<longleftrightarrow> (if q = p then status t = s else status_is h s q)"
  "status_is (h(p := None)) s q \<longleftrightarrow> q \<noteq> p \<and> status_is h s q"
  by (simp_all add: status_is_def)

lemma status_is_Some: "h p = Some t \<Longrightarrow> status_is h s p \<longleftrightarrow> status t = s"
  by (simp add: status_is_def)

lemma status_is_None: "h p = None \<Longrightarrow> \<not> status_is h s p"
  by (simp add: status_is_def)

section \<open>The connection\<close>

text \<open>
  The queues: no transaction is in a queue twice, a member of a queue has the status of the
  queue (so it is in one queue only), and every allocated transaction is in a queue or waits
  to be freed.
\<close>

definition queue_inv :: "LM_conn \<Rightarrow> bool" where
  "queue_inv c \<longleftrightarrow>
     distinct (trans_new c) \<and> distinct (trans_ready c) \<and>
     distinct (trans_pending c) \<and> distinct (trans_done c) \<and>
     (\<forall>p \<in> set (trans_new c). status_is (txns c) LM_TRANS_STATUS_NEW p) \<and>
     (\<forall>p \<in> set (trans_ready c). status_is (txns c) LM_TRANS_STATUS_READY p) \<and>
     (\<forall>p \<in> set (trans_pending c). status_is (txns c) LM_TRANS_STATUS_PENDING p) \<and>
     (\<forall>p \<in> set (trans_done c). status_is (txns c) LM_TRANS_STATUS_DONE p) \<and>
     (\<forall>p. live c p \<longrightarrow> p \<in> set (queues c) \<or> p \<in> set (trans_delay_rm c))"

definition delay_inv :: "LM_conn \<Rightarrow> bool" where
  "delay_inv c \<longleftrightarrow>
     distinct (trans_delay_rm c) \<and>
     (\<forall>p \<in> set (trans_delay_rm c). live c p) \<and>
     (\<not> in_use c \<longrightarrow> trans_delay_rm c = [])"

text \<open>The table of ids holds the allocated transactions, each under its own id.\<close>

definition map_inv :: "mstd \<Rightarrow> LM_conn \<Rightarrow> bool" where
  "map_inv L c \<longleftrightarrow>
     (\<forall>k p. M_hash_u64vp_get L (trans_id_map c) k = Some p \<longleftrightarrow>
            (\<exists>t. txns c p = Some t \<and> trans_id t = k))"

definition heap_inv :: "LM_conn \<Rightarrow> bool" where
  "heap_inv c \<longleftrightarrow> (\<forall>p t. txns c p = Some t \<longrightarrow> p < next_ptr c \<and> trans_wf t)"

text \<open>The socket exists in every state but the disconnected one.\<close>

definition io_inv :: "LM_conn \<Rightarrow> bool" where
  "io_inv c \<longleftrightarrow>
     (io c = None \<longleftrightarrow> conn_status c = LM_CONN_STATUS_DISCONNECTED) \<and> length (error c) < 256"

definition core_inv :: "mstd \<Rightarrow> LM_conn \<Rightarrow> bool" where
  "core_inv L c \<longleftrightarrow>
     queue_inv c \<and> delay_inv c \<and> map_inv L c \<and> heap_inv c \<and> io_inv c \<and>
     \<not> fault c \<and> \<not> conn_freed c"

text \<open>
  The life of the connection and its ping. Without a connection nothing is pending and no
  timer runs; while it is being made, at most the ping is pending, exactly when the ping timer
  runs, and nobody has deleted it; afterwards there is no ping. (\<open>pingtxn\<close> may dangle while
  disconnected.)
\<close>

definition ping_inv :: "LM_conn \<Rightarrow> bool" where
  "ping_inv c \<longleftrightarrow>
     (pingtxn c \<noteq> None \<longrightarrow> \<not> disable_ping c) \<and>
     (case conn_status c of
        LM_CONN_STATUS_DISCONNECTED \<Rightarrow> timer c = None \<and> trans_pending c = []
      | LM_CONN_STATUS_CONNECTING \<Rightarrow>
          (case timer c of
             None \<Rightarrow> trans_pending c = []
           | Some _ \<Rightarrow>
               (\<exists>p. pingtxn c = Some p \<and> trans_pending c = [p] \<and> p \<notin> set (trans_delay_rm c)))
      | _ \<Rightarrow> pingtxn c = None)"

definition lm_inv :: "mstd \<Rightarrow> LM_conn \<Rightarrow> bool" where
  "lm_inv L c \<longleftrightarrow> core_inv L c \<and> ping_inv c"

lemmas core_inv_defs =
  core_inv_def queue_inv_def delay_inv_def map_inv_def heap_inv_def io_inv_def queues_def
  live_def

section \<open>Consequences\<close>

lemma queue_inv_distinct: "queue_inv c \<Longrightarrow> distinct (queues c)"
  by (fastforce simp: queue_inv_def queues_def status_is_def)

lemma core_inv_not_freed: "core_inv L c \<Longrightarrow> \<not> conn_freed c"
  by (simp add: core_inv_def)

lemma core_inv_no_fault: "core_inv L c \<Longrightarrow> \<not> fault c"
  by (simp add: core_inv_def)

lemma core_inv_queue_status:
  assumes "core_inv L c"
  shows "p \<in> set (trans_new c) \<Longrightarrow> status_is (txns c) LM_TRANS_STATUS_NEW p"
    and "p \<in> set (trans_ready c) \<Longrightarrow> status_is (txns c) LM_TRANS_STATUS_READY p"
    and "p \<in> set (trans_pending c) \<Longrightarrow> status_is (txns c) LM_TRANS_STATUS_PENDING p"
    and "p \<in> set (trans_done c) \<Longrightarrow> status_is (txns c) LM_TRANS_STATUS_DONE p"
  using assms by (auto simp: core_inv_def queue_inv_def)

lemma core_inv_distinct:
  assumes "core_inv L c"
  shows "distinct (trans_new c)" "distinct (trans_ready c)" "distinct (trans_pending c)"
    "distinct (trans_done c)" "distinct (trans_delay_rm c)"
  using assms by (auto simp: core_inv_def queue_inv_def delay_inv_def)

lemma core_inv_wf: "core_inv L c \<Longrightarrow> txns c p = Some t \<Longrightarrow> trans_wf t"
  by (simp add: core_inv_def heap_inv_def)

lemma core_inv_below: "core_inv L c \<Longrightarrow> txns c p = Some t \<Longrightarrow> p < next_ptr c"
  by (simp add: core_inv_def heap_inv_def)

lemma core_inv_map:
  "core_inv L c \<Longrightarrow>
     M_hash_u64vp_get L (trans_id_map c) k = Some p \<longleftrightarrow> (\<exists>t. txns c p = Some t \<and> trans_id t = k)"
  by (simp add: core_inv_def map_inv_def)

lemma core_inv_unique_id:
  assumes "core_inv L c" "txns c p = Some t" "txns c q = Some u" "trans_id t = trans_id u"
  shows "p = q"
  using assms core_inv_map [of L c "trans_id t" p] core_inv_map [of L c "trans_id t" q] by auto

lemma status_is_unique: "status_is (txns c) s p \<Longrightarrow> status_is (txns c) s' p \<Longrightarrow> s = s'"
  by (auto simp: status_is_def)

section \<open>What the invariant does not look at\<close>

lemma core_inv_cong:
  assumes "trans_new c' = trans_new c" "trans_ready c' = trans_ready c"
    "trans_pending c' = trans_pending c" "trans_done c' = trans_done c"
    "trans_id_map c' = trans_id_map c" "trans_delay_rm c' = trans_delay_rm c"
    "in_use c' = in_use c" "txns c' = txns c" "next_ptr c' = next_ptr c"
    "(io c' = None) = (io c = None)" "conn_status c' = conn_status c"
    "length (error c') < 256 \<longleftrightarrow> length (error c) < 256"
    "conn_freed c' = conn_freed c" "fault c' = fault c"
  shows "core_inv L c' \<longleftrightarrow> core_inv L c"
  unfolding core_inv_defs by (simp only: assms)

lemma core_inv_transfer:
  assumes "core_inv L c"
    and "trans_new c' = trans_new c" "trans_ready c' = trans_ready c"
    "trans_pending c' = trans_pending c" "trans_done c' = trans_done c"
    "trans_id_map c' = trans_id_map c" "trans_delay_rm c' = trans_delay_rm c"
    "in_use c' = in_use c" "txns c' = txns c" "next_ptr c' = next_ptr c"
    "io c' = io c" "conn_status c' = conn_status c" "error c' = error c"
    "conn_freed c' = conn_freed c" "fault c' = fault c"
  shows "core_inv L c'"
proof -
  have "core_inv L c' \<longleftrightarrow> core_inv L c"
    by (rule core_inv_cong) (simp_all add: assms)
  with assms(1) show ?thesis by simp
qed

lemma core_inv_simps [lm_inv_simps]:
  "core_inv L (c\<lparr>calls := x1\<rparr>) = core_inv L c"
  "core_inv L (c\<lparr>next_handle := x2\<rparr>) = core_inv L c"
  "core_inv L (c\<lparr>outbuf := x3\<rparr>) = core_inv L c"
  "core_inv L (c\<lparr>inbuf := x4\<rparr>) = core_inv L c"
  "core_inv L (c\<lparr>timer := x5\<rparr>) = core_inv L c"
  "core_inv L (c\<lparr>write_trigger := x6\<rparr>) = core_inv L c"
  "core_inv L (c\<lparr>pingtxn := x7\<rparr>) = core_inv L c"
  "core_inv L (c\<lparr>tlsctx := x8\<rparr>) = core_inv L c"
  "core_inv L (c\<lparr>host := x9\<rparr>) = core_inv L c"
  "core_inv L (c\<lparr>port := x10\<rparr>) = core_inv L c"
  "core_inv L (c\<lparr>mode := x11\<rparr>) = core_inv L c"
  "core_inv L (c\<lparr>disable_ping := x12\<rparr>) = core_inv L c"
  "core_inv L (c\<lparr>conn_timeout := x13\<rparr>) = core_inv L c"
  "core_inv L (c\<lparr>idle_timeout := x14\<rparr>) = core_inv L c"
  "core_inv L (c\<lparr>conn_user_data := x15\<rparr>) = core_inv L c"
  "core_inv L (c\<lparr>iocreate_cb := x16\<rparr>) = core_inv L c"
  "core_inv L (c\<lparr>destroy := x17\<rparr>) = core_inv L c"
  by (rule core_inv_cong; simp)+

lemma core_inv_error [lm_inv_simps]:
  "core_inv L c \<Longrightarrow> core_inv L (c\<lparr>error := take 255 x\<rparr>)"
  "core_inv L c \<Longrightarrow> core_inv L (c\<lparr>error := []\<rparr>)"
  by (simp_all add: core_inv_defs)

lemma ext_frame [simp]:
  "trans_new (ext x c) = trans_new c" "trans_ready (ext x c) = trans_ready c"
  "trans_pending (ext x c) = trans_pending c" "trans_done (ext x c) = trans_done c"
  "trans_id_map (ext x c) = trans_id_map c" "trans_delay_rm (ext x c) = trans_delay_rm c"
  "in_use (ext x c) = in_use c" "txns (ext x c) = txns c" "next_ptr (ext x c) = next_ptr c"
  "io (ext x c) = io c" "conn_status (ext x c) = conn_status c" "error (ext x c) = error c"
  "conn_freed (ext x c) = conn_freed c" "fault (ext x c) = fault c" "timer (ext x c) = timer c"
  "pingtxn (ext x c) = pingtxn c" "disable_ping (ext x c) = disable_ping c"
  "destroy (ext x c) = destroy c" "outbuf (ext x c) = outbuf c" "inbuf (ext x c) = inbuf c"
  "idle_timeout (ext x c) = idle_timeout c" "write_trigger (ext x c) = write_trigger c"
  "calls (ext x c) = x # calls c" "next_handle (ext x c) = next_handle c"
  by (simp_all add: ext_def)

lemma lock_frame [simp]:
  "trans_new (touch c) = trans_new c" "trans_ready (touch c) = trans_ready c"
  "trans_pending (touch c) = trans_pending c" "trans_done (touch c) = trans_done c"
  "trans_id_map (touch c) = trans_id_map c" "trans_delay_rm (touch c) = trans_delay_rm c"
  "in_use (touch c) = in_use c" "txns (touch c) = txns c" "next_ptr (touch c) = next_ptr c"
  "io (touch c) = io c" "conn_status (touch c) = conn_status c"
  "conn_freed (touch c) = conn_freed c" "timer (touch c) = timer c"
  "pingtxn (touch c) = pingtxn c" "disable_ping (touch c) = disable_ping c"
  "destroy (touch c) = destroy c" "outbuf (touch c) = outbuf c" "inbuf (touch c) = inbuf c"
  "idle_timeout (touch c) = idle_timeout c" "write_trigger (touch c) = write_trigger c"
  "error (touch c) = error c"
  "trans_new (lock_conn c) = trans_new c" "trans_ready (lock_conn c) = trans_ready c"
  "trans_pending (lock_conn c) = trans_pending c" "trans_done (lock_conn c) = trans_done c"
  "trans_id_map (lock_conn c) = trans_id_map c"
  "trans_delay_rm (lock_conn c) = trans_delay_rm c" "in_use (lock_conn c) = in_use c"
  "txns (lock_conn c) = txns c" "next_ptr (lock_conn c) = next_ptr c" "io (lock_conn c) = io c"
  "conn_status (lock_conn c) = conn_status c" "conn_freed (lock_conn c) = conn_freed c"
  "timer (lock_conn c) = timer c" "pingtxn (lock_conn c) = pingtxn c"
  "disable_ping (lock_conn c) = disable_ping c" "destroy (lock_conn c) = destroy c"
  "outbuf (lock_conn c) = outbuf c" "inbuf (lock_conn c) = inbuf c"
  "idle_timeout (lock_conn c) = idle_timeout c" "write_trigger (lock_conn c) = write_trigger c"
  "error (lock_conn c) = error c"
  "trans_new (unlock_conn c) = trans_new c" "trans_ready (unlock_conn c) = trans_ready c"
  "trans_pending (unlock_conn c) = trans_pending c" "trans_done (unlock_conn c) = trans_done c"
  "trans_id_map (unlock_conn c) = trans_id_map c"
  "trans_delay_rm (unlock_conn c) = trans_delay_rm c" "in_use (unlock_conn c) = in_use c"
  "txns (unlock_conn c) = txns c" "next_ptr (unlock_conn c) = next_ptr c"
  "io (unlock_conn c) = io c" "conn_status (unlock_conn c) = conn_status c"
  "conn_freed (unlock_conn c) = conn_freed c" "timer (unlock_conn c) = timer c"
  "pingtxn (unlock_conn c) = pingtxn c" "disable_ping (unlock_conn c) = disable_ping c"
  "destroy (unlock_conn c) = destroy c" "outbuf (unlock_conn c) = outbuf c"
  "inbuf (unlock_conn c) = inbuf c" "idle_timeout (unlock_conn c) = idle_timeout c"
  "write_trigger (unlock_conn c) = write_trigger c" "error (unlock_conn c) = error c"
  "trans_new (touch_trans p c) = trans_new c" "trans_ready (touch_trans p c) = trans_ready c"
  "trans_pending (touch_trans p c) = trans_pending c"
  "trans_done (touch_trans p c) = trans_done c"
  "trans_id_map (touch_trans p c) = trans_id_map c"
  "trans_delay_rm (touch_trans p c) = trans_delay_rm c" "in_use (touch_trans p c) = in_use c"
  "txns (touch_trans p c) = txns c" "next_ptr (touch_trans p c) = next_ptr c"
  "io (touch_trans p c) = io c" "conn_status (touch_trans p c) = conn_status c"
  "conn_freed (touch_trans p c) = conn_freed c" "timer (touch_trans p c) = timer c"
  "pingtxn (touch_trans p c) = pingtxn c" "disable_ping (touch_trans p c) = disable_ping c"
  "destroy (touch_trans p c) = destroy c" "outbuf (touch_trans p c) = outbuf c"
  "inbuf (touch_trans p c) = inbuf c" "idle_timeout (touch_trans p c) = idle_timeout c"
  "write_trigger (touch_trans p c) = write_trigger c" "error (touch_trans p c) = error c"
  "trans_new (lock_trans p c) = trans_new c" "trans_ready (lock_trans p c) = trans_ready c"
  "trans_pending (lock_trans p c) = trans_pending c"
  "trans_done (lock_trans p c) = trans_done c" "trans_id_map (lock_trans p c) = trans_id_map c"
  "trans_delay_rm (lock_trans p c) = trans_delay_rm c" "in_use (lock_trans p c) = in_use c"
  "txns (lock_trans p c) = txns c" "next_ptr (lock_trans p c) = next_ptr c"
  "io (lock_trans p c) = io c" "conn_status (lock_trans p c) = conn_status c"
  "conn_freed (lock_trans p c) = conn_freed c" "timer (lock_trans p c) = timer c"
  "pingtxn (lock_trans p c) = pingtxn c" "disable_ping (lock_trans p c) = disable_ping c"
  "destroy (lock_trans p c) = destroy c" "outbuf (lock_trans p c) = outbuf c"
  "inbuf (lock_trans p c) = inbuf c" "idle_timeout (lock_trans p c) = idle_timeout c"
  "write_trigger (lock_trans p c) = write_trigger c" "error (lock_trans p c) = error c"
  "trans_new (unlock_trans p c) = trans_new c" "trans_ready (unlock_trans p c) = trans_ready c"
  "trans_pending (unlock_trans p c) = trans_pending c"
  "trans_done (unlock_trans p c) = trans_done c"
  "trans_id_map (unlock_trans p c) = trans_id_map c"
  "trans_delay_rm (unlock_trans p c) = trans_delay_rm c" "in_use (unlock_trans p c) = in_use c"
  "txns (unlock_trans p c) = txns c" "next_ptr (unlock_trans p c) = next_ptr c"
  "io (unlock_trans p c) = io c" "conn_status (unlock_trans p c) = conn_status c"
  "conn_freed (unlock_trans p c) = conn_freed c" "timer (unlock_trans p c) = timer c"
  "pingtxn (unlock_trans p c) = pingtxn c" "disable_ping (unlock_trans p c) = disable_ping c"
  "destroy (unlock_trans p c) = destroy c" "outbuf (unlock_trans p c) = outbuf c"
  "inbuf (unlock_trans p c) = inbuf c" "idle_timeout (unlock_trans p c) = idle_timeout c"
  "write_trigger (unlock_trans p c) = write_trigger c" "error (unlock_trans p c) = error c"
  "trans_new (set_error s c) = trans_new c" "trans_ready (set_error s c) = trans_ready c"
  "trans_pending (set_error s c) = trans_pending c" "trans_done (set_error s c) = trans_done c"
  "trans_id_map (set_error s c) = trans_id_map c"
  "trans_delay_rm (set_error s c) = trans_delay_rm c" "in_use (set_error s c) = in_use c"
  "txns (set_error s c) = txns c" "next_ptr (set_error s c) = next_ptr c"
  "io (set_error s c) = io c" "conn_status (set_error s c) = conn_status c"
  "conn_freed (set_error s c) = conn_freed c" "timer (set_error s c) = timer c"
  "pingtxn (set_error s c) = pingtxn c" "disable_ping (set_error s c) = disable_ping c"
  "destroy (set_error s c) = destroy c" "outbuf (set_error s c) = outbuf c"
  "inbuf (set_error s c) = inbuf c" "idle_timeout (set_error s c) = idle_timeout c"
  "write_trigger (set_error s c) = write_trigger c" "fault (set_error s c) = fault c"
  by (simp_all add: touch_def lock_conn_def unlock_conn_def touch_trans_def lock_trans_def
      unlock_trans_def set_error_def)

lemma touch_id: "core_inv L c \<Longrightarrow> touch c = c"
  by (simp add: touch_def core_inv_not_freed)

lemma touch_trans_id [simp]: "live c p \<Longrightarrow> touch_trans p c = c"
  by (simp add: touch_trans_def)

lemma liveE:
  assumes "live c p"
  obtains t where "txns c p = Some t"
  using assms by (auto simp: live_def)

lemma trans_at_Some [simp]: "txns c p = Some t \<Longrightarrow> trans_at c p = t"
  by (simp add: trans_at_def)

lemma upd_trans_Some [simp]:
  "txns c p = Some t \<Longrightarrow> upd_trans p f c = c\<lparr>txns := (txns c)(p \<mapsto> f t)\<rparr>"
  by (simp add: upd_trans_def)

section \<open>States with their locks\<close>

definition core_at :: "mstd \<Rightarrow> lock_id list \<Rightarrow> LM_conn \<Rightarrow> bool" where
  "core_at L hs c \<longleftrightarrow> core_inv L c \<and> locks_held (calls c) = Some hs"

definition inv_at :: "mstd \<Rightarrow> lock_id list \<Rightarrow> LM_conn \<Rightarrow> bool" where
  "inv_at L hs c \<longleftrightarrow> lm_inv L c \<and> locks_held (calls c) = Some hs"

lemma inv_at_core: "inv_at L hs c \<Longrightarrow> core_at L hs c"
  by (simp add: inv_at_def core_at_def lm_inv_def)

lemma core_at_ping: "core_at L hs c \<Longrightarrow> ping_inv c \<Longrightarrow> inv_at L hs c"
  by (simp add: inv_at_def core_at_def lm_inv_def)

lemma ping_inv_cong:
  assumes "pingtxn c' = pingtxn c" "disable_ping c' = disable_ping c"
    "conn_status c' = conn_status c" "timer c' = timer c" "trans_pending c' = trans_pending c"
    "trans_delay_rm c' = trans_delay_rm c"
  shows "ping_inv c' = ping_inv c"
  unfolding ping_inv_def by (simp only: assms)

text \<open>
  What every operation respects: a transaction keeps its number, and its status only goes
  forward; the allocator gives new memory to a new one.
\<close>

definition forward :: "LM_conn \<Rightarrow> LM_conn \<Rightarrow> bool" where
  "forward c c' \<longleftrightarrow>
     next_ptr c \<le> next_ptr c' \<and>
     (\<forall>p t'. p < next_ptr c \<longrightarrow> txns c' p = Some t' \<longrightarrow>
        (\<exists>t. txns c p = Some t \<and> trans_id t' = trans_id t \<and> status t \<le> status t'))"

lemma forward_refl [simp]: "forward c c"
  by (simp add: forward_def)

lemma forward_trans [trans]:
  assumes "forward a b" "forward b c"
  shows "forward a c"
  unfolding forward_def
proof (intro conjI allI impI)
  show "next_ptr a \<le> next_ptr c" using assms by (simp add: forward_def)
  fix p t'
  assume p: "p < next_ptr a" and "txns c p = Some t'"
  moreover have "p < next_ptr b" using p assms(1) by (simp add: forward_def)
  ultimately obtain u where u: "txns b p = Some u" "trans_id t' = trans_id u" "status u \<le> status t'"
    using assms(2) unfolding forward_def by blast
  with p assms(1) obtain t where "txns a p = Some t" "trans_id u = trans_id t" "status t \<le> status u"
    unfolding forward_def by blast
  with u show "\<exists>t. txns a p = Some t \<and> trans_id t' = trans_id t \<and> status t \<le> status t'"
    using order_trans by auto
qed

lemma forward_same: "txns c' = txns c \<Longrightarrow> next_ptr c' = next_ptr c \<Longrightarrow> forward c c'"
  by (simp add: forward_def)

lemma forward_cong:
  "txns c' = txns c \<Longrightarrow> next_ptr c' = next_ptr c \<Longrightarrow> txns d' = txns d \<Longrightarrow> next_ptr d' = next_ptr d \<Longrightarrow>
   forward c' d' = forward c d"
  by (simp add: forward_def)

lemma forward_pointwise:
  assumes "next_ptr c' = next_ptr c"
    and "\<And>p t'. txns c' p = Some t' \<Longrightarrow>
      \<exists>t. txns c p = Some t \<and> trans_id t' = trans_id t \<and> status t \<le> status t'"
  shows "forward c c'"
  using assms by (simp add: forward_def)

lemma forward_upd:
  assumes "txns c' = (txns c)(p \<mapsto> t')" "next_ptr c' = next_ptr c" "txns c p = Some t"
    and "trans_id t' = trans_id t" "status t \<le> status t'"
  shows "forward c c'"
  by (rule forward_pointwise) (use assms in \<open>auto split: if_splits\<close>)

text \<open>
  Nor does an operation claim or release the connection for an event, and while an event is
  being handled it frees no transaction.
\<close>

definition grows :: "LM_conn \<Rightarrow> LM_conn \<Rightarrow> bool" where
  "grows c c' \<longleftrightarrow>
     in_use c' = in_use c \<and> (in_use c \<longrightarrow> (\<forall>p. live c p \<longrightarrow> live c' p)) \<and> forward c c'"

lemma grows_refl [simp]: "grows c c"
  by (simp add: grows_def)

lemma grows_trans [trans]: "grows a b \<Longrightarrow> grows b c \<Longrightarrow> grows a c"
  using forward_trans by (auto simp: grows_def)

lemma grows_same:
  "in_use c' = in_use c \<Longrightarrow> txns c' = txns c \<Longrightarrow> next_ptr c' = next_ptr c \<Longrightarrow> grows c c'"
  by (simp add: grows_def live_def forward_same)

lemma grows_upd:
  assumes "in_use c' = in_use c" "txns c' = (txns c)(p \<mapsto> t')" "next_ptr c' = next_ptr c"
    and "txns c p = Some t" "trans_id t' = trans_id t" "status t \<le> status t'"
  shows "grows c c'"
  using assms forward_upd [OF assms(2-6)] by (simp add: grows_def live_def)

lemma grows_new:
  assumes "in_use c' = in_use c" "txns c' = (txns c)(next_ptr c \<mapsto> t)" "next_ptr c' = Suc (next_ptr c)"
  shows "grows c c'"
  using assms by (auto simp: grows_def live_def forward_def)

lemma grows_del:
  assumes "in_use c' = in_use c" "\<not> in_use c" "next_ptr c' = next_ptr c"
    and "\<And>p. txns c' p = None \<or> txns c' p = txns c p"
  shows "grows c c'"
proof -
  have "forward c c'"
    by (rule forward_pointwise) (use assms(3,4) in \<open>metis option.distinct(1) order_refl\<close>)+
  with assms(1,2) show ?thesis by (simp add: grows_def)
qed

text \<open>States that look the same to the relation.\<close>

lemma grows_cong:
  assumes "in_use c' = in_use c" "txns c' = txns c" "next_ptr c' = next_ptr c"
    and "in_use d' = in_use d" "txns d' = txns d" "next_ptr d' = next_ptr d"
  shows "grows c' d' = grows c d"
  using assms forward_cong [OF assms(2,3,5,6)] by (simp add: grows_def live_def)

section \<open>The moves\<close>

lemma core_inv_notin:
  assumes "core_inv L c" "txns c p = Some t"
  shows "status t \<noteq> LM_TRANS_STATUS_NEW \<Longrightarrow> p \<notin> set (trans_new c)"
    and "status t \<noteq> LM_TRANS_STATUS_READY \<Longrightarrow> p \<notin> set (trans_ready c)"
    and "status t \<noteq> LM_TRANS_STATUS_PENDING \<Longrightarrow> p \<notin> set (trans_pending c)"
    and "status t \<noteq> LM_TRANS_STATUS_DONE \<Longrightarrow> p \<notin> set (trans_done c)"
  using assms by (auto simp: core_inv_def queue_inv_def status_is_Some)

lemma heap_inv_upd:
  "heap_inv c \<Longrightarrow> txns c p = Some t \<Longrightarrow> trans_wf t' \<Longrightarrow> txns c' = (txns c)(p \<mapsto> t') \<Longrightarrow>
   next_ptr c' = next_ptr c \<Longrightarrow> heap_inv c'"
  by (auto simp: heap_inv_def)

lemma map_inv_upd:
  "map_inv L c \<Longrightarrow> txns c p = Some t \<Longrightarrow> trans_id t' = trans_id t \<Longrightarrow>
   txns c' = (txns c)(p \<mapsto> t') \<Longrightarrow> trans_id_map c' = trans_id_map c \<Longrightarrow> map_inv L c'"
  by (auto simp: map_inv_def)

lemma delay_inv_upd:
  "delay_inv c \<Longrightarrow> txns c' = (txns c)(p \<mapsto> t') \<Longrightarrow> trans_delay_rm c' = trans_delay_rm c \<Longrightarrow>
   in_use c' = in_use c \<Longrightarrow> delay_inv c'"
  by (auto simp: delay_inv_def live_def)

text \<open>Rewriting a transaction in place, or while it changes queue: all but the queues.\<close>

lemma core_inv_upd:
  assumes "core_inv L c" "txns c p = Some t" "trans_id t' = trans_id t" "trans_wf t'"
    and "txns c' = (txns c)(p \<mapsto> t')" "next_ptr c' = next_ptr c"
    "trans_id_map c' = trans_id_map c" "trans_delay_rm c' = trans_delay_rm c"
    "in_use c' = in_use c" "io c' = io c" "conn_status c' = conn_status c" "error c' = error c"
    "fault c' = fault c" "conn_freed c' = conn_freed c"
    and "queue_inv c'"
  shows "core_inv L c'"
  using assms heap_inv_upd [of c p t t' c'] map_inv_upd [of L c p t t' c']
    delay_inv_upd [of c c' p t']
  by (simp add: core_inv_def io_inv_def)

lemma move_update:
  assumes "core_inv L c" "txns c p = Some t"
    and "trans_id t' = trans_id t" "status t' = status t" "trans_wf t'"
  shows "core_inv L (c\<lparr>txns := (txns c)(p \<mapsto> t')\<rparr>)"
  apply (rule core_inv_upd [OF assms(1,2,3,5)])
  using assms by (auto simp: core_inv_def queue_inv_def queues_def live_def status_is_Some)

lemma move_new_ready:
  assumes "core_inv L c" "txns c p = Some t" "status t = LM_TRANS_STATUS_NEW"
    and "trans_id t' = trans_id t" "status t' = LM_TRANS_STATUS_READY" "trans_wf t'"
  shows "core_inv L (c\<lparr>txns := (txns c)(p \<mapsto> t'), trans_new := remove1 p (trans_new c),
                        trans_ready := trans_ready c @ [p]\<rparr>)"
  apply (rule core_inv_upd [OF assms(1,2,4,6)])
  using assms core_inv_notin [OF assms(1,2)]
  by (auto simp: core_inv_def queue_inv_def queues_def live_def distinct_remove1_set)

lemma move_ready_pending:
  assumes "core_inv L c" "trans_ready c = p # q" "txns c p = Some t"
    and "trans_id t' = trans_id t" "status t' = LM_TRANS_STATUS_PENDING" "trans_wf t'"
  shows "core_inv L (c\<lparr>txns := (txns c)(p \<mapsto> t'), trans_ready := q,
                        trans_pending := trans_pending c @ [p]\<rparr>)"
proof -
  have "status t = LM_TRANS_STATUS_READY"
    using assms core_inv_queue_status(2) [of L c p] by (simp add: status_is_Some)
  then show ?thesis
    apply (intro core_inv_upd [OF assms(1,3,4,6)])
    using assms core_inv_notin [OF assms(1,3)]
    by (auto simp: core_inv_def queue_inv_def queues_def live_def)
qed

lemma move_pending_done:
  assumes "core_inv L c" "p \<in> set (trans_pending c)" "txns c p = Some t"
    and "trans_id t' = trans_id t" "status t' = LM_TRANS_STATUS_DONE" "trans_wf t'"
  shows "core_inv L (c\<lparr>txns := (txns c)(p \<mapsto> t'), trans_pending := remove1 p (trans_pending c),
                        trans_done := trans_done c @ [p]\<rparr>)"
proof -
  have "status t = LM_TRANS_STATUS_PENDING"
    using assms core_inv_queue_status(3) [of L c p] by (simp add: status_is_Some)
  then show ?thesis
    apply (intro core_inv_upd [OF assms(1,3,4,6)])
    using assms core_inv_notin [OF assms(1,3)]
    by (auto simp: core_inv_def queue_inv_def queues_def live_def distinct_remove1_set)
qed

lemma move_delay:
  assumes "core_inv L c" "live c p" "p \<notin> set (trans_delay_rm c)" "in_use c"
  shows "core_inv L (c\<lparr>trans_delay_rm := trans_delay_rm c @ [p]\<rparr>)"
  using assms unfolding core_inv_defs by auto

context id_map_api
begin

lemma fresh_id:
  assumes "core_inv L c" "M_hash_u64vp_get L (trans_id_map c) k = None" "txns c q = Some u"
  shows "trans_id u \<noteq> k"
  using assms core_inv_map [of L c k q] by auto

lemma map_inv_alloc:
  assumes "core_inv L c" "M_hash_u64vp_get L (trans_id_map c) (trans_id t) = None"
    and "txns c p = None" "txns c' = (txns c)(p \<mapsto> t)"
    "trans_id_map c' = M_hash_u64vp_insert L (trans_id_map c) (trans_id t) p"
  shows "map_inv L c'"
  using assms fresh_id [OF assms(1,2)] by (auto simp: map_inv_def core_inv_map)

lemma move_alloc:
  assumes "core_inv L c" "M_hash_u64vp_get L (trans_id_map c) (trans_id t) = None"
    and "trans_wf t" "p = next_ptr c"
  shows "status t = LM_TRANS_STATUS_NEW \<Longrightarrow>
    core_inv L (c\<lparr>next_ptr := Suc p, txns := (txns c)(p \<mapsto> t), trans_new := trans_new c @ [p],
                  trans_id_map := M_hash_u64vp_insert L (trans_id_map c) (trans_id t) p\<rparr>)"
    (is "_ \<Longrightarrow> core_inv L ?c1")
    and "status t = LM_TRANS_STATUS_PENDING \<Longrightarrow>
    core_inv L (c\<lparr>next_ptr := Suc p, txns := (txns c)(p \<mapsto> t),
                  trans_pending := trans_pending c @ [p],
                  trans_id_map := M_hash_u64vp_insert L (trans_id_map c) (trans_id t) p\<rparr>)"
    (is "_ \<Longrightarrow> core_inv L ?c2")
proof -
  have fresh: "txns c p = None"
    using assms core_inv_below by (metis less_irrefl not_None_eq)
  have notin: "p \<notin> set (trans_new c)" "p \<notin> set (trans_ready c)" "p \<notin> set (trans_pending c)"
    "p \<notin> set (trans_done c)" "p \<notin> set (trans_delay_rm c)"
    using assms(1) fresh
    by (auto simp: core_inv_def queue_inv_def delay_inv_def live_def dest: status_is_None)
  have q: "queue_inv c" "delay_inv c" "heap_inv c" "io_inv c" "\<not> fault c" "\<not> conn_freed c"
    using assms(1) by (simp_all add: core_inv_def)
  have "heap_inv ?c1" "heap_inv ?c2"
    using q assms by (auto simp: heap_inv_def less_Suc_eq)
  moreover have "delay_inv ?c1" "delay_inv ?c2" "io_inv ?c1" "io_inv ?c2"
    using q by (auto simp: delay_inv_def live_def io_inv_def)
  moreover have "map_inv L ?c1" "map_inv L ?c2"
    using map_inv_alloc [OF assms(1,2) fresh] by simp_all
  moreover have "status t = LM_TRANS_STATUS_NEW \<Longrightarrow> queue_inv ?c1"
    using q(1) notin by (auto simp: queue_inv_def queues_def live_def)
  moreover have "status t = LM_TRANS_STATUS_PENDING \<Longrightarrow> queue_inv ?c2"
    using q(1) notin by (auto simp: queue_inv_def queues_def live_def)
  ultimately show "status t = LM_TRANS_STATUS_NEW \<Longrightarrow> core_inv L ?c1"
    and "status t = LM_TRANS_STATUS_PENDING \<Longrightarrow> core_inv L ?c2"
    using q by (simp_all add: core_inv_def)
qed

lemma move_free:
  assumes "core_inv L c" "txns c p = Some t"
  shows "core_inv L (c\<lparr>txns := (txns c)(p := None),
    trans_new := remove1 p (trans_new c), trans_ready := remove1 p (trans_ready c),
    trans_pending := remove1 p (trans_pending c), trans_done := remove1 p (trans_done c),
    trans_delay_rm := remove1 p (trans_delay_rm c),
    trans_id_map := M_hash_u64vp_remove L (trans_id_map c) (trans_id t)\<rparr>)"
    (is "core_inv L ?c")
proof -
  have uniq: "txns c q = Some u \<Longrightarrow> trans_id u = trans_id t \<Longrightarrow> q = p" for q u
    using assms core_inv_unique_id by metis
  have q: "queue_inv c" "delay_inv c" "map_inv L c" "heap_inv c" "io_inv c"
    "\<not> fault c" "\<not> conn_freed c"
    using assms(1) by (simp_all add: core_inv_def)
  have "queue_inv ?c"
    using q(1) by (auto simp: queue_inv_def queues_def live_def distinct_remove1_set)
  moreover have "delay_inv ?c"
    using q(2) by (auto simp: delay_inv_def live_def distinct_remove1_set)
  moreover have "map_inv L ?c"
  proof -
    have "(if k = trans_id t then None else M_hash_u64vp_get L (trans_id_map c) k) = Some r \<longleftrightarrow>
          (\<exists>u. ((txns c)(p := None)) r = Some u \<and> trans_id u = k)" for k r
      using uniq [of r] assms(2) core_inv_map [OF assms(1), of k r] by (cases "r = p") auto
    then show ?thesis by (simp add: map_inv_def)
  qed
  moreover have "heap_inv ?c" "io_inv ?c"
    using q by (auto simp: heap_inv_def io_inv_def)
  ultimately show ?thesis
    using q by (simp add: core_inv_def)
qed

end

end
