(* ===== verification/LM_Conn_Inv.thy ===== *)
theory LM_Conn_Inv
  imports LM_Invariant
begin

text \<open>
  The operations of the connection object keep the invariant and leave the locks as they found
  them.
\<close>

lemma core_at_not_freed: "core_at L hs c \<Longrightarrow> \<not> conn_freed c"
  by (auto simp: core_at_def dest: core_inv_not_freed)

lemma inv_at_not_freed: "inv_at L hs c \<Longrightarrow> \<not> conn_freed c"
  using core_at_not_freed inv_at_core by blast

lemma lock_conn_frame:
  "\<not> conn_freed c \<Longrightarrow> lock_conn c = ext (Mutex_lock Conn_lock) c"
  "\<not> conn_freed c \<Longrightarrow> unlock_conn c = ext (Mutex_unlock Conn_lock) c"
  by (simp_all add: lock_conn_def unlock_conn_def touch_def)

lemma core_inv_ext [lm_inv_simps]: "core_inv L (ext x c) = core_inv L c"
  by (simp add: ext_def lm_inv_simps)

lemma ping_inv_ext [lm_inv_simps]: "ping_inv (ext x c) = ping_inv c"
  by (rule ping_inv_cong) simp_all

lemma ping_inv_simps [lm_inv_simps]:
  "ping_inv (c\<lparr>error := x1\<rparr>) = ping_inv c"
  "ping_inv (c\<lparr>next_handle := x2\<rparr>) = ping_inv c"
  "ping_inv (c\<lparr>outbuf := x3\<rparr>) = ping_inv c"
  "ping_inv (c\<lparr>inbuf := x4\<rparr>) = ping_inv c"
  "ping_inv (c\<lparr>txns := x5\<rparr>) = ping_inv c"
  "ping_inv (c\<lparr>write_trigger := x6\<rparr>) = ping_inv c"
  "ping_inv (c\<lparr>tlsctx := x8\<rparr>) = ping_inv c"
  "ping_inv (c\<lparr>host := x9\<rparr>) = ping_inv c"
  "ping_inv (c\<lparr>port := x10\<rparr>) = ping_inv c"
  "ping_inv (c\<lparr>mode := x11\<rparr>) = ping_inv c"
  "ping_inv (c\<lparr>conn_timeout := x13\<rparr>) = ping_inv c"
  "ping_inv (c\<lparr>idle_timeout := x14\<rparr>) = ping_inv c"
  "ping_inv (c\<lparr>conn_user_data := x15\<rparr>) = ping_inv c"
  "ping_inv (c\<lparr>iocreate_cb := x16\<rparr>) = ping_inv c"
  "ping_inv (c\<lparr>destroy := x17\<rparr>) = ping_inv c"
  "ping_inv (c\<lparr>in_use := x18\<rparr>) = ping_inv c"
  by (rule ping_inv_cong; simp)+

lemma core_at_lock:
  "core_at L [] c \<Longrightarrow> core_at L [Conn_lock] (lock_conn c)"
  "core_at L [Conn_lock] c \<Longrightarrow> core_at L [] (unlock_conn c)"
  using core_inv_not_freed [of L c]
  by (auto simp: core_at_def lock_conn_frame lm_inv_simps)

lemma inv_at_lock:
  "inv_at L [] c \<Longrightarrow> inv_at L [Conn_lock] (lock_conn c)"
  "inv_at L [Conn_lock] c \<Longrightarrow> inv_at L [] (unlock_conn c)"
  using core_inv_not_freed [of L c]
  by (auto simp: inv_at_def lm_inv_def lock_conn_frame lm_inv_simps)

lemma ping_inv_up:
  "conn_status c = LM_CONN_STATUS_CONNECTED \<or> conn_status c = LM_CONN_STATUS_DISCONNECTING \<or>
   conn_status c = LM_CONN_STATUS_IDLE_TIMEOUT \<Longrightarrow> ping_inv c \<longleftrightarrow> pingtxn c = None"
  by (auto simp: ping_inv_def)

lemma ping_inv_down:
  "conn_status c = LM_CONN_STATUS_DISCONNECTED \<Longrightarrow>
   ping_inv c \<longleftrightarrow> timer c = None \<and> trans_pending c = [] \<and> (pingtxn c \<noteq> None \<longrightarrow> \<not> disable_ping c)"
  by (auto simp: ping_inv_def)

section \<open>Connecting\<close>

lemma core_inv_set_error [lm_inv_simps]: "core_inv L c \<Longrightarrow> core_inv L (set_error s c)"
  by (simp add: set_error_def lm_inv_simps)

lemma core_inv_conn:
  assumes "core_inv L c" "i = None \<longleftrightarrow> s = LM_CONN_STATUS_DISCONNECTED" "length e < 256"
  shows "core_inv L (c\<lparr>error := e, io := i, conn_status := s\<rparr>)"
  using assms unfolding core_inv_defs by simp

lemma core_inv_status:
  assumes "core_inv L c" "io c \<noteq> None" "s \<noteq> LM_CONN_STATUS_DISCONNECTED"
  shows "core_inv L (c\<lparr>conn_status := s\<rparr>)"
  using assms unfolding core_inv_defs by simp

lemma ensure_tlsctx_result:
  obtains h n cs where "ensure_tlsctx c = c\<lparr>tlsctx := Some h, next_handle := n, calls := cs\<rparr>"
    and "locks_held cs = locks_held (calls c)"
proof (cases "tlsctx c")
  case None
  show ?thesis
  proof (rule that)
    show "ensure_tlsctx c = c\<lparr>tlsctx := Some (next_handle c), next_handle := Suc (next_handle c),
        calls := calls (ensure_tlsctx c)\<rparr>"
      by (simp add: ensure_tlsctx_def None new_handle_def ext_def Let_def)
    show "locks_held (calls (ensure_tlsctx c)) = locks_held (calls c)"
      by (simp add: ensure_tlsctx_def None new_handle_def ext_def Let_def split: option.split)
  qed
next
  case (Some h)
  then have "ensure_tlsctx c = c\<lparr>tlsctx := Some h, next_handle := next_handle c, calls := calls c\<rparr>"
    by (simp add: ensure_tlsctx_def)
  then show ?thesis
    by (rule that) simp
qed

text \<open>
  What an attempt to connect changes. When it fails the connection is as disconnected as it
  was, with a message; when it succeeds the socket exists and the status is \<open>CONNECTING\<close>.
\<close>

lemma connect_locked_result:
  assumes "io c = None" "\<not> conn_freed c" "locks_held (calls c) = Some [Conn_lock]"
  obtains ok e i s tl n cs where
    "connect_locked L c = (ok, c\<lparr>error := e, io := i, conn_status := s, tlsctx := tl,
                                next_handle := n, calls := cs\<rparr>)"
    and "length e < 256" "locks_held cs = Some [Conn_lock]"
    and "ok \<Longrightarrow> e = [] \<and> i \<noteq> None \<and> s = LM_CONN_STATUS_CONNECTING"
    and "\<not> ok \<Longrightarrow> i = None \<and> s = conn_status c"
proof -
  obtain h n cs where tls: "ensure_tlsctx (c\<lparr>error := []\<rparr>) =
      c\<lparr>error := [], tlsctx := Some h, next_handle := n, calls := cs\<rparr>"
    and "locks_held cs = locks_held (calls (c\<lparr>error := []\<rparr>))"
    by (rule ensure_tlsctx_result)
  then have cs: "locks_held cs = Some [Conn_lock]"
    using assms(3) by simp
  let ?r = "connect_locked L c"
  have r: "snd ?r = c\<lparr>error := error (snd ?r), io := io (snd ?r), conn_status := conn_status (snd ?r),
      tlsctx := Some h, next_handle := next_handle (snd ?r), calls := calls (snd ?r)\<rparr> \<and>
    length (error (snd ?r)) < 256 \<and> locks_held (calls (snd ?r)) = Some [Conn_lock] \<and>
    (fst ?r \<longrightarrow> error (snd ?r) = [] \<and> io (snd ?r) \<noteq> None \<and>
       conn_status (snd ?r) = LM_CONN_STATUS_CONNECTING) \<and>
    (\<not> fst ?r \<longrightarrow> io (snd ?r) = None \<and> conn_status (snd ?r) = conn_status c)"
  proof (cases "M_io_net_client_create L cs")
    case (Some err)
    with assms(1,2) cs show ?thesis
      by (simp add: connect_locked_def tls Let_def set_error_def ext_def min_less_iff_disj)
  next
    case None
    note d = None assms(1,2) cs connect_locked_def tls Let_def set_error_def ext_def
      min_less_iff_disj new_handle_def lock_conn_def unlock_conn_def touch_def
    show ?thesis
      by (cases "mode c"; cases "iocreate_cb c") (simp_all add: d split: option.split)
  qed
  then have "?r = (fst ?r, c\<lparr>error := error (snd ?r), io := io (snd ?r),
      conn_status := conn_status (snd ?r), tlsctx := Some h, next_handle := next_handle (snd ?r),
      calls := calls (snd ?r)\<rparr>)"
    by (metis prod.collapse)
  then show ?thesis
    by (rule that) (use r in simp_all)
qed

lemma connect_locked_inv:
  assumes "inv_at L [Conn_lock] c"
  shows "inv_at L [Conn_lock] (snd (connect_locked L c))"
proof -
  have c: "core_inv L c" "ping_inv c" "locks_held (calls c) = Some [Conn_lock]" "\<not> conn_freed c"
    using assms inv_at_not_freed [OF assms] by (simp_all add: inv_at_def lm_inv_def)
  show ?thesis
  proof (cases "io c")
    case (Some h)
    then show ?thesis
      using c core_inv_error(1) [OF core_inv_error(2) [of L c], of "''Already connected''"]
      by (simp add: connect_locked_def inv_at_def lm_inv_def lm_inv_simps set_error_def)
  next
    case None
    with c have st: "conn_status c = LM_CONN_STATUS_DISCONNECTED"
      by (simp add: core_inv_def io_inv_def)
    obtain ok e i s tl n cs where
      r: "connect_locked L c = (ok, c\<lparr>error := e, io := i, conn_status := s, tlsctx := tl,
                                next_handle := n, calls := cs\<rparr>)"
      and len: "length e < 256" and lk: "locks_held cs = Some [Conn_lock]"
      and yes: "ok \<Longrightarrow> e = [] \<and> i \<noteq> None \<and> s = LM_CONN_STATUS_CONNECTING"
      and no: "\<not> ok \<Longrightarrow> i = None \<and> s = conn_status c"
      by (rule connect_locked_result [OF None c(4,3)]) blast
    have "core_inv L (snd (connect_locked L c))"
      using core_inv_conn [OF c(1), of i s e] len yes no st
      by (cases ok) (simp_all add: r lm_inv_simps)
    moreover have "ping_inv (snd (connect_locked L c))"
      using c(2) r yes no st by (cases ok) (auto simp: ping_inv_def)
    ultimately show ?thesis
      using r lk by (simp add: inv_at_def lm_inv_def)
  qed
qed

lemma LM_conn_connect_inv:
  "inv_at L [] c \<Longrightarrow> inv_at L [] (snd (LM_conn_connect L p c))"
  using inv_at_lock(2) [OF connect_locked_inv [OF inv_at_lock(1)]]
  by (auto simp: LM_conn_connect_def Let_def split_beta)

section \<open>Disconnecting\<close>

lemma disconnect_connlocked_inv:
  assumes "inv_at L [Conn_lock] c"
  shows "inv_at L [Conn_lock] (snd (LM_conn_disconnect_connlocked c))"
proof (cases "io c \<noteq> None \<and> conn_status c = LM_CONN_STATUS_CONNECTED")
  case True
  with assms show ?thesis
    by (auto simp: LM_conn_disconnect_connlocked_def inv_at_def lm_inv_def lm_inv_simps
        ping_inv_up core_inv_status)
next
  case False
  with assms show ?thesis
    by (auto simp: LM_conn_disconnect_connlocked_def split: option.split)
qed

lemma LM_conn_disconnect_inv:
  "inv_at L [] c \<Longrightarrow> inv_at L [] (snd (LM_conn_disconnect p c))"
  using inv_at_lock(2) [OF disconnect_connlocked_inv [OF inv_at_lock(1)]]
  by (auto simp: LM_conn_disconnect_def Let_def split_beta)

section \<open>Settings\<close>

lemma inv_at_simps [lm_inv_simps]:
  "inv_at L hs (c\<lparr>host := x1\<rparr>) = inv_at L hs c"
  "inv_at L hs (c\<lparr>port := x2\<rparr>) = inv_at L hs c"
  "inv_at L hs (c\<lparr>mode := x3\<rparr>) = inv_at L hs c"
  "inv_at L hs (c\<lparr>conn_timeout := x4\<rparr>) = inv_at L hs c"
  "inv_at L hs (c\<lparr>idle_timeout := x5\<rparr>) = inv_at L hs c"
  "inv_at L hs (c\<lparr>conn_user_data := x6\<rparr>) = inv_at L hs c"
  "inv_at L hs (c\<lparr>iocreate_cb := x7\<rparr>) = inv_at L hs c"
  "inv_at L hs (c\<lparr>tlsctx := x8\<rparr>) = inv_at L hs c"
  "inv_at L hs (c\<lparr>destroy := x9\<rparr>) = inv_at L hs c"
  "inv_at L hs (c\<lparr>next_handle := x10\<rparr>) = inv_at L hs c"
  by (simp_all add: inv_at_def lm_inv_def lm_inv_simps)

fun lock_free :: "call \<Rightarrow> bool" where
  "lock_free (Mutex_lock l) = False"
| "lock_free (Mutex_unlock l) = False"
| "lock_free (Mutex_destroy l) = False"
| "lock_free _ = True"

lemma inv_at_ext [lm_inv_simps]: "lock_free x \<Longrightarrow> inv_at L hs (ext x c) = inv_at L hs c"
  by (cases x) (auto simp: inv_at_def lm_inv_def lm_inv_simps split: option.split)

lemma LM_conn_settings_inv:
  assumes "inv_at L [] c"
  shows "inv_at L [] (snd (LM_conn_change_server L p h k c))"
    and "inv_at L [] (snd (LM_conn_change_mode p m c))"
    and "inv_at L [] (snd (LM_conn_set_conn_timeout p n c))"
    and "inv_at L [] (snd (LM_conn_set_iocreate_callback p f c))"
    and "inv_at L [] (snd (LM_conn_set_tls_clientctx p x c))"
    and "inv_at L [] (snd (LM_conn_set_tls_cert L p k1 n1 k2 n2 c))"
    and "inv_at L [] (snd (LM_conn_set_tls_cert_files L p k1 k2 c))"
    and "inv_at L [] (snd (LM_conn_set_userdata p ud c))"
  using assms inv_at_lock inv_at_not_freed [OF assms]
  by (simp_all add: LM_conn_change_server_def LM_conn_change_mode_def LM_conn_set_conn_timeout_def
      LM_conn_set_iocreate_callback_def LM_conn_set_tls_clientctx_def LM_conn_set_tls_cert_def
      LM_conn_set_tls_cert_files_def LM_conn_set_userdata_def Let_def split_beta lm_inv_simps
      touch_def split: option.split)

lemma LM_conn_disable_ping_inv:
  "inv_at L [] c \<Longrightarrow> pingtxn c = None \<Longrightarrow> inv_at L [] (LM_conn_disable_ping p c)"
  using inv_at_not_freed [of L "[]" c]
  by (cases "conn_status c"; cases "timer c")
    (auto simp: LM_conn_disable_ping_def inv_at_def lm_inv_def lm_inv_simps ping_inv_def touch_def)

lemma LM_conn_set_idle_timeout_inv:
  assumes "inv_at L [] c"
  shows "inv_at L [] (snd (LM_conn_set_idle_timeout L p n c))"
proof -
  have timer: "inv_at L hs (c\<lparr>timer := h\<rparr>)"
    if "inv_at L hs c" "conn_status c = LM_CONN_STATUS_CONNECTED" for hs c h
    using that by (simp add: inv_at_def lm_inv_def lm_inv_simps ping_inv_def)
  show ?thesis
    using inv_at_lock(1) [OF assms]
    by (auto simp: LM_conn_set_idle_timeout_def Let_def new_handle_def event_timer_remove_def
        lm_inv_simps assms intro!: inv_at_lock(2) timer)
qed

lemma counts_inv:
  assumes "inv_at L [] c"
  shows "inv_at L [] (snd (LM_conn_trans_count L p s c))"
    and "inv_at L [] (snd (LM_conn_trans_list L p s c))"
    and "inv_at L [] (snd (LM_conn_get_trans_by_internal_id L p k c))"
  using assms inv_at_lock
  by (simp_all add: LM_conn_trans_count_def LM_conn_trans_list_def
      LM_conn_get_trans_by_internal_id_def Let_def)

section \<open>What they leave alone\<close>

lemma connect_locked_frame:
  "in_use (snd (connect_locked L c)) = in_use c" "txns (snd (connect_locked L c)) = txns c"
  "next_ptr (snd (connect_locked L c)) = next_ptr c"
proof -
  have tls: "in_use (ensure_tlsctx d) = in_use d" "txns (ensure_tlsctx d) = txns d"
    "next_ptr (ensure_tlsctx d) = next_ptr d" for d
    by (simp_all add: ensure_tlsctx_def new_handle_def Let_def split: option.split)
  show "in_use (snd (connect_locked L c)) = in_use c"
    unfolding connect_locked_def
    by (intro kept_steps [where g = in_use]) (simp_all add: new_handle_def tls split: option.split)
  show "txns (snd (connect_locked L c)) = txns c"
    unfolding connect_locked_def
    by (intro kept_steps [where g = txns]) (simp_all add: new_handle_def tls split: option.split)
  show "next_ptr (snd (connect_locked L c)) = next_ptr c"
    unfolding connect_locked_def
    by (intro kept_steps [where g = next_ptr]) (simp_all add: new_handle_def tls split: option.split)
qed

lemma conn_ops_grow:
  "grows c (snd (LM_conn_connect L p c))"
  "grows c (snd (LM_conn_disconnect p c))"
  "grows c (snd (LM_conn_change_server L p h k c))"
  "grows c (snd (LM_conn_change_mode p m c))"
  "grows c (snd (LM_conn_set_conn_timeout p n c))"
  "grows c (snd (LM_conn_set_iocreate_callback p f c))"
  "grows c (snd (LM_conn_set_tls_clientctx p x c))"
  "grows c (snd (LM_conn_set_userdata p ud c))"
  "grows c (LM_conn_disable_ping p c)"
  "grows c (snd (LM_conn_set_idle_timeout L p n c))"
  by (rule grows_same;
      simp add: LM_conn_connect_def LM_conn_disconnect_def LM_conn_disconnect_connlocked_def
        LM_conn_change_server_def LM_conn_change_mode_def LM_conn_set_conn_timeout_def
        LM_conn_set_iocreate_callback_def LM_conn_set_tls_clientctx_def LM_conn_set_userdata_def
        LM_conn_disable_ping_def LM_conn_set_idle_timeout_def Let_def split_beta new_handle_def
        event_timer_remove_def connect_locked_frame split: option.split)+

end
