(* ===== verification/LM_Send.thy ===== *)
theory LM_Send
  imports LM_Conn_Inv
begin

text \<open>
  Putting requests on the wire: what one turn of the send loop does, that the loop ends and
  moves every ready transaction to the pending queue in order, and that the operations built on
  it (\<open>LM_trans_send\<close>, \<open>LM_trans_run\<close>, the ping) keep the invariant and the lock discipline.
\<close>

section \<open>The frame of a request\<close>

definition request_payload :: "mstd \<Rightarrow> dict option \<Rightarrow> string" where
  "request_payload L d =
     (if M_hash_dict_num_keys L d = 1 \<and>
         M_str_caseeq L (M_hash_dict_get_direct L d ''action'') (Some ''ping'')
      then ''PING'' else M_hash_dict_serialize L d)"

definition frame :: "u64 \<Rightarrow> string \<Rightarrow> string" where
  "frame k payload = STX # decimal (unat k) @ FS # payload @ [ETX]"

definition request_frame :: "mstd \<Rightarrow> LM_trans \<Rightarrow> string" where
  "request_frame L t = frame (trans_id t) (request_payload L (request_params t))"

text \<open>A transaction once its request is in the output buffer; \<open>h\<close> is its timer's handle.\<close>

definition sent_trans :: "handle \<Rightarrow> LM_trans \<Rightarrow> LM_trans" where
  "sent_trans h t =
     t\<lparr>status := LM_TRANS_STATUS_PENDING, request_params := None,
       timeout_timer := (if timeout_s t \<noteq> 0 then Some h else timeout_timer t)\<rparr>"

lemma sent_trans_sel [simp]:
  "trans_id (sent_trans h t) = trans_id t" "status (sent_trans h t) = LM_TRANS_STATUS_PENDING"
  by (simp_all add: sent_trans_def)

lemma sent_trans_wf:
  "trans_wf t \<Longrightarrow> status t = LM_TRANS_STATUS_READY \<Longrightarrow> trans_wf (sent_trans h t)"
  by (auto simp: trans_wf_def sent_trans_def)

definition sent_calls :: "ptr \<Rightarrow> LM_trans \<Rightarrow> handle \<Rightarrow> call list" where
  "sent_calls p t h =
     Mutex_unlock (Trans_lock p) #
     (if timeout_s t \<noteq> 0 then [Timer_oneshot h (timeout_s t * 1000) (Some p)] else []) @
     [Mutex_lock (Trans_lock p)]"

context buf_api
begin

lemma trans_structure_eq:
  assumes "txns c p = Some t"
  shows "LM_trans_structure L p c =
    c\<lparr>txns := (txns c)(p \<mapsto> t\<lparr>request_params := None\<rparr>), outbuf := outbuf c @ request_frame L t\<rparr>"
  using assms
  by (simp add: LM_trans_structure_def request_frame_def request_payload_def frame_def STX_def
      ETX_def FS_def Let_def)

end

context mstd_api
begin

lemma send_one_eq:
  assumes "txns c p = Some t" "p \<notin> set (trans_pending c)"
  shows "send_one L p c = c\<lparr>txns := (txns c)(p \<mapsto> sent_trans (next_handle c) t),
     trans_pending := trans_pending c @ [p], outbuf := outbuf c @ request_frame L t,
     next_handle := (if timeout_s t \<noteq> 0 then Suc (next_handle c) else next_handle c),
     calls := sent_calls p t (next_handle c) @ calls c\<rparr>"
  using assms
  by (simp add: send_one_def trans_structure_eq lock_trans_def unlock_trans_def live_def ext_def
      new_handle_def sent_trans_def sent_calls_def request_frame_def Let_def)

lemma send_one_inv:
  assumes "core_at L [Conn_lock] c" "trans_ready c = p # q" "txns c p = Some t"
  shows "core_at L [Conn_lock] (send_one L p (c\<lparr>trans_ready := q\<rparr>))"
proof -
  have t: "status t = LM_TRANS_STATUS_READY"
    using assms core_inv_queue_status(2) [of L c p] by (simp add: core_at_def status_is_Some)
  have notin: "p \<notin> set (trans_pending c)"
    using assms(1,3) t core_inv_notin(3) [of L c p] by (simp add: core_at_def)
  have wf: "trans_wf (sent_trans (next_handle c) t)"
    using assms t core_inv_wf sent_trans_wf by (auto simp: core_at_def)
  have "core_inv L (c\<lparr>txns := (txns c)(p \<mapsto> sent_trans (next_handle c) t), trans_ready := q,
                       trans_pending := trans_pending c @ [p]\<rparr>)"
    using assms wf by (intro move_ready_pending) (auto simp: core_at_def)
  then have "core_inv L (send_one L p (c\<lparr>trans_ready := q\<rparr>))"
    by (rule core_inv_transfer) (simp_all add: send_one_eq assms notin)
  then show ?thesis
    using assms by (simp add: core_at_def send_one_eq notin sent_calls_def)
qed

section \<open>The loop\<close>

text \<open>
  Everything the loop leaves alone is visible in the form of its result: only the queues of
  ready and pending transactions, the transactions, the output buffer and the log change.
\<close>

lemma send_loop_total:
  assumes "core_at L [Conn_lock] c"
  shows "\<exists>h n cs. send_loop L c = Some (c\<lparr>trans_ready := [],
      trans_pending := trans_pending c @ trans_ready c, txns := h,
      outbuf := outbuf c @ concat (map (\<lambda>p. request_frame L (trans_at c p)) (trans_ready c)),
      next_handle := n, calls := cs\<rparr>) \<and>
    core_at L [Conn_lock] (the (send_loop L c)) \<and>
    (\<forall>p. p \<notin> set (trans_ready c) \<longrightarrow> h p = txns c p)"
  using assms
proof (induction "trans_ready c" arbitrary: c)
  case Nil
  then have "send_loop L c = Some c"
    by (subst send_loop.simps) simp
  with Nil show ?case
    by (auto intro!: exI [of _ "txns c"] exI [of _ "next_handle c"] exI [of _ "calls c"])
next
  case (Cons p q)
  have rq: "trans_ready c = p # q"
    using Cons.hyps(2) by simp
  let ?c = "send_one L p (c\<lparr>trans_ready := q\<rparr>)"
  obtain t where t: "txns c p = Some t"
    using Cons.prems rq core_inv_queue_status(2) [of L c p]
    by (auto simp: core_at_def status_is_def)
  have d: "p \<notin> set q"
    using Cons.prems rq core_inv_distinct(2) [of L c] by (auto simp: core_at_def)
  have notin: "p \<notin> set (trans_pending c)"
    using Cons.prems rq t core_inv_notin(3) [of L c p t]
      core_inv_queue_status(2) [of L c p] by (auto simp: core_at_def status_is_def)
  have eq: "?c = c\<lparr>trans_ready := q, txns := (txns c)(p \<mapsto> sent_trans (next_handle c) t),
     trans_pending := trans_pending c @ [p], outbuf := outbuf c @ request_frame L t,
     next_handle := (if timeout_s t \<noteq> 0 then Suc (next_handle c) else next_handle c),
     calls := sent_calls p t (next_handle c) @ calls c\<rparr>"
    by (simp add: send_one_eq t notin)
  have "core_at L [Conn_lock] ?c"
    using send_one_inv [of c p q t] Cons.prems rq t by simp
  then obtain h n cs where IH: "send_loop L ?c = Some (?c\<lparr>trans_ready := [],
      trans_pending := trans_pending ?c @ trans_ready ?c, txns := h,
      outbuf := outbuf ?c @ concat (map (\<lambda>p. request_frame L (trans_at ?c p)) (trans_ready ?c)),
      next_handle := n, calls := cs\<rparr>)"
    and inv: "core_at L [Conn_lock] (the (send_loop L ?c))"
    and same: "\<forall>p. p \<notin> set (trans_ready ?c) \<longrightarrow> h p = txns ?c p"
    using Cons.hyps(1) [of ?c] by (auto simp: eq)
  have step: "send_loop L c = send_loop L ?c"
    using rq by (subst send_loop.simps) simp
  have frames: "map (\<lambda>r. request_frame L (trans_at ?c r)) (trans_ready ?c) =
                map (\<lambda>r. request_frame L (trans_at c r)) q"
    using d by (auto simp: eq trans_at_def)
  have IH': "send_loop L c = Some (c\<lparr>trans_ready := [],
      trans_pending := trans_pending c @ p # q, txns := h,
      outbuf := outbuf c @ request_frame L t @ concat (map (\<lambda>r. request_frame L (trans_at c r)) q),
      next_handle := n, calls := cs\<rparr>)"
    using IH unfolding step frames by (simp add: eq)
  show ?case
    using IH' inv same rq t
    by (intro exI [of _ h] exI [of _ n] exI [of _ cs]) (auto simp: step eq)
qed

text \<open>The same as an elimination rule, with the result split into its parts.\<close>

lemma send_loop_result:
  assumes "core_at L [Conn_lock] c"
  obtains c' h n cs where "send_loop L c = Some c'"
    and "c' = c\<lparr>trans_ready := [], trans_pending := trans_pending c @ trans_ready c, txns := h,
      outbuf := outbuf c @ concat (map (\<lambda>p. request_frame L (trans_at c p)) (trans_ready c)),
      next_handle := n, calls := cs\<rparr>"
    and "core_at L [Conn_lock] c'" and "grows c c'"
    and "\<And>p. p \<notin> set (trans_ready c) \<Longrightarrow> h p = txns c p"
proof -
  obtain h n cs where "send_loop L c = Some (c\<lparr>trans_ready := [],
      trans_pending := trans_pending c @ trans_ready c, txns := h,
      outbuf := outbuf c @ concat (map (\<lambda>p. request_frame L (trans_at c p)) (trans_ready c)),
      next_handle := n, calls := cs\<rparr>)" and "core_at L [Conn_lock] (the (send_loop L c))"
    and same: "\<And>p. p \<notin> set (trans_ready c) \<Longrightarrow> h p = txns c p"
    using send_loop_total [OF assms] by blast
  moreover define d where "d = c\<lparr>trans_ready := [],
      trans_pending := trans_pending c @ trans_ready c, txns := h,
      outbuf := outbuf c @ concat (map (\<lambda>p. request_frame L (trans_at c p)) (trans_ready c)),
      next_handle := n, calls := cs\<rparr>"
  ultimately have eq: "send_loop L c = Some d" and inv: "core_at L [Conn_lock] d"
    by simp_all
  have "live d p" if "live c p" for p
  proof (cases "p \<in> set (trans_ready c)")
    case True
    then have "status_is h LM_TRANS_STATUS_PENDING p"
      using inv core_inv_queue_status(3) [of L d p] by (simp add: core_at_def d_def)
    then show ?thesis by (auto simp: live_def status_is_def d_def)
  next
    case False
    with that same show ?thesis by (simp add: live_def d_def)
  qed
  moreover have "forward c d"
  proof (rule forward_pointwise)
    show "next_ptr d = next_ptr c" by (simp add: d_def)
    fix p t'
    assume t': "txns d p = Some t'"
    show "\<exists>t. txns c p = Some t \<and> trans_id t' = trans_id t \<and> status t \<le> status t'"
    proof (cases "p \<in> set (trans_ready c)")
      case False
      with t' same show ?thesis by (simp add: d_def)
    next
      case True
      have c: "core_inv L c" and cd: "core_inv L d" using assms inv by (simp_all add: core_at_def)
      obtain t where t: "txns c p = Some t" "status t = LM_TRANS_STATUS_READY"
        using core_inv_queue_status(2) [OF c True] by (auto simp: status_is_def)
      have "status t' = LM_TRANS_STATUS_PENDING"
        using core_inv_queue_status(3) [OF cd, of p] True t' by (simp add: d_def status_is_Some)
      moreover have "trans_id t' = trans_id t"
        using core_inv_map [OF cd, of "trans_id t'" p] core_inv_map [OF c, of "trans_id t'" p] t t'
        by (simp add: d_def)
      ultimately show ?thesis using t by simp
    qed
  qed
  ultimately have "grows c d" by (simp add: grows_def d_def)
  with inv same show ?thesis by (intro that [OF eq d_def]) simp_all
qed

section \<open>Sending the ready transactions\<close>

lemma send_messages_inv:
  assumes "inv_at L [Conn_lock] c"
  obtains c' where "LM_trans_send_messages L c = Some c'"
    and "inv_at L [Conn_lock] c'" and "grows c c'" and "io c \<noteq> None \<Longrightarrow> conn_status c' = conn_status c"
proof -
  consider "conn_status c = LM_CONN_STATUS_DISCONNECTED"
    | "conn_status c \<noteq> LM_CONN_STATUS_DISCONNECTED" "conn_status c \<noteq> LM_CONN_STATUS_CONNECTED"
    | "conn_status c = LM_CONN_STATUS_CONNECTED" by blast
  then show ?thesis
  proof cases
    case 1
    let ?c = "lock_conn (snd (LM_conn_connect L CONN (unlock_conn c)))"
    have "inv_at L [Conn_lock] ?c"
      by (intro inv_at_lock LM_conn_connect_inv assms)
    moreover have "grows c ?c = grows (unlock_conn c) (snd (LM_conn_connect L CONN (unlock_conn c)))"
      by (rule grows_cong) simp_all
    then have "grows c ?c" using conn_ops_grow(1) by simp
    moreover have "io c = None"
      using 1 assms by (simp add: inv_at_def lm_inv_def core_inv_def io_inv_def)
    ultimately show ?thesis
      by (intro that [of ?c]) (simp_all add: LM_trans_send_messages_def 1 split_beta)
  next
    case 2
    with assms show ?thesis
      by (intro that [of c]) (simp_all add: LM_trans_send_messages_def)
  next
    case 3
    obtain d h n cs where eq: "send_loop L c = Some d"
      and d: "d = c\<lparr>trans_ready := [], trans_pending := trans_pending c @ trans_ready c, txns := h,
        outbuf := outbuf c @ concat (map (\<lambda>p. request_frame L (trans_at c p)) (trans_ready c)),
        next_handle := n, calls := cs\<rparr>"
      and inv: "core_at L [Conn_lock] d" and gr: "grows c d"
      by (rule send_loop_result [OF inv_at_core [OF assms]])
    have "ping_inv d"
      using assms 3 by (simp add: d inv_at_def lm_inv_def ping_inv_up)
    with inv have inv': "inv_at L [Conn_lock] d"
      by (rule core_at_ping)
    have st: "conn_status d = conn_status c" by (simp add: d)
    define e where
      "e = (if M_queue_len L (trans_pending d) \<noteq> 0 then ext (Timer_stop (timer d)) d else d)"
    define f where "f = (if M_buf_len L (outbuf c) = 0 \<and> M_buf_len L (outbuf e) \<noteq> 0
                         then ext (Trigger_signal (write_trigger e)) e else e)"
    have "grows d f"
      by (rule grows_same) (simp_all add: e_def f_def)
    with gr have "grows c f" by (rule grows_trans)
    moreover have "inv_at L [Conn_lock] f" "conn_status f = conn_status c"
      using inv' st by (simp_all add: e_def f_def lm_inv_simps)
    moreover have "LM_trans_send_messages L c = Some f"
      using 3 by (simp add: LM_trans_send_messages_def eq e_def f_def Let_def)
    ultimately show ?thesis by (intro that [of f]) simp_all
  qed
qed

end

end
