(* ===== verification/LM_Trans_Inv.thy ===== *)
theory LM_Trans_Inv
  imports LM_Send
begin

text \<open>
  The operations on transactions keep the invariant, leave the locks as they found them, and
  return: in particular the search for a free id ends.
\<close>

section \<open>Drawing an id\<close>

text \<open>The ids in use; there are no more of them than transactions the program holds.\<close>

definition used_ids :: "LM_conn \<Rightarrow> u64 set" where
  "used_ids c = {trans_id t |p t. txns c p = Some t}"

lemma used_ids_finite:
  assumes "core_inv L c"
  shows "finite (used_ids c)" and "card (used_ids c) \<le> length (queues c) + length (trans_delay_rm c)"
proof -
  let ?ps = "queues c @ trans_delay_rm c"
  have sub: "used_ids c \<subseteq> (\<lambda>p. trans_id (the (txns c p))) ` set ?ps"
  proof
    fix k assume "k \<in> used_ids c"
    then obtain p t where "txns c p = Some t" "trans_id t = k" by (auto simp: used_ids_def)
    moreover have "p \<in> set ?ps"
      using assms \<open>txns c p = Some t\<close> by (auto simp: core_inv_def queue_inv_def live_def)
    ultimately show "k \<in> (\<lambda>p. trans_id (the (txns c p))) ` set ?ps" by (auto intro!: image_eqI)
  qed
  then show "finite (used_ids c)" by (rule finite_subset) simp
  have "card (used_ids c) \<le> card ((\<lambda>p. trans_id (the (txns c p))) ` set ?ps)"
    using sub by (intro card_mono) simp_all
  also have "\<dots> \<le> card (set ?ps)" by (rule card_image_le) simp
  also have "\<dots> \<le> length ?ps" by (rule card_length)
  finally show "card (used_ids c) \<le> length (queues c) + length (trans_delay_rm c)" by simp
qed

lemma card_id_range: "card {x :: u64. 1 \<le> x \<and> x < 0xFFFFFFFF} = 0xFFFFFFFE"
proof -
  have "{x :: u64. 1 \<le> x \<and> x < 0xFFFFFFFF} = of_nat ` {1 ..< 0xFFFFFFFF}"
  proof (intro set_eqI iffI)
    fix x :: u64 assume x: "x \<in> {x. 1 \<le> x \<and> x < 0xFFFFFFFF}"
    then have "unat (1 :: u64) \<le> unat x" "unat x < unat (0xFFFFFFFF :: u64)"
      by (simp_all add: word_le_nat_alt word_less_nat_alt)
    then show "x \<in> of_nat ` {1 ..< 0xFFFFFFFF}"
      by (intro image_eqI [of _ _ "unat x"]) simp_all
  next
    fix x :: u64 assume "x \<in> of_nat ` {1 ..< 0xFFFFFFFF}"
    then obtain n :: nat where "x = of_nat n" "1 \<le> n" "n < 0xFFFFFFFF" by auto
    then have "unat x = n" by (simp add: unat_of_nat)
    with \<open>1 \<le> n\<close> \<open>n < 0xFFFFFFFF\<close> show "x \<in> {x. 1 \<le> x \<and> x < 0xFFFFFFFF}"
      by (simp add: word_le_nat_alt word_less_nat_alt)
  qed
  moreover have "inj_on (of_nat :: nat \<Rightarrow> u64) {1 ..< 0xFFFFFFFF}"
  proof (rule inj_onI)
    fix a b :: nat
    assume ab: "a \<in> {1 ..< 0xFFFFFFFF}" "b \<in> {1 ..< 0xFFFFFFFF}" "(of_nat a :: u64) = of_nat b"
    then have "unat (of_nat a :: u64) = unat (of_nat b :: u64)" by simp
    with ab(1,2) show "a = b" by (simp add: unat_of_nat)
  qed
  ultimately show ?thesis by (simp add: card_image)
qed

lemma free_id:
  assumes "core_inv L c" "ids_left c"
  shows "\<exists>k \<ge> 1. k < 0xFFFFFFFF \<and> k \<notin> used_ids c"
proof (rule ccontr)
  assume "\<not> ?thesis"
  then have "{x :: u64. 1 \<le> x \<and> x < 0xFFFFFFFF} \<subseteq> used_ids c" by auto
  then have "card {x :: u64. 1 \<le> x \<and> x < 0xFFFFFFFF} \<le> card (used_ids c)"
    by (rule card_mono [OF used_ids_finite(1) [OF assms(1)]])
  then have "0xFFFFFFFE \<le> card (used_ids c)"
    by (simp only: card_id_range)
  with used_ids_finite(2) [OF assms(1)] assms(2) show False by (simp add: ids_left_def)
qed

lemma draws_log_locks: "locks_held (draws_log lo hi n cs) = locks_held cs"
  by (induction n arbitrary: cs) (auto split: option.split)

context mstd_rand_api
begin

text \<open>
  Drawing ends: with the first draw that gives an id nobody uses, and a fair generator comes to
  one.
\<close>

lemma pick_trans_id_draws:
  assumes "M_rand_range L (draws_log 1 0xFFFFFFFF n (calls c)) 1 0xFFFFFFFF = k"
    and "M_hash_u64vp_get L (trans_id_map c) k = None"
  shows "\<exists>k' m. pick_trans_id L c = Some (k', c\<lparr>calls := draws_log 1 0xFFFFFFFF (Suc m) (calls c)\<rparr>) \<and>
           M_hash_u64vp_get L (trans_id_map c) k' = None \<and> 1 \<le> k' \<and> k' < 0xFFFFFFFF"
  using assms
proof (induction n arbitrary: c)
  case 0
  then have "pick_trans_id L c = Some (k, c\<lparr>calls := draws_log 1 0xFFFFFFFF (Suc 0) (calls c)\<rparr>)"
    by (subst pick_trans_id.simps) (simp add: ext_def Let_def)
  moreover have "1 \<le> k \<and> k < 0xFFFFFFFF"
    using 0 rand_range [of 1 "0xFFFFFFFF" "calls c"] by simp
  ultimately show ?case using 0 by blast
next
  case (Suc n)
  let ?k = "M_rand_range L (calls c) 1 0xFFFFFFFF"
  let ?d = "c\<lparr>calls := Rand_range 1 0xFFFFFFFF # calls c\<rparr>"
  show ?case
  proof (cases "M_hash_u64vp_get L (trans_id_map c) ?k")
    case None
    then have "pick_trans_id L c = Some (?k, c\<lparr>calls := draws_log 1 0xFFFFFFFF (Suc 0) (calls c)\<rparr>)"
      by (subst pick_trans_id.simps) (simp add: ext_def Let_def)
    moreover have "1 \<le> ?k \<and> ?k < 0xFFFFFFFF"
      using rand_range [of 1 "0xFFFFFFFF" "calls c"] by simp
    ultimately show ?thesis using None by blast
  next
    case (Some q)
    then have step: "pick_trans_id L c = pick_trans_id L ?d"
      by (subst pick_trans_id.simps) (simp add: ext_def Let_def)
    obtain k' m where "pick_trans_id L ?d =
        Some (k', ?d\<lparr>calls := draws_log 1 0xFFFFFFFF (Suc m) (calls ?d)\<rparr>)"
      "M_hash_u64vp_get L (trans_id_map ?d) k' = None" "1 \<le> k'" "k' < 0xFFFFFFFF"
      using Suc.IH [of ?d] Suc.prems by auto
    then show ?thesis
      by (intro exI [of _ k'] exI [of _ "Suc m"]) (simp add: step)
  qed
qed

lemma pick_trans_id_total:
  assumes "core_inv L c" "ids_left c" "trans_id_map d = trans_id_map c" "calls d = calls c"
  obtains k cs where "pick_trans_id L d = Some (k, d\<lparr>calls := cs\<rparr>)"
    and "locks_held cs = locks_held (calls c)" and "delivered_rev cs = delivered_rev (calls c)"
    and "M_hash_u64vp_get L (trans_id_map c) k = None" and "k \<noteq> 0" and "k < 0xFFFFFFFF"
proof -
  have "\<exists>n. M_rand_range L (draws_log 1 0xFFFFFFFF n (calls c)) 1 0xFFFFFFFF \<notin> used_ids c"
    using free_id [OF assms(1,2)] by (intro rand_fair used_ids_finite(1) [OF assms(1)]) blast
  then obtain n where n: "M_rand_range L (draws_log 1 0xFFFFFFFF n (calls c)) 1 0xFFFFFFFF \<notin> used_ids c"
    (is "?k \<notin> _") ..
  have "M_hash_u64vp_get L (trans_id_map c) ?k = None"
  proof (rule ccontr)
    assume "\<not> ?thesis"
    then obtain p where "M_hash_u64vp_get L (trans_id_map c) ?k = Some p" by blast
    with n core_inv_map [OF assms(1), of ?k p] show False by (auto simp: used_ids_def)
  qed
  then obtain k' m where
    "pick_trans_id L d = Some (k', d\<lparr>calls := draws_log 1 0xFFFFFFFF (Suc m) (calls c)\<rparr>)"
    "M_hash_u64vp_get L (trans_id_map c) k' = None" "1 \<le> k'" "k' < 0xFFFFFFFF"
    using pick_trans_id_draws [of n d, OF refl] by (auto simp: assms(3,4))
  moreover have "delivered_rev (draws_log lo hi j cs) = delivered_rev cs" for lo hi j cs
    by (induction j arbitrary: cs) auto
  moreover have "k' \<noteq> 0" using \<open>1 \<le> k'\<close> by auto
  ultimately show ?thesis
    by (intro that [of k' "draws_log 1 0xFFFFFFFF (Suc m) (calls c)"])
      (simp_all only: draws_log_locks simp_thms)
qed

end

section \<open>Allocation\<close>

definition new_trans :: "u64 \<Rightarrow> LM_trans" where
  "new_trans k = zero_trans\<lparr>trans_id := k\<rparr>"

lemma new_trans_sel [simp]:
  "trans_id (new_trans k) = k" "status (new_trans k) = LM_TRANS_STATUS_NEW"
  by (simp_all add: new_trans_def zero_trans_def)

lemma new_trans_wf: "k \<noteq> 0 \<Longrightarrow> k < 0xFFFFFFFF \<Longrightarrow> trans_wf (new_trans k)"
  by (simp add: trans_wf_def new_trans_def zero_trans_def)

context mstd_rand_api
begin

lemma new_internal_total:
  assumes "core_inv L c" "ids_left c"
  obtains k cs where "LM_trans_new_internal L c =
      Some (next_ptr c, c\<lparr>next_ptr := Suc (next_ptr c),
                          txns := (txns c)(next_ptr c \<mapsto> new_trans k), calls := cs\<rparr>)"
    and "locks_held cs = locks_held (calls c)" and "delivered_rev cs = delivered_rev (calls c)"
    and "M_hash_u64vp_get L (trans_id_map c) k = None" and "k \<noteq> 0" and "k < 0xFFFFFFFF"
proof -
  let ?d = "c\<lparr>next_ptr := Suc (next_ptr c), txns := (txns c)(next_ptr c \<mapsto> zero_trans)\<rparr>"
  have d: "trans_id_map ?d = trans_id_map c" "calls ?d = calls c" by simp_all
  obtain k cs where pick: "pick_trans_id L ?d = Some (k, ?d\<lparr>calls := cs\<rparr>)"
    and rest: "locks_held cs = locks_held (calls c)" "delivered_rev cs = delivered_rev (calls c)"
      "M_hash_u64vp_get L (trans_id_map c) k = None" "k \<noteq> 0" "k < 0xFFFFFFFF"
    by (rule pick_trans_id_total [OF assms d])
  have "LM_trans_new_internal L c =
      Some (next_ptr c, c\<lparr>next_ptr := Suc (next_ptr c),
                          txns := (txns c)(next_ptr c \<mapsto> new_trans k), calls := cs\<rparr>)"
    using pick by (simp add: LM_trans_new_internal_def Let_def new_trans_def zero_trans_def)
  then show ?thesis using rest by (rule that)
qed

text \<open>\<open>LM_trans_new\<close> returns a fresh transaction, new, under an id nobody else has.\<close>

lemma trans_new_total:
  assumes "inv_at L [] c" "ids_left c"
  obtains k cs where "LM_trans_new L CONN c =
      Some (Some (next_ptr c),
            c\<lparr>next_ptr := Suc (next_ptr c), txns := (txns c)(next_ptr c \<mapsto> new_trans k),
              trans_new := trans_new c @ [next_ptr c],
              trans_id_map := M_hash_u64vp_insert L (trans_id_map c) k (next_ptr c),
              calls := cs\<rparr>)"
    and "locks_held cs = Some []" and "delivered_rev cs = delivered_rev (calls c)"
    and "M_hash_u64vp_get L (trans_id_map c) k = None" and "k \<noteq> 0" and "k < 0xFFFFFFFF"
proof -
  have c: "core_inv L c" "\<not> conn_freed c" "locks_held (calls c) = Some []"
    using assms inv_at_not_freed by (auto simp: inv_at_def lm_inv_def)
  let ?d = "lock_conn c"
  have d: "core_inv L ?d" "ids_left ?d"
    using inv_at_lock(1) [OF assms(1)] assms(2)
    by (simp_all add: inv_at_def lm_inv_def ids_left_def queues_def)
  obtain k cs where new: "LM_trans_new_internal L ?d =
      Some (next_ptr ?d, ?d\<lparr>next_ptr := Suc (next_ptr ?d),
                          txns := (txns ?d)(next_ptr ?d \<mapsto> new_trans k), calls := cs\<rparr>)"
    and rest: "locks_held cs = locks_held (calls ?d)" "delivered_rev cs = delivered_rev (calls ?d)"
      "M_hash_u64vp_get L (trans_id_map ?d) k = None" "k \<noteq> 0" "k < 0xFFFFFFFF"
    by (rule new_internal_total [OF d])
  have notin: "next_ptr c \<notin> set (trans_new c)"
    using c(1) core_inv_queue_status(1) [OF c(1), of "next_ptr c"] core_inv_below [OF c(1)]
    by (fastforce simp: status_is_def)
  have "LM_trans_new L CONN c = Some (Some (next_ptr c),
      c\<lparr>next_ptr := Suc (next_ptr c), txns := (txns c)(next_ptr c \<mapsto> new_trans k),
        trans_new := trans_new c @ [next_ptr c],
        trans_id_map := M_hash_u64vp_insert L (trans_id_map c) k (next_ptr c),
        calls := Mutex_unlock Conn_lock # cs\<rparr>)"
    using new c(2) notin by (simp add: LM_trans_new_def lock_conn_frame ext_def)
  then show ?thesis
    by (rule that) (use rest c in \<open>simp_all add: lock_conn_frame\<close>)
qed

lemma trans_new_inv:
  assumes "inv_at L [] c" "ids_left c" "LM_trans_new L CONN c = Some (r, c')"
  shows "inv_at L [] c'" and "grows c c'"
proof -
  obtain k cs where eq: "LM_trans_new L CONN c =
      Some (Some (next_ptr c),
            c\<lparr>next_ptr := Suc (next_ptr c), txns := (txns c)(next_ptr c \<mapsto> new_trans k),
              trans_new := trans_new c @ [next_ptr c],
              trans_id_map := M_hash_u64vp_insert L (trans_id_map c) k (next_ptr c),
              calls := cs\<rparr>)"
    and k: "locks_held cs = Some []" "M_hash_u64vp_get L (trans_id_map c) k = None" "k \<noteq> 0"
      "k < 0xFFFFFFFF"
    by (rule trans_new_total [OF assms(1,2)])
  have c': "c' = c\<lparr>next_ptr := Suc (next_ptr c), txns := (txns c)(next_ptr c \<mapsto> new_trans k),
              trans_new := trans_new c @ [next_ptr c],
              trans_id_map := M_hash_u64vp_insert L (trans_id_map c) k (next_ptr c),
              calls := cs\<rparr>"
    using assms(3) eq by simp
  have c: "core_inv L c" "ping_inv c" using assms(1) by (simp_all add: inv_at_def lm_inv_def)
  have "core_inv L c'"
    using move_alloc(1) [OF c(1), of "new_trans k", OF _ new_trans_wf refl] k
    by (simp add: c' lm_inv_simps)
  moreover have "ping_inv c'"
    using c(2) by (subst ping_inv_cong [of _ c]) (simp_all add: c')
  ultimately show "inv_at L [] c'" using k by (simp add: inv_at_def lm_inv_def c')
  show "grows c c'" by (rule grows_new) (simp_all add: c')
qed

end

section \<open>Accessing one transaction\<close>

lemma lock_trans_live:
  "live c p \<Longrightarrow> lock_trans p c = ext (Mutex_lock (Trans_lock p)) c"
  "live c p \<Longrightarrow> unlock_trans p c = ext (Mutex_unlock (Trans_lock p)) c"
  by (simp_all add: lock_trans_def unlock_trans_def)

lemma live_ext [simp]: "live (ext x c) p = live c p"
  by (simp add: live_def)

lemma inv_at_update:
  assumes "inv_at L hs c" "txns c p = Some t"
    and "trans_id t' = trans_id t" "status t' = status t" "trans_wf t'"
  shows "inv_at L hs (c\<lparr>txns := (txns c)(p \<mapsto> t')\<rparr>)"
  using assms move_update [of L c p t t'] by (simp add: inv_at_def lm_inv_def lm_inv_simps)

lemma inv_at_wf: "inv_at L hs c \<Longrightarrow> txns c p = Some t \<Longrightarrow> trans_wf t"
  by (auto simp: inv_at_def lm_inv_def intro: core_inv_wf)

lemma inv_at_trans_lock:
  assumes "live c p"
  shows "inv_at L [] c \<Longrightarrow> inv_at L [Trans_lock p] (lock_trans p c)"
    and "inv_at L [Trans_lock p] c \<Longrightarrow> inv_at L [] (unlock_trans p c)"
    and "inv_at L [Conn_lock] c \<Longrightarrow> inv_at L [Trans_lock p, Conn_lock] (lock_trans p c)"
    and "inv_at L [Trans_lock p, Conn_lock] c \<Longrightarrow> inv_at L [Conn_lock] (unlock_trans p c)"
  using assms by (simp_all add: lock_trans_live inv_at_def lm_inv_def lm_inv_simps)

text \<open>An operation that locks a transaction, rewrites it within its status, and unlocks it.\<close>

lemma locked_same:
  assumes "inv_at L [] c" "txns c p = Some t"
  shows "inv_at L [] (unlock_trans p (lock_trans p c))"
    and "grows c (unlock_trans p (lock_trans p c))"
proof -
  have live: "live c p" using assms(2) by (simp add: live_def)
  show "inv_at L [] (unlock_trans p (lock_trans p c))"
    using assms(1) live by (intro inv_at_trans_lock) (simp_all add: live_def)
  show "grows c (unlock_trans p (lock_trans p c))"
    by (rule grows_same) simp_all
qed

lemma locked_update:
  assumes "inv_at L [] c" "txns c p = Some t"
    and "trans_id t' = trans_id t" "status t' = status t" "trans_wf t'"
  shows "inv_at L [] (unlock_trans p ((lock_trans p c)\<lparr>txns := (txns c)(p \<mapsto> t')\<rparr>))"
    and "grows c (unlock_trans p ((lock_trans p c)\<lparr>txns := (txns c)(p \<mapsto> t')\<rparr>))"
proof -
  have live: "live c p" using assms(2) by (simp add: live_def)
  have l: "inv_at L [Trans_lock p] (lock_trans p c)"
    using live assms(1) by (rule inv_at_trans_lock)
  have "inv_at L [Trans_lock p] ((lock_trans p c)\<lparr>txns := (txns (lock_trans p c))(p \<mapsto> t')\<rparr>)"
    by (rule inv_at_update [OF l]) (use assms in simp_all)
  then show "inv_at L [] (unlock_trans p ((lock_trans p c)\<lparr>txns := (txns c)(p \<mapsto> t')\<rparr>))"
    by (intro inv_at_trans_lock(2)) (simp_all add: live_def)
  show "grows c (unlock_trans p ((lock_trans p c)\<lparr>txns := (txns c)(p \<mapsto> t')\<rparr>))"
    by (rule grows_upd [OF _ _ _ assms(2,3)]) (simp_all add: assms(4))
qed

lemma wf_new_params:
  "trans_wf t \<Longrightarrow> status t = LM_TRANS_STATUS_NEW \<Longrightarrow> trans_wf (t\<lparr>request_params := d\<rparr>)"
  by (auto simp: trans_wf_def)

lemma wf_other_fields [simp]:
  "trans_wf (t\<lparr>timeout_s := n\<rparr>) = trans_wf t"
  "trans_wf (t\<lparr>timeout_timer := h\<rparr>) = trans_wf t"
  "trans_wf (t\<lparr>user_data := ud\<rparr>) = trans_wf t"
  by (simp_all add: trans_wf_def)

lemma wf_csv:
  "trans_wf t \<Longrightarrow> response_type t = LM_TRANS_RESPONSE_CSV \<Longrightarrow>
   trans_wf (t\<lparr>response_csv := x, response_raw := None\<rparr>)"
  by (simp add: trans_wf_def)

lemma trans_set_param_inv:
  assumes "inv_at L [] c" "\<And>p. tp = Some p \<Longrightarrow> live c p"
  shows "inv_at L [] (snd (LM_trans_set_param L tp k v c)) \<and>
         grows c (snd (LM_trans_set_param L tp k v c))"
proof (cases tp)
  case (Some p)
  with assms obtain t where t: "txns c p = Some t" by (auto simp: live_def)
  then show ?thesis
    using assms(1) locked_same [OF assms(1) t] locked_update [OF assms(1) t] wf_new_params [OF inv_at_wf [OF assms(1) t]] Some
    by (auto simp: LM_trans_set_param_def Let_def)
qed (use assms in \<open>simp add: LM_trans_set_param_def\<close>)

lemma trans_set_param_binary_inv:
  assumes "inv_at L [] c" "\<And>p. tp = Some p \<Longrightarrow> live c p"
  shows "inv_at L [] (snd (LM_trans_set_param_binary L tp k v c)) \<and>
         grows c (snd (LM_trans_set_param_binary L tp k v c))"
  using trans_set_param_inv [OF assms] assms(1)
  by (auto simp: LM_trans_set_param_binary_def Let_def)

lemma trans_set_timeout_inv:
  assumes "inv_at L [] c" "\<And>p. tp = Some p \<Longrightarrow> live c p"
  shows "inv_at L [] (snd (LM_trans_set_timeout tp n c)) \<and>
         grows c (snd (LM_trans_set_timeout tp n c))"
proof (cases tp)
  case (Some p)
  with assms obtain t where t: "txns c p = Some t" by (auto simp: live_def)
  then show ?thesis
    using assms(1) locked_same [OF assms(1) t] locked_update [OF assms(1) t] inv_at_wf [OF assms(1) t] Some
    by (auto simp: LM_trans_set_timeout_def Let_def)
qed (use assms in \<open>simp add: LM_trans_set_timeout_def\<close>)

lemma trans_set_userdata_inv:
  assumes "inv_at L [] c" "\<And>p. tp = Some p \<Longrightarrow> live c p"
  shows "inv_at L [] (snd (LM_trans_set_userdata tp ud c)) \<and>
         grows c (snd (LM_trans_set_userdata tp ud c))"
proof (cases tp)
  case (Some p)
  with assms obtain t where t: "txns c p = Some t" by (auto simp: live_def)
  then show ?thesis
    using inv_at_update [OF assms(1) t] inv_at_wf [OF assms(1) t] Some
    by (auto simp: LM_trans_set_userdata_def intro!: grows_upd [where p = p and t = t and t' = "t\<lparr>user_data := ud\<rparr>"])
qed (use assms in \<open>simp add: LM_trans_set_userdata_def\<close>)

lemma trans_response_csv_inv:
  assumes "inv_at L [] c" "\<And>p. tp = Some p \<Longrightarrow> live c p"
  shows "inv_at L [] (snd (LM_trans_response_csv L tp c)) \<and>
         grows c (snd (LM_trans_response_csv L tp c))"
proof (cases tp)
  case (Some p)
  with assms obtain t where t: "txns c p = Some t" by (auto simp: live_def)
  then show ?thesis
    using assms(1) locked_same [OF assms(1) t] locked_update [OF assms(1) t] wf_csv [OF inv_at_wf [OF assms(1) t]] Some
    by (auto simp: LM_trans_response_csv_def Let_def split: option.split)
qed (use assms in \<open>simp add: LM_trans_response_csv_def\<close>)

section \<open>Deletion\<close>

text \<open>
  A transaction that is freed: out of its queue, out of the table, its mutex and its memory
  gone. The state \<open>d\<close> is the one without it in the list of delayed deletions.
\<close>

definition delete_calls :: "mstd \<Rightarrow> ptr \<Rightarrow> LM_conn \<Rightarrow> call list" where
  "delete_calls L p c =
     [Trans_free p, Mutex_destroy (Trans_lock p)] @
     (if conn_status c = LM_CONN_STATUS_CONNECTED \<and> remove1 p (trans_pending c) = []
      then [Timer_reset (timer c) (idle_timeout c * 1000)] else [])"

context mstd_api
begin

lemma delete_unlocked_eq:
  assumes "core_inv L c" "txns c p = Some t"
    and "d = c\<lparr>trans_delay_rm := remove1 p (trans_delay_rm c)\<rparr>"
  shows "LM_trans_delete_unlocked L (Some p) d = d\<lparr>
    trans_new := remove1 p (trans_new d), trans_ready := remove1 p (trans_ready d),
    trans_pending := remove1 p (trans_pending d), trans_done := remove1 p (trans_done d),
    trans_id_map := M_hash_u64vp_remove L (trans_id_map d) (trans_id t),
    txns := (txns d)(p := None), calls := delete_calls L p d @ calls d\<rparr>"
proof -
  have t: "status t \<noteq> LM_TRANS_STATUS_ALL"
    using core_inv_wf [OF assms(1,2)] by (simp add: trans_wf_def)
  have q: "distinct (trans_new c)" "distinct (trans_ready c)" "distinct (trans_pending c)"
    "distinct (trans_done c)"
    using core_inv_distinct [OF assms(1)] by simp_all
  note notin = core_inv_notin [OF assms(1,2)]
  show ?thesis
    using t q notin assms(2)
    by (cases "status t")
      (simp_all add: LM_trans_delete_unlocked_def LM_trans_get_conn_queue_def LM_trans_free_def
        live_def ext_def delete_calls_def assms(3) Let_def)
qed

lemma delete_unlocked_core:
  assumes "core_inv L c" "live c p"
    and "d = c\<lparr>trans_delay_rm := remove1 p (trans_delay_rm c)\<rparr>"
  shows "core_inv L (LM_trans_delete_unlocked L (Some p) d)"
proof -
  obtain t where t: "txns c p = Some t" using assms(2) by (rule liveE)
  show ?thesis
    by (rule core_inv_transfer [OF move_free [OF assms(1) t]])
      (simp_all only: delete_unlocked_eq [OF assms(1) t assms(3)], simp_all add: assms(3))
qed

lemma delete_unlocked_at:
  assumes "inv_at L hs c" "live c p" "Trans_lock p \<notin> set hs"
    and "pingtxn c = Some p \<Longrightarrow> p \<notin> set (trans_pending c)"
    and "d = c\<lparr>trans_delay_rm := remove1 p (trans_delay_rm c)\<rparr>"
  shows "inv_at L hs (LM_trans_delete_unlocked L (Some p) d)"
proof -
  have c: "core_inv L c" "ping_inv c" "locks_held (calls c) = Some hs"
    using assms(1) by (simp_all add: inv_at_def lm_inv_def)
  obtain t where t: "txns c p = Some t" using assms(2) by (rule liveE)
  let ?e = "LM_trans_delete_unlocked L (Some p) d"
  note eq = delete_unlocked_eq [OF c(1) t assms(5)]
  have "core_inv L ?e" using c(1) assms(2,5) by (rule delete_unlocked_core)
  moreover have "locks_held (calls ?e) = Some hs"
    using c(3) assms(3) unfolding eq by (simp add: delete_calls_def assms(5))
  moreover have "ping_inv ?e"
  proof (cases "conn_status c")
    case LM_CONN_STATUS_CONNECTING
    then show ?thesis
      using c(2) assms(4) unfolding eq
      by (cases "timer c") (auto simp: ping_inv_def assms(5) dest: notin_set_remove1)
  qed (use c(2) in \<open>simp_all only: eq, simp_all add: ping_inv_def assms(5)\<close>)
  ultimately show ?thesis by (simp add: inv_at_def lm_inv_def)
qed

lemma trans_delete_inv:
  assumes "inv_at L [] c" "\<And>p. tp = Some p \<Longrightarrow> live c p \<and> p \<notin> set (trans_delay_rm c) \<and>
      (pingtxn c = Some p \<longrightarrow> p \<notin> set (trans_pending c))"
  shows "inv_at L [] (LM_trans_delete L tp c) \<and> grows c (LM_trans_delete L tp c)"
proof (cases tp)
  case (Some p)
  with assms(2) have p: "live c p" "p \<notin> set (trans_delay_rm c)"
    "pingtxn c = Some p \<longrightarrow> p \<notin> set (trans_pending c)" by auto
  then obtain t where t: "txns c p = Some t" by (auto simp: live_def)
  define d where "d = (lock_conn c)\<lparr>txns := (txns c)(p \<mapsto> t\<lparr>user_data := None\<rparr>)\<rparr>"
  have d: "inv_at L [Conn_lock] d"
    using inv_at_update [OF inv_at_lock(1) [OF assms(1)], of p t "t\<lparr>user_data := None\<rparr>"] t
      inv_at_wf [OF assms(1) t] by (simp add: d_def)
  define e where "e = (case timeout_timer t of None \<Rightarrow> d | Some h \<Rightarrow>
    (ext (Timer_remove (Some h)) d)\<lparr>txns := (txns d)(p \<mapsto> t\<lparr>user_data := None, timeout_timer := None\<rparr>)\<rparr>)"
  have e: "inv_at L [Conn_lock] e"
    using d inv_at_update [of L "[Conn_lock]" "ext (Timer_remove (timeout_timer t)) d" p "t\<lparr>user_data := None\<rparr>"
        "t\<lparr>user_data := None, timeout_timer := None\<rparr>"] inv_at_wf [OF assms(1) t]
    by (auto simp: e_def d_def lm_inv_simps split: option.split)
  have frame: "live e p" "trans_delay_rm e = trans_delay_rm c" "in_use e = in_use c"
    "pingtxn e = pingtxn c" "trans_pending e = trans_pending c" "\<And>q. live e q = live c q"
    using p by (auto simp: e_def d_def live_def split: option.split)
  obtain t2 where e_txns: "txns e = (txns c)(p \<mapsto> t2)" "trans_id t2 = trans_id t" "status t2 = status t"
    and e_next: "next_ptr e = next_ptr c"
    by (cases "timeout_timer t") (simp_all add: e_def d_def)
  have del: "LM_trans_delete L tp c =
    (if in_use e then unlock_conn (e\<lparr>trans_delay_rm := trans_delay_rm e @ [p]\<rparr>)
     else unlock_conn (LM_trans_delete_unlocked L (Some p) e))"
    using t Some
    by (simp add: LM_trans_delete_def live_def e_def d_def Let_def trans_at_def upd_trans_def
        split: option.split)
  show ?thesis
  proof (cases "in_use c")
    case True
    let ?f = "e\<lparr>trans_delay_rm := trans_delay_rm e @ [p]\<rparr>"
    have "core_at L [Conn_lock] ?f"
      using move_delay [of L e p] e p True frame
      by (simp add: inv_at_def lm_inv_def core_at_def)
    moreover have "ping_inv ?f"
    proof (cases "conn_status e")
      case LM_CONN_STATUS_CONNECTING
      then show ?thesis
        using e p(3) frame by (cases "timer e") (auto simp: inv_at_def lm_inv_def ping_inv_def)
    qed (use e in \<open>simp_all add: inv_at_def lm_inv_def ping_inv_def\<close>)
    ultimately have "inv_at L [Conn_lock] ?f" by (rule core_at_ping)
    then have "inv_at L [] (unlock_conn ?f)" by (rule inv_at_lock)
    moreover have "grows c (unlock_conn ?f)"
      by (rule grows_upd [OF _ _ _ t e_txns(2)]) (use frame e_txns e_next in simp_all)
    ultimately show ?thesis using del frame True by simp
  next
    case False
    have "trans_delay_rm e = []"
      using e frame False by (simp add: inv_at_def lm_inv_def core_inv_def delay_inv_def)
    then have same: "e = e\<lparr>trans_delay_rm := remove1 p (trans_delay_rm e)\<rparr>" by simp
    have inv: "inv_at L [Conn_lock] (LM_trans_delete_unlocked L (Some p) e)"
      using p(3) frame by (intro delete_unlocked_at [OF e _ _ _ same]) simp_all
    obtain u where u: "txns e p = Some u" using frame(1) by (rule liveE)
    have core: "core_inv L e" using e by (simp add: inv_at_def lm_inv_def)
    have "grows c (unlock_conn (LM_trans_delete_unlocked L (Some p) e))"
      unfolding delete_unlocked_eq [OF core u same]
      by (rule grows_del) (use False frame e_txns e_next in simp_all)
    with inv_at_lock(2) [OF inv] del frame False show ?thesis by simp
  qed
qed (use assms in \<open>simp add: LM_trans_delete_def\<close>)

end

end
