(* ===== verification/LM_Run_Inv.thy ===== *)
theory LM_Run_Inv
  imports LM_Trans_Inv
begin

text \<open>
  Sending a transaction, running one from a dictionary, and every call a client can make: they
  keep the invariant and leave the locks as they found them.
\<close>

section \<open>Sending\<close>

text \<open>The connection, locked, when the transaction has been put in the ready queue.\<close>

definition readied :: "ptr \<Rightarrow> LM_trans \<Rightarrow> LM_conn \<Rightarrow> LM_conn" where
  "readied p t c =
     unlock_trans p ((lock_trans p (lock_conn c))\<lparr>
       txns := (txns c)(p \<mapsto> t\<lparr>status := LM_TRANS_STATUS_READY\<rparr>),
       trans_new := remove1 p (trans_new c), trans_ready := trans_ready c @ [p]\<rparr>)"

context mstd_api
begin

lemma readied_inv:
  assumes "inv_at L [] c" "txns c p = Some t" "status t = LM_TRANS_STATUS_NEW"
  shows "inv_at L [Conn_lock] (readied p t c)"
proof -
  have "live c p" "live (lock_conn c) p" using assms(2) by (simp_all add: live_def)
  let ?d = "lock_trans p (lock_conn c)"
  let ?t = "t\<lparr>status := LM_TRANS_STATUS_READY\<rparr>"
  let ?e = "?d\<lparr>txns := (txns c)(p \<mapsto> ?t), trans_new := remove1 p (trans_new c),
      trans_ready := trans_ready c @ [p]\<rparr>"
  have d: "inv_at L [Trans_lock p, Conn_lock] ?d"
    by (intro inv_at_trans_lock(3) inv_at_lock(1) assms(1) \<open>live (lock_conn c) p\<close>)
  then have core: "core_inv L ?d" by (simp add: inv_at_def lm_inv_def)
  have wf: "trans_wf ?t"
    using inv_at_wf [OF assms(1,2)] assms(3) by (auto simp: trans_wf_def)
  have "core_inv L (?d\<lparr>txns := (txns ?d)(p \<mapsto> ?t), trans_new := remove1 p (trans_new ?d),
      trans_ready := trans_ready ?d @ [p]\<rparr>)"
    by (rule move_new_ready [OF core _ _ _ _ wf]) (use assms in simp_all)
  moreover have "ping_inv ?e"
    using d by (subst ping_inv_cong [of _ ?d]) (simp_all add: inv_at_def lm_inv_def)
  ultimately have "inv_at L [Trans_lock p, Conn_lock] ?e"
    using d by (simp add: inv_at_def lm_inv_def)
  moreover have "live ?e p" by (simp add: live_def)
  ultimately show ?thesis unfolding readied_def by (intro inv_at_trans_lock(4))
qed

lemma trans_send_eq:
  assumes "inv_at L [] c" "txns c p = Some t"
  shows "LM_trans_send L (Some p) c =
    (if status t \<noteq> LM_TRANS_STATUS_NEW \<or> M_hash_dict_num_keys L (request_params t) = 0
     then Some (False, unlock_conn (unlock_trans p (lock_trans p (lock_conn c))))
     else map_option (\<lambda>d. (True, unlock_conn d)) (LM_trans_send_messages L (readied p t c)))"
proof -
  have core: "core_inv L c" using assms(1) by (simp add: inv_at_def lm_inv_def)
  have "distinct (trans_new c)" using core_inv_distinct(1) [OF core] .
  moreover have "p \<notin> set (trans_ready c)" if "status t = LM_TRANS_STATUS_NEW"
    using core_inv_notin(2) [OF core assms(2)] that by simp
  ultimately show ?thesis
    using assms(2)
    by (cases "LM_trans_send_messages L (readied p t c)")
      (simp_all add: LM_trans_send_def live_def readied_def Let_def)
qed

lemma trans_send_inv:
  assumes "inv_at L [] c" "\<And>p. tp = Some p \<Longrightarrow> live c p"
  obtains ok c' where "LM_trans_send L tp c = Some (ok, c')"
    and "inv_at L [] c'" and "grows c c'"
proof (cases tp)
  case None
  with assms(1) show ?thesis by (intro that [of False c]) (simp_all add: LM_trans_send_def)
next
  case (Some p)
  with assms obtain t where t: "txns c p = Some t" by (auto simp: live_def)
  let ?e = "unlock_trans p (lock_trans p (lock_conn c))"
  show ?thesis
  proof (cases "status t \<noteq> LM_TRANS_STATUS_NEW \<or> M_hash_dict_num_keys L (request_params t) = 0")
    case True
    have live: "live (lock_conn c) p" "live (lock_trans p (lock_conn c)) p"
      using t by (simp_all add: live_def)
    have "inv_at L [] (unlock_conn ?e)"
      by (intro inv_at_lock(2) inv_at_trans_lock(4) [OF live(2)] inv_at_trans_lock(3) [OF live(1)]
          inv_at_lock(1) assms(1))
    moreover have "grows c (unlock_conn ?e)" by (rule grows_same) simp_all
    ultimately show ?thesis
      using True Some by (intro that [of False "unlock_conn ?e"]) (simp_all add: trans_send_eq [OF assms(1) t])
  next
    case False
    obtain c' where c': "LM_trans_send_messages L (readied p t c) = Some c'"
      and inv: "inv_at L [Conn_lock] c'" and gr: "grows (readied p t c) c'"
      by (rule send_messages_inv [OF readied_inv [OF assms(1) t]]) (use False in blast)+
    have "grows c (readied p t c)" by
      (rule grows_upd [where p = p and t = t and t' = "t\<lparr>status := LM_TRANS_STATUS_READY\<rparr>"])
        (use False t in \<open>simp_all add: readied_def\<close>)
    also note gr
    also have "grows c' (unlock_conn c')" by (rule grows_same) simp_all
    finally show ?thesis
      using False Some c' inv_at_lock(2) [OF inv]
      by (intro that [of True "unlock_conn c'"]) (simp_all add: trans_send_eq [OF assms(1) t])
  qed
qed

end

lemma in_use_live: "grows c c' \<Longrightarrow> in_use c \<Longrightarrow> live c p \<Longrightarrow> live c' p"
  by (simp add: grows_def)

lemma wf_run_params:
  "trans_wf t \<Longrightarrow> status t = LM_TRANS_STATUS_NEW \<Longrightarrow> trans_wf (t\<lparr>request_params := Some d\<rparr>)"
  by (rule wf_new_params)

context mstd_rand_api
begin

lemma trans_run_inv:
  assumes "inv_at L [] c" "ids_left c"
  obtains r c' where "LM_trans_run L CONN d c = Some (r, c')"
    and "inv_at L [] c'" and "grows c c'"
proof (cases "d = None \<or> M_hash_dict_num_keys L d = 0")
  case True
  with assms(1) show ?thesis
    by (intro that [of None c]) (auto simp: LM_trans_run_def split: option.split)
next
  case False
  then obtain ps where d: "d = Some ps" "M_hash_dict_num_keys L (Some ps) \<noteq> 0" by auto
  obtain k cs where "LM_trans_new L CONN c =
      Some (Some (next_ptr c),
            c\<lparr>next_ptr := Suc (next_ptr c), txns := (txns c)(next_ptr c \<mapsto> new_trans k),
              trans_new := trans_new c @ [next_ptr c],
              trans_id_map := M_hash_u64vp_insert L (trans_id_map c) k (next_ptr c),
              calls := cs\<rparr>)"
    by (rule trans_new_total [OF assms])
  then obtain e p where new: "LM_trans_new L CONN c = Some (Some p, e)"
    and p: "p = next_ptr c" "txns e p = Some (new_trans k)" by fastforce
  have e: "inv_at L [] e" "grows c e" using trans_new_inv [OF assms new] by simp_all
  let ?t = "(new_trans k)\<lparr>request_params := Some (M_hash_dict_duplicate L ps)\<rparr>"
  let ?f = "unlock_trans p ((lock_trans p e)\<lparr>txns := (txns e)(p \<mapsto> ?t)\<rparr>)"
  have wf: "trans_wf ?t"
    using inv_at_wf [OF e(1) p(2)] by (rule wf_run_params) simp
  have f: "inv_at L [] ?f" "grows e ?f"
    using locked_update [OF e(1) p(2) _ _ wf] by simp_all
  have live: "\<And>q. Some p = Some q \<Longrightarrow> live ?f q" by (simp add: live_def)
  obtain ok g where send: "LM_trans_send L (Some p) ?f = Some (ok, g)"
    and g: "inv_at L [] g" "grows ?f g"
    by (rule trans_send_inv [OF f(1) live])
  have ok: "ok"
  proof -
    have "trans_at ?f p = ?t" "live ?f p" by (simp_all add: trans_at_def live_def)
    then show ?thesis
      using send d(2) by (auto simp: LM_trans_send_def Let_def trans_at_def live_def
          split: option.splits if_splits bind_splits)
  qed
  have "LM_trans_run L CONN d c = Some (Some p, g)"
    using new send ok d p(2) by (simp add: LM_trans_run_def)
  moreover have "grows c g" using e(2) f(2) g(2) grows_trans by blast
  ultimately show ?thesis using g(1) by (intro that)
qed

end

section \<open>Destruction of the connection\<close>

definition freed_at :: "lock_id list \<Rightarrow> LM_conn \<Rightarrow> bool" where
  "freed_at hs c \<longleftrightarrow>
     conn_freed c \<and> \<not> fault c \<and> (\<forall>p. txns c p = None) \<and> locks_held (calls c) = Some hs"

lemma free_all:
  assumes "distinct ps" "\<forall>p \<in> set ps. live c p" "locks_held (calls c) = Some []"
  shows "\<exists>cs. fold LM_conn_trans_destructor ps c =
           c\<lparr>txns := (\<lambda>p. if p \<in> set ps then None else txns c p), calls := cs\<rparr> \<and>
         locks_held cs = Some []"
  using assms
proof (induction ps arbitrary: c)
  case Nil
  then show ?case by (intro exI [of _ "calls c"]) simp
next
  case (Cons p ps)
  let ?d = "LM_conn_trans_destructor p c"
  have d: "?d = c\<lparr>txns := (txns c)(p := None),
                  calls := Trans_free p # Mutex_destroy (Trans_lock p) # calls c\<rparr>"
    using Cons.prems(2) by (simp add: LM_conn_trans_destructor_def LM_trans_free_def ext_def Let_def)
  have "\<forall>q \<in> set ps. live ?d q" "locks_held (calls ?d) = Some []"
    using Cons.prems by (auto simp: d live_def)
  then obtain cs where "fold LM_conn_trans_destructor ps ?d =
      ?d\<lparr>txns := (\<lambda>p. if p \<in> set ps then None else txns ?d p), calls := cs\<rparr>"
    "locks_held cs = Some []"
    using Cons.IH [of ?d] Cons.prems(1) by auto
  moreover have "(\<lambda>q. if q \<in> set ps then None else txns ?d q) =
      (\<lambda>q. if q \<in> set (p # ps) then None else txns c q)"
    by (auto simp: d)
  ultimately show ?case by (intro exI [of _ cs]) (simp add: d)
qed

lemma tlsctx_frame [simp]:
  "tlsctx (ext x c) = tlsctx c" "tlsctx (lock_conn c) = tlsctx c" "tlsctx (unlock_conn c) = tlsctx c"
  by (simp_all add: ext_def lock_conn_def unlock_conn_def touch_def)

lemma destructor_frame [simp]:
  "trans_new (fold LM_conn_trans_destructor ps c) = trans_new c"
  "trans_ready (fold LM_conn_trans_destructor ps c) = trans_ready c"
  "trans_pending (fold LM_conn_trans_destructor ps c) = trans_pending c"
  "trans_done (fold LM_conn_trans_destructor ps c) = trans_done c"
  "trans_delay_rm (fold LM_conn_trans_destructor ps c) = trans_delay_rm c"
  by (induction ps arbitrary: c)
    (simp_all add: LM_conn_trans_destructor_def LM_trans_free_def Let_def)

context mstd_api
begin

lemma conn_destroy_busy:
  assumes "inv_at L [] c" "in_use c"
  shows "inv_at L [] (LM_conn_destroy L CONN c)" "grows c (LM_conn_destroy L CONN c)"
    "destroy (LM_conn_destroy L CONN c)"
proof -
  have eq: "LM_conn_destroy L CONN c = unlock_conn ((lock_conn c)\<lparr>destroy := True\<rparr>)"
    using assms(2) by (simp add: LM_conn_destroy_def Let_def)
  have "inv_at L [Conn_lock] ((lock_conn c)\<lparr>destroy := True\<rparr>)"
    using inv_at_lock(1) [OF assms(1)] by (simp add: lm_inv_simps)
  then show "inv_at L [] (LM_conn_destroy L CONN c)" unfolding eq by (rule inv_at_lock)
  show "grows c (LM_conn_destroy L CONN c)" unfolding eq by (rule grows_same) simp_all
  show "destroy (LM_conn_destroy L CONN c)" by (simp add: eq)
qed

lemma conn_destroy_idle:
  assumes "inv_at L [] c" "\<not> in_use c"
  shows "freed_at [] (LM_conn_destroy L CONN c)" "\<not> in_use (LM_conn_destroy L CONN c)"
    "grows c (LM_conn_destroy L CONN c)"
proof -
  have c: "core_inv L c" "\<not> conn_freed c" "locks_held (calls c) = Some []" "\<not> fault c"
    using assms inv_at_not_freed core_inv_no_fault by (auto simp: inv_at_def lm_inv_def)
  have delay: "trans_delay_rm c = []"
    using c(1) assms(2) by (simp add: core_inv_def delay_inv_def)
  define d where "d = ext (Mutex_destroy Conn_lock)
    (case tlsctx c of None \<Rightarrow> ext (Io_destroy (io c)) (ext (Trigger_remove (write_trigger c))
       (ext (Timer_remove (timer c)) (unlock_conn (lock_conn c))))
     | Some h \<Rightarrow> ext (Tls_destroy h) (ext (Io_destroy (io c)) (ext (Trigger_remove (write_trigger c))
       (ext (Timer_remove (timer c)) (unlock_conn (lock_conn c))))))"
  have frame: "txns d = txns c" "trans_new d = trans_new c" "trans_ready d = trans_ready c"
    "trans_pending d = trans_pending c" "trans_done d = trans_done c" "trans_delay_rm d = []"
    "fault d = fault c" "locks_held (calls d) = Some []"
    using c delay by (auto simp: d_def lock_conn_frame split: option.split)
  let ?ps = "trans_new d @ trans_ready d @ trans_pending d @ trans_done d"
  have eq: "LM_conn_destroy L CONN c =
      (ext Conn_free (fold LM_conn_trans_destructor ?ps d))\<lparr>conn_freed := True\<rparr>"
  proof (cases "tlsctx c")
    case None
    then show ?thesis
      using assms(2) frame(6)
      by (simp add: LM_conn_destroy_def destroy_queue_def Let_def d_def)
  next
    case (Some h)
    then show ?thesis
      using assms(2) frame(6)
      by (simp add: LM_conn_destroy_def destroy_queue_def Let_def d_def)
  qed
  have ps: "distinct ?ps"
    using c(1) queue_inv_distinct [of c] by (simp add: core_inv_def queues_def frame)
  have "\<forall>p \<in> set ?ps. live d p"
    using c(1) frame by (auto simp: core_inv_def queue_inv_def status_is_def live_def)
  then obtain cs where fold: "fold LM_conn_trans_destructor ?ps d =
      d\<lparr>txns := (\<lambda>p. if p \<in> set ?ps then None else txns d p), calls := cs\<rparr>"
    and cs: "locks_held cs = Some []"
    using free_all [OF ps _ frame(8)] by blast
  have "txns d p = None" if "p \<notin> set ?ps" for p
  proof (rule ccontr)
    assume "txns d p \<noteq> None"
    with c(1) frame delay have "p \<in> set ?ps"
      by (auto simp: core_inv_def queue_inv_def queues_def live_def)
    with that show False by contradiction
  qed
  then have gone: "txns (LM_conn_destroy L CONN c) p = None" for p
    unfolding eq fold by simp
  moreover have "conn_freed (LM_conn_destroy L CONN c)" "\<not> fault (LM_conn_destroy L CONN c)"
    "locks_held (calls (LM_conn_destroy L CONN c)) = Some []"
    unfolding eq fold using cs frame(7) c(4) by simp_all
  ultimately show "freed_at [] (LM_conn_destroy L CONN c)" by (simp add: freed_at_def)
  have use: "in_use d = in_use c" and nxt: "next_ptr d = next_ptr c"
    by (simp_all add: d_def split: option.split)
  with assms(2) show "\<not> in_use (LM_conn_destroy L CONN c)" unfolding eq fold by simp
  have "in_use (LM_conn_destroy L CONN c) = in_use c" "next_ptr (LM_conn_destroy L CONN c) = next_ptr c"
    unfolding eq fold using use nxt by simp_all
  with gone assms(2) show "grows c (LM_conn_destroy L CONN c)"
    by (intro grows_del) simp_all
qed

end

section \<open>Any call of the client\<close>

text \<open>
  Outside an event the connection may be gone afterwards; while an event is handled it is not.
\<close>

definition client_inv :: "mstd \<Rightarrow> LM_conn \<Rightarrow> bool" where
  "client_inv L c \<longleftrightarrow> inv_at L [] c \<or> freed_at [] c \<and> \<not> in_use c"

lemma usable_live: "usable c tp \<Longrightarrow> tp = Some p \<Longrightarrow> live c p"
  by (simp add: usable_def)

lemma usable_delete:
  "usable c tp \<Longrightarrow> tp = Some p \<Longrightarrow> live c p \<and> p \<notin> set (trans_delay_rm c) \<and>
     (pingtxn c = Some p \<longrightarrow> p \<notin> set (trans_pending c))"
  by (simp add: usable_def)

context mstd_rand_api
begin

lemma run_call_inv:
  assumes "inv_at L [] c" "may_call c a"
  shows "\<exists>c'. run_call L a c = Some c' \<and> client_inv L c' \<and> grows c c' \<and> (in_use c \<longrightarrow> inv_at L [] c')"
proof -
  have ok: "call_ok c a" using assms(2) by (simp add: may_call_def)
  have step: "\<exists>c'. Some d = Some c' \<and> client_inv L c' \<and> grows c c' \<and> (in_use c \<longrightarrow> inv_at L [] c')"
    if "inv_at L [] d" "grows c d" for d
    using that by (simp add: client_inv_def)
  show ?thesis
  proof (cases a)
    case Conn_destroy
    show ?thesis
    proof (cases "in_use c")
      case True
      with conn_destroy_busy [OF assms(1)] Conn_destroy show ?thesis
        by (simp add: client_inv_def)
    next
      case False
      with conn_destroy_idle [OF assms(1) False] Conn_destroy False show ?thesis
        by (simp add: client_inv_def)
    qed
  next
    case Trans_new
    then have "ids_left c" using ok by simp
    obtain k cs where "LM_trans_new L CONN c = Some (Some (next_ptr c),
            c\<lparr>next_ptr := Suc (next_ptr c), txns := (txns c)(next_ptr c \<mapsto> new_trans k),
              trans_new := trans_new c @ [next_ptr c],
              trans_id_map := M_hash_u64vp_insert L (trans_id_map c) k (next_ptr c),
              calls := cs\<rparr>)"
      by (rule trans_new_total [OF assms(1) \<open>ids_left c\<close>])
    then obtain p d where d: "LM_trans_new L CONN c = Some (p, d)" by blast
    with trans_new_inv [OF assms(1) \<open>ids_left c\<close> d] Trans_new show ?thesis
      by (simp add: client_inv_def)
  next
    case (Trans_run x)
    then have "ids_left c" using ok by simp
    then obtain r d where "LM_trans_run L CONN x c = Some (r, d)" "inv_at L [] d" "grows c d"
      by (rule trans_run_inv [OF assms(1)])
    with Trans_run show ?thesis by (simp add: client_inv_def)
  next
    case (Trans_send tp)
    with ok have "usable c tp" by simp
    then obtain r d where "LM_trans_send L tp c = Some (r, d)" "inv_at L [] d" "grows c d"
      by (rule trans_send_inv [OF assms(1) usable_live])
    with Trans_send show ?thesis by (simp add: client_inv_def)
  next
    case (Trans_delete tp)
    with ok have "usable c tp" by simp
    from trans_delete_inv [OF assms(1) usable_delete [OF this]] Trans_delete show ?thesis
      by (simp add: client_inv_def)
  next
    case (Trans_set_param tp k v)
    with ok have "usable c tp" by simp
    from trans_set_param_inv [OF assms(1) usable_live [OF this]] Trans_set_param show ?thesis
      by (simp add: client_inv_def)
  next
    case (Trans_set_param_binary tp k v)
    with ok have "usable c tp" by simp
    from trans_set_param_binary_inv [OF assms(1) usable_live [OF this]] Trans_set_param_binary
    show ?thesis by (simp add: client_inv_def)
  next
    case (Trans_set_timeout tp n)
    with ok have "usable c tp" by simp
    from trans_set_timeout_inv [OF assms(1) usable_live [OF this]] Trans_set_timeout show ?thesis
      by (simp add: client_inv_def)
  next
    case (Trans_set_userdata tp ud)
    with ok have "usable c tp" by simp
    from trans_set_userdata_inv [OF assms(1) usable_live [OF this]] Trans_set_userdata
    show ?thesis by (simp add: client_inv_def)
  next
    case (Trans_response_csv tp)
    with ok have "usable c tp" by simp
    from trans_response_csv_inv [OF assms(1) usable_live [OF this]] Trans_response_csv
    show ?thesis by (simp add: client_inv_def)
  next
    case Conn_disable_ping
    with ok have "pingtxn c = None" by simp
    with LM_conn_disable_ping_inv [OF assms(1)] conn_ops_grow(9) Conn_disable_ping show ?thesis
      by (simp add: client_inv_def)
  qed (simp_all add: client_inv_def conn_ops_grow LM_conn_connect_inv [OF assms(1)]
      LM_conn_disconnect_inv [OF assms(1)] LM_conn_settings_inv [OF assms(1)]
      LM_conn_set_idle_timeout_inv [OF assms(1)])
qed

text \<open>
  The client's calls as a program of guarded steps: within an event, when the connection is
  claimed, and between events.
\<close>

sublocale busy_client: guarded_steps "run_call L" may_call "\<lambda>c. inv_at L [] c \<and> in_use c" grows
proof
  fix c a assume "inv_at L [] c \<and> in_use c" "may_call c a"
  then show "\<exists>c'. run_call L a c = Some c' \<and> (inv_at L [] c' \<and> in_use c') \<and> grows c c'"
    using run_call_inv [of c a] by (auto simp: grows_def)
qed (auto intro: grows_trans)

sublocale idle_client: guarded_steps "run_call L" may_call "\<lambda>c. client_inv L c \<and> \<not> in_use c" grows
proof
  fix c a assume *: "client_inv L c \<and> \<not> in_use c" "may_call c a"
  then have "inv_at L [] c" by (auto simp: client_inv_def may_call_def freed_at_def)
  with * show "\<exists>c'. run_call L a c = Some c' \<and> (client_inv L c' \<and> \<not> in_use c') \<and> grows c c'"
    using run_call_inv [of c a] by (auto simp: grows_def)
qed (auto intro: grows_trans)

end

end
