(* ===== verification/LM_Parse_Inv.thy ===== *)
theory LM_Parse_Inv
  imports LM_Run_Inv
begin

text \<open>
  Reading responses: what one call of \<open>LM_conn_parse_trans_buffer\<close> does on each kind of input
  buffer, that it returns, and that it completes pending transactions only.
\<close>

section \<open>The type of a response\<close>

lemma response_type_known: "LM_conn_determine_response_type L msg \<noteq> LM_TRANS_RESPONSE_UNKNOWN"
proof -
  have "response_type_scan L bs \<noteq> LM_TRANS_RESPONSE_UNKNOWN" for bs
    by (induction bs) auto
  then show ?thesis by (simp add: LM_conn_determine_response_type_def Let_def)
qed

lemma complete_trans_sel [simp]:
  "trans_id (complete_trans L data t) = trans_id t"
  "status (complete_trans L data t) = LM_TRANS_STATUS_DONE"
  "timeout_timer (complete_trans L data t) = timeout_timer t"
  "response_type (complete_trans L data t) = LM_conn_determine_response_type L data"
  by (simp_all add: complete_trans_def Let_def)

lemma complete_trans_wf:
  assumes "trans_wf t" "status t = LM_TRANS_STATUS_PENDING"
  shows "trans_wf (complete_trans L data t)"
proof -
  have "response_type t = LM_TRANS_RESPONSE_UNKNOWN" "request_params t = None"
    "response_params t = None" "response_raw t = None" "response_csv t = None"
    using assms by (auto simp: trans_wf_def)
  with assms(1) response_type_known [of L data] show ?thesis
    by (cases "LM_conn_determine_response_type L data")
      (simp_all add: trans_wf_def complete_trans_def Let_def)
qed

section \<open>One message\<close>

text \<open>The connection after the response \<open>data\<close> of the pending transaction \<open>p\<close>.\<close>

definition completed :: "mstd \<Rightarrow> ptr \<Rightarrow> string \<Rightarrow> LM_conn \<Rightarrow> LM_conn" where
  "completed L p data c =
     c\<lparr>txns := (txns c)(p \<mapsto> complete_trans L data (trans_at c p)),
       trans_pending := remove1 p (trans_pending c), trans_done := trans_done c @ [p],
       calls := Mutex_unlock (Trans_lock p) # Mutex_lock (Trans_lock p) # calls c\<rparr>"

lemma completed_core:
  assumes "core_at L [Conn_lock] c" "p \<in> set (trans_pending c)"
  shows "core_at L [Conn_lock] (completed L p data c)"
proof -
  have c: "core_inv L c" using assms(1) by (simp add: core_at_def)
  obtain t where t: "txns c p = Some t" "status t = LM_TRANS_STATUS_PENDING"
    using core_inv_queue_status(3) [OF c assms(2)] by (auto simp: status_is_def)
  have wf: "trans_wf (complete_trans L data t)"
    using core_inv_wf [OF c t(1)] t(2) by (rule complete_trans_wf)
  have "core_inv L (completed L p data c)"
    by (rule core_inv_transfer [OF move_pending_done [OF c assms(2) t(1) _ _ wf]])
      (simp_all add: completed_def t)
  then show ?thesis using assms(1) by (simp add: core_at_def completed_def)
qed

lemma completed_grows:
  assumes "txns c p = Some t"
  shows "grows c (completed L p data c)"
  by (rule grows_upd [where p = p and t = t and t' = "complete_trans L data t"])
    (use assms in \<open>simp_all add: completed_def trans_at_def complete_trans_def Let_def\<close>)

text \<open>
  While an event is handled, what waits to be freed is the answered ping: it is not pending.
\<close>

definition delay_done :: "LM_conn \<Rightarrow> bool" where
  "delay_done c \<longleftrightarrow>
     (\<forall>p \<in> set (trans_delay_rm c). status_is (txns c) LM_TRANS_STATUS_DONE p)"

context mstd_api
begin

text \<open>Either nothing changes, or a pending transaction is completed.\<close>

lemma parse_msg_cases:
  assumes "core_inv L c" "delay_done c"
  obtains (other) err tp where
      "LM_conn_parse_msg L p_out msg c = (err, tp, c)" "err \<noteq> LM_CONN_PARSE_ERROR_SUCCESS"
  | (success) p k data where
      "LM_conn_parse_msg L p_out msg c =
         (LM_CONN_PARSE_ERROR_SUCCESS, Some p, completed L p data c)"
      "M_hash_u64vp_get L (trans_id_map c) k = Some p" "p \<in> set (trans_pending c)"
proof (cases "M_parser_read_uint L \<lparr>p_mark = None, p_rest = msg\<rparr>")
  case None
  then show ?thesis by (intro other [of LM_CONN_PARSE_ERROR_ERROR p_out]) (simp_all add: LM_conn_parse_msg_def)
next
  case (Some r)
  obtain k ps where r: "r = (k, ps)" by (cases r)
  show ?thesis
  proof (cases "\<exists>qs. M_parser_read_byte L ps = Some (CHR 0x1C, qs)")
    case False
    then show ?thesis
      using Some r
      by (intro other [of LM_CONN_PARSE_ERROR_ERROR p_out])
        (auto simp: LM_conn_parse_msg_def split: option.split)
  next
    case True
    then obtain qs where qs: "M_parser_read_byte L ps = Some (CHR 0x1C, qs)" ..
    show ?thesis
    proof (cases "M_hash_u64vp_get L (trans_id_map c) k")
      case None
      then show ?thesis
        using Some r qs
        by (intro other [of LM_CONN_PARSE_ERROR_WAIT None]) (simp_all add: LM_conn_parse_msg_def)
    next
      case p: (Some p)
      then obtain t where t: "txns c p = Some t"
        using core_inv_map [OF assms(1)] by blast
      show ?thesis
      proof (cases "status t = LM_TRANS_STATUS_PENDING")
        case False
        then show ?thesis
          using Some r qs p t
          by (intro other [of LM_CONN_PARSE_ERROR_WAIT "Some p"])
            (simp_all add: LM_conn_parse_msg_def live_def Let_def)
      next
        case True
        have "p \<notin> set (trans_delay_rm c)"
          using assms(2) t True by (auto simp: delay_done_def status_is_Some)
        moreover have "live c p" using t by (simp add: live_def)
        ultimately have pend: "p \<in> set (trans_pending c)"
          using assms(1) core_inv_notin [OF assms(1) t] True
          by (auto simp: core_inv_def queue_inv_def queues_def)
        have "p \<notin> set (trans_done c)"
          using core_inv_notin(4) [OF assms(1) t] True by simp
        then have "LM_conn_parse_msg L p_out msg c =
            (LM_CONN_PARSE_ERROR_SUCCESS, Some p, completed L p (p_rest qs) c)"
          using Some r qs p t True core_inv_distinct(3) [OF assms(1)]
          by (simp add: LM_conn_parse_msg_def completed_def lock_trans_def unlock_trans_def
              live_def ext_def Let_def)
        then show ?thesis using p pend by (rule success)
      qed
    qed
  qed
qed

section \<open>The input buffer\<close>

text \<open>The cases of one turn of the loop, by what is in the buffer.\<close>

lemma buffer_short:
  "length (p_rest (inbuf c)) < 5 \<Longrightarrow>
     LM_conn_parse_trans_buffer L tp c = Some (LM_CONN_PARSE_ERROR_WAIT, tp, c)"
  by (subst LM_conn_parse_trans_buffer.simps) simp

lemma buffer_not_stx:
  assumes "p_rest (inbuf c) = b # bs" "4 \<le> length bs" "b \<noteq> STX"
  shows "LM_conn_parse_trans_buffer L tp c = Some (LM_CONN_PARSE_ERROR_ERROR, tp, c)"
  using assms by (subst LM_conn_parse_trans_buffer.simps) (simp add: STX_def)

lemma buffer_partial:
  assumes "p_rest (inbuf c) = STX # bs" "4 \<le> length bs" "ETX \<notin> set bs"
  shows "LM_conn_parse_trans_buffer L tp c =
    Some (LM_CONN_PARSE_ERROR_WAIT, tp, c\<lparr>inbuf := \<lparr>p_mark = None, p_rest = STX # bs\<rparr>\<rparr>)"
proof -
  have "CHR 0x03 \<notin> set (STX # bs)"
    using assms(3) by (simp add: STX_def ETX_def)
  with assms(1,2) show ?thesis
    by (subst LM_conn_parse_trans_buffer.simps) (simp add: STX_def Let_def)
qed

lemma buffer_frame:
  assumes "p_rest (inbuf c) = STX # bs @ ETX # rest" "ETX \<notin> set bs" "3 \<le> length bs + length rest"
  shows "LM_conn_parse_trans_buffer L tp c =
    (let d = c\<lparr>inbuf := \<lparr>p_mark = Some (STX # bs @ [ETX]), p_rest = rest\<rparr>\<rparr> in
     if length bs < 3 then Some (LM_CONN_PARSE_ERROR_ERROR, tp, d)
     else
       let (err, tp, d) = LM_conn_parse_msg L tp bs d;
           d = d\<lparr>inbuf := M_parser_mark_clear L (inbuf d)\<rparr>
       in if err = LM_CONN_PARSE_ERROR_WAIT then LM_conn_parse_trans_buffer L tp d
          else Some (err, tp, d))"
proof -
  let ?p = "(inbuf c)\<lparr>p_mark := Some []\<rparr>"
  have "M_parser_consume_until L ?p ETX =
      (Suc (length (STX # bs)), \<lparr>p_mark = Some ([] @ (STX # bs) @ [ETX]), p_rest = rest\<rparr>)"
    by (rule parser_consume_some) (use assms(1,2) in \<open>simp_all add: STX_def ETX_def\<close>)
  then show ?thesis
    using assms(1,3)
    by (subst LM_conn_parse_trans_buffer.simps) (simp add: STX_def ETX_def Let_def)
qed

text \<open>Every buffer is one of those.\<close>

lemma buffer_cases [case_names short not_stx partial frame]:
  fixes s :: string
  obtains "length s < 5"
  | b bs where "s = b # bs" "4 \<le> length bs" "b \<noteq> STX"
  | bs where "s = STX # bs" "4 \<le> length bs" "ETX \<notin> set bs"
  | bs rest where "s = STX # bs @ ETX # rest" "ETX \<notin> set bs" "3 \<le> length bs + length rest"
proof (cases "length s < 5")
  case False
  then obtain b bs where s: "s = b # bs" "4 \<le> length bs" by (cases s) auto
  show ?thesis
  proof (cases "b = STX \<and> ETX \<in> set bs")
    case True
    then obtain pre post where "bs = pre @ ETX # post" "ETX \<notin> set pre"
      using takeWhile_dropWhile_split by metis
    with s True show ?thesis by (intro that(4) [of pre post]) auto
  next
    case False
    with s show ?thesis using that(2,3) by auto
  qed
qed (rule that(1))

text \<open>
  The loop returns: every turn that goes on has consumed a whole message. It stops with
  nothing but the input buffer changed, or with one pending transaction completed.
\<close>

lemma completed_inbuf: "completed L p data (c\<lparr>inbuf := x\<rparr>) = (completed L p data c)\<lparr>inbuf := x\<rparr>"
  by (simp add: completed_def trans_at_def)

lemma parse_buffer_total:
  assumes "core_inv L c" "delay_done c"
  shows "(\<exists>err tp' ib. LM_conn_parse_trans_buffer L tp c = Some (err, tp', c\<lparr>inbuf := ib\<rparr>) \<and>
            err \<noteq> LM_CONN_PARSE_ERROR_SUCCESS) \<or>
         (\<exists>p data ib. LM_conn_parse_trans_buffer L tp c =
              Some (LM_CONN_PARSE_ERROR_SUCCESS, Some p, (completed L p data c)\<lparr>inbuf := ib\<rparr>) \<and>
            p \<in> set (trans_pending c) \<and> length (p_rest ib) < length (p_rest (inbuf c)))"
    (is "?none tp c \<or> ?done tp c")
  using assms
proof (induction "length (p_rest (inbuf c))" arbitrary: c tp rule: less_induct)
  case less
  show ?case
  proof (cases "p_rest (inbuf c)" rule: buffer_cases)
    case short
    then have "LM_conn_parse_trans_buffer L tp c =
        Some (LM_CONN_PARSE_ERROR_WAIT, tp, c\<lparr>inbuf := inbuf c\<rparr>)"
      by (simp add: buffer_short)
    then show ?thesis by blast
  next
    case (not_stx b bs)
    then have "LM_conn_parse_trans_buffer L tp c =
        Some (LM_CONN_PARSE_ERROR_ERROR, tp, c\<lparr>inbuf := inbuf c\<rparr>)"
      by (simp add: buffer_not_stx)
    then show ?thesis by blast
  next
    case (partial bs)
    from buffer_partial [OF this] show ?thesis by blast
  next
    case (frame bs rest)
    define d where "d = c\<lparr>inbuf := \<lparr>p_mark = Some (STX # bs @ [ETX]), p_rest = rest\<rparr>\<rparr>"
    note turn = buffer_frame [OF frame, of tp, folded d_def, unfolded Let_def]
    have d: "core_inv L d" "delay_done d" "length (p_rest (inbuf d)) < length (p_rest (inbuf c))"
      using less.prems frame(1) by (simp_all add: d_def lm_inv_simps delay_done_def)
    show ?thesis
    proof (cases "length bs < 3")
      case True
      then have "LM_conn_parse_trans_buffer L tp c =
          Some (LM_CONN_PARSE_ERROR_ERROR, tp, c\<lparr>inbuf := inbuf d\<rparr>)"
        unfolding turn by (simp add: d_def)
      then show ?thesis by blast
    next
      case False
      from d(1,2) show ?thesis
      proof (cases rule: parse_msg_cases [of d tp bs])
        case (success p k data)
        have "LM_conn_parse_trans_buffer L tp c =
            Some (LM_CONN_PARSE_ERROR_SUCCESS, Some p,
                  (completed L p data c)\<lparr>inbuf := (inbuf d)\<lparr>p_mark := None\<rparr>\<rparr>)"
          unfolding turn using False success(1) by (simp add: d_def completed_inbuf)
        moreover have "p \<in> set (trans_pending c)" using success(3) by (simp add: d_def)
        moreover have "length (p_rest ((inbuf d)\<lparr>p_mark := None\<rparr>)) < length (p_rest (inbuf c))"
          using d(3) by simp
        ultimately show ?thesis by blast
      next
        case (other err tp')
        let ?e = "d\<lparr>inbuf := (inbuf d)\<lparr>p_mark := None\<rparr>\<rparr>"
        show ?thesis
        proof (cases "err = LM_CONN_PARSE_ERROR_WAIT")
          case False
          then have "LM_conn_parse_trans_buffer L tp c =
              Some (err, tp', c\<lparr>inbuf := (inbuf d)\<lparr>p_mark := None\<rparr>\<rparr>)"
            unfolding turn using \<open>\<not> length bs < 3\<close> other(1) by (simp add: d_def)
          with other(2) show ?thesis by blast
        next
          case True
          then have step: "LM_conn_parse_trans_buffer L tp c = LM_conn_parse_trans_buffer L tp' ?e"
            unfolding turn using \<open>\<not> length bs < 3\<close> other(1) by simp
          have "?none tp' ?e \<or> ?done tp' ?e"
            by (rule less.hyps) (use d in \<open>simp_all add: lm_inv_simps delay_done_def\<close>)
          moreover have "?none tp' ?e \<Longrightarrow> ?none tp c"
            unfolding step by (auto simp: d_def)
          moreover have "?done tp c" if "?done tp' ?e"
          proof -
            from that obtain p data ib where "LM_conn_parse_trans_buffer L tp' ?e =
                Some (LM_CONN_PARSE_ERROR_SUCCESS, Some p, (completed L p data ?e)\<lparr>inbuf := ib\<rparr>)"
              "p \<in> set (trans_pending ?e)" "length (p_rest ib) < length (p_rest (inbuf ?e))" by blast
            then show ?thesis
              unfolding step using d(3)
              by (intro exI [of _ p] exI [of _ data] exI [of _ ib])
                (simp add: completed_inbuf d_def)
          qed
          ultimately show ?thesis by blast
        qed
      qed
    qed
  qed
qed

end

end
