(* ===== verification/LM_Event_Inv.thy ===== *)
theory LM_Event_Inv
  imports LM_Parse_Inv
begin

text \<open>
  Every case of the event handler keeps the invariant while the connection is claimed, and
  returns; the loops over the pending transactions and over the received messages end.
\<close>

definition busy_at :: "mstd \<Rightarrow> LM_conn \<Rightarrow> bool" where
  "busy_at L c \<longleftrightarrow> inv_at L [Conn_lock] c \<and> in_use c"

text \<open>The transactions the collected events name are allocated.\<close>

definition events_live :: "LM_conn \<Rightarrow> events \<Rightarrow> bool" where
  "events_live c es \<longleftrightarrow> (\<forall>e \<in> set es. \<forall>p. ev_trans e = Some p \<longrightarrow> live c p)"

lemma events_live_Nil [simp]: "events_live c []"
  by (simp add: events_live_def)

lemma events_live_grows: "events_live c es \<Longrightarrow> grows c c' \<Longrightarrow> in_use c \<Longrightarrow> events_live c' es"
  by (auto simp: events_live_def grows_def)

lemma events_live_append [simp]:
  "events_live c (es @ [Entry ty tp]) \<longleftrightarrow> events_live c es \<and> (\<forall>p. tp = Some p \<longrightarrow> live c p)"
  by (auto simp: events_live_def)

text \<open>
  The transactions the events say are over, or not sent: in the midst of the handler each is
  done and told once; when the events go to the client, each may be used, and deleted.
\<close>

fun overs :: "events \<Rightarrow> ptr list" where
  "overs [] = []"
| "overs (Entry ty tp # es) =
     (case tp of
        Some p \<Rightarrow> if ty \<in> {LM_EVENT_TRANS_DONE, LM_EVENT_TRANS_ERROR, LM_EVENT_TRANS_NOCONNECT}
                  then p # overs es else overs es
      | None \<Rightarrow> overs es)"

lemma overs_append [simp]: "overs (es @ fs) = overs es @ overs fs"
  by (induction es rule: overs.induct) (simp_all split: option.split)

lemma overs_told [simp]:
  "ty \<in> {LM_EVENT_TRANS_DONE, LM_EVENT_TRANS_ERROR, LM_EVENT_TRANS_NOCONNECT} \<Longrightarrow>
   overs (map (\<lambda>p. Entry ty (Some p)) ps) = ps"
  by (induction ps) simp_all

definition told_done :: "LM_conn \<Rightarrow> events \<Rightarrow> bool" where
  "told_done c es \<longleftrightarrow> distinct (overs es) \<and>
     (\<forall>p \<in> set (overs es). status_is (txns c) LM_TRANS_STATUS_DONE p \<and> p \<notin> set (trans_delay_rm c))"

definition told_once :: "LM_conn \<Rightarrow> events \<Rightarrow> bool" where
  "told_once c es \<longleftrightarrow> distinct (overs es) \<and> (\<forall>p \<in> set (overs es). usable c (Some p))"

lemma told_Nil [simp]: "told_done c []" "told_once c []"
  by (simp_all add: told_done_def told_once_def)

lemma told_done_once: "core_inv L c \<Longrightarrow> told_done c es \<Longrightarrow> told_once c es"
  using core_inv_queue_status(3) [of L c]
  by (fastforce simp: told_done_def told_once_def usable_def status_is_def live_def)

section \<open>The ping is cleaned up\<close>

text \<open>What \<open>LM_trans_delete\<close> does to the fields of a transaction it does not free yet.\<close>

definition deleted_trans :: "LM_trans \<Rightarrow> LM_trans" where
  "deleted_trans t = t\<lparr>user_data := None, timeout_timer := None\<rparr>"

lemma deleted_trans_sel [simp]:
  "trans_id (deleted_trans t) = trans_id t" "status (deleted_trans t) = status t"
  "timeout_timer (deleted_trans t) = None" "trans_wf (deleted_trans t) = trans_wf t"
  by (simp_all add: deleted_trans_def)

lemma move_pending_delay:
  assumes "core_inv L c" "txns c p = Some t" "p \<notin> set (trans_delay_rm c)" "in_use c"
  shows "core_inv L (c\<lparr>trans_pending := remove1 p (trans_pending c),
    trans_delay_rm := trans_delay_rm c @ [p], txns := (txns c)(p \<mapsto> deleted_trans t)\<rparr>)"
    (is "core_inv L ?c")
proof -
  have c: "queue_inv c" "delay_inv c" "map_inv L c" "heap_inv c" "io_inv c" "\<not> fault c"
    "\<not> conn_freed c"
    using assms(1) by (simp_all add: core_inv_def)
  have "queue_inv ?c"
    using c(1) assms(2) by (auto simp: queue_inv_def queues_def live_def distinct_remove1_set
        status_is_Some)
  moreover have "delay_inv ?c"
    using c(2) assms by (auto simp: delay_inv_def live_def)
  moreover have "map_inv L ?c"
    by (rule map_inv_upd [OF c(3) assms(2)]) simp_all
  moreover have "heap_inv ?c"
    by (rule heap_inv_upd [OF c(4) assms(2)]) (use core_inv_wf [OF assms(1,2)] in simp_all)
  ultimately show ?thesis using c by (simp add: core_inv_def io_inv_def)
qed

context mstd_api
begin

lemma delete_busy_eq:
  assumes "txns c p = Some t" "in_use c" "\<not> conn_freed c"
  obtains cs where "LM_trans_delete L (Some p) c =
      c\<lparr>trans_delay_rm := trans_delay_rm c @ [p], txns := (txns c)(p \<mapsto> deleted_trans t),
        calls := Mutex_unlock Conn_lock # cs @ Mutex_lock Conn_lock # calls c\<rparr>"
    and "cs = [] \<or> (\<exists>h. cs = [Timer_remove (Some h)])"
proof (cases "timeout_timer t")
  case None
  have "t\<lparr>user_data := None\<rparr> = deleted_trans t"
    using None by (cases t) (simp add: deleted_trans_def)
  then have "LM_trans_delete L (Some p) c =
      c\<lparr>trans_delay_rm := trans_delay_rm c @ [p], txns := (txns c)(p \<mapsto> deleted_trans t),
        calls := Mutex_unlock Conn_lock # [] @ Mutex_lock Conn_lock # calls c\<rparr>"
    using assms None
    by (simp add: LM_trans_delete_def live_def lock_conn_def unlock_conn_def touch_def ext_def
        Let_def)
  then show ?thesis by (rule that) simp
next
  case (Some h)
  have "LM_trans_delete L (Some p) c =
      c\<lparr>trans_delay_rm := trans_delay_rm c @ [p], txns := (txns c)(p \<mapsto> deleted_trans t),
        calls := Mutex_unlock Conn_lock # [Timer_remove (Some h)] @ Mutex_lock Conn_lock # calls c\<rparr>"
    using assms Some
    by (simp add: LM_trans_delete_def live_def lock_conn_def unlock_conn_def touch_def ext_def
        deleted_trans_def Let_def)
  then show ?thesis by (rule that) simp
qed

text \<open>
  Afterwards there is no timer and no ping; the ping, if there was one, is out of the pending
  queue and waits to be freed.
\<close>

lemma cleanup_ping_result:
  assumes "core_at L [Conn_lock] c" "in_use c"
    and "\<And>p. pingtxn c = Some p \<Longrightarrow> live c p \<and> p \<notin> set (trans_delay_rm c)"
  obtains d h ps cs where "LM_conn_cleanup_ping L c = d"
    and "d = c\<lparr>timer := None, pingtxn := None, txns := h, trans_delay_rm := trans_delay_rm c @ ps,
               trans_pending := filter (\<lambda>p. p \<notin> set ps) (trans_pending c), calls := cs\<rparr>"
    and "ps = (case pingtxn c of None \<Rightarrow> [] | Some p \<Rightarrow> [p])"
    and "core_at L [Conn_lock] d" and "grows c d" and "delivered_rev cs = delivered_rev (calls c)"
    and "status_is h = status_is (txns c)"
proof (cases "pingtxn c")
  case None
  let ?d = "LM_conn_cleanup_ping L c"
  have freed: "\<not> conn_freed c" using assms(1) by (rule core_at_not_freed)
  have eq: "?d = c\<lparr>timer := None, pingtxn := None, txns := txns c,
      trans_delay_rm := trans_delay_rm c @ [], trans_pending := filter (\<lambda>p. p \<notin> set []) (trans_pending c),
      calls := Mutex_lock Conn_lock # Mutex_unlock Conn_lock # Timer_remove (timer c) # calls c\<rparr>"
    using None freed
    by (simp add: LM_conn_cleanup_ping_def event_timer_remove_def lock_conn_def unlock_conn_def
        touch_def ext_def LM_trans_delete_def Let_def)
  show ?thesis
    by (rule that [OF refl eq]) (use assms(1) None in
        \<open>simp_all add: eq core_at_def lm_inv_simps grows_same\<close>)
next
  case (Some p)
  have freed: "\<not> conn_freed c" using assms(1) by (rule core_at_not_freed)
  have c: "core_inv L c" "locks_held (calls c) = Some [Conn_lock]"
    using assms(1) by (simp_all add: core_at_def)
  obtain t where t: "txns c p = Some t" using assms(3) [OF Some] by (auto simp: live_def)
  have p: "p \<notin> set (trans_delay_rm c)" using assms(3) [OF Some] by simp
  define e where "e = c\<lparr>timer := None, trans_pending := remove1 p (trans_pending c),
      calls := Mutex_unlock Conn_lock # Timer_remove (timer c) # calls c\<rparr>"
  obtain cs where del: "LM_trans_delete L (Some p) e =
      e\<lparr>trans_delay_rm := trans_delay_rm e @ [p], txns := (txns e)(p \<mapsto> deleted_trans t),
        calls := Mutex_unlock Conn_lock # cs @ Mutex_lock Conn_lock # calls e\<rparr>"
    and cs: "cs = [] \<or> (\<exists>h. cs = [Timer_remove (Some h)])"
    by (rule delete_busy_eq [of e p t]) (use t assms(2) freed in \<open>simp_all add: e_def\<close>)
  let ?d = "LM_conn_cleanup_ping L c"
  have rem: "remove1 p (trans_pending c) = filter (\<lambda>q. q \<notin> set [p]) (trans_pending c)"
    using core_inv_distinct(3) [OF c(1)] by (simp add: distinct_remove1_removeAll removeAll_filter_not_eq)
      (metis)
  have eq: "?d = c\<lparr>timer := None, pingtxn := None, txns := (txns c)(p \<mapsto> deleted_trans t),
      trans_delay_rm := trans_delay_rm c @ [p],
      trans_pending := filter (\<lambda>q. q \<notin> set [p]) (trans_pending c),
      calls := Mutex_lock Conn_lock # Mutex_unlock Conn_lock # cs @ Mutex_lock Conn_lock # Mutex_unlock Conn_lock #
        Timer_remove (timer c) # calls c\<rparr>"
  proof -
    have "?d = (lock_conn (LM_trans_delete L (Some p) e))\<lparr>pingtxn := None\<rparr>"
      using Some freed core_inv_distinct(3) [OF c(1)]
      by (simp add: LM_conn_cleanup_ping_def event_timer_remove_def unlock_conn_def touch_def
          ext_def e_def Let_def)
    then have "?d = (lock_conn (e\<lparr>trans_delay_rm := trans_delay_rm e @ [p],
        txns := (txns e)(p \<mapsto> deleted_trans t),
        calls := Mutex_unlock Conn_lock # cs @ Mutex_lock Conn_lock # calls e\<rparr>))\<lparr>pingtxn := None\<rparr>"
      by (simp only: del)
    then show ?thesis
      using freed rem by (simp add: lock_conn_def touch_def ext_def e_def)
  qed
  have "core_inv L ?d"
    by (rule core_inv_transfer [OF move_pending_delay [OF c(1) t p assms(2)]])
      (simp_all add: eq rem)
  moreover have "locks_held (calls ?d) = Some [Conn_lock]"
    using c(2) cs by (auto simp: eq)
  ultimately have core: "core_at L [Conn_lock] ?d" by (simp add: core_at_def)
  have gr: "grows c ?d"
    by (rule grows_upd [where p = p and t = t and t' = "deleted_trans t"]) (use t in \<open>simp_all add: eq\<close>)
  show ?thesis
    by (rule that [OF refl eq _ core gr]) (use Some cs t in \<open>auto simp: status_is_Some fun_eq_iff\<close>)
qed

section \<open>The connection is up\<close>

text \<open>
  From a connection with a socket, whose pending ping (if there is one) is the only thing that
  can be wrong with it.
\<close>

lemma set_connected_total:
  assumes "core_at L [Conn_lock] c" "in_use c" "io c \<noteq> None"
    and "\<And>p. pingtxn c = Some p \<Longrightarrow> live c p \<and> p \<notin> set (trans_delay_rm c)"
    and "events_live c es"
  obtains c' where
    "LM_conn_event_set_connected L es c = Some (es @ [Entry LM_EVENT_CONN_CONNECTED None], c')"
    and "busy_at L c'" and "conn_status c' = LM_CONN_STATUS_CONNECTED" and "grows c c'"
    and "inbuf c' = inbuf c"
    and "trans_delay_rm c' = trans_delay_rm c @ (case pingtxn c of None \<Rightarrow> [] | Some p \<Rightarrow> [p])"
    and "\<And>p. status_is (txns c) LM_TRANS_STATUS_DONE p \<Longrightarrow> status_is (txns c') LM_TRANS_STATUS_DONE p"
proof -
  obtain d h ps cs where d: "LM_conn_cleanup_ping L c = d"
    and d_eq: "d = c\<lparr>timer := None, pingtxn := None, txns := h, trans_delay_rm := trans_delay_rm c @ ps,
               trans_pending := filter (\<lambda>p. p \<notin> set ps) (trans_pending c), calls := cs\<rparr>"
    and ps: "ps = (case pingtxn c of None \<Rightarrow> [] | Some p \<Rightarrow> [p])"
    and core: "core_at L [Conn_lock] d" and gr: "grows c d"
    and "delivered_rev cs = delivered_rev (calls c)"
    and st: "status_is h = status_is (txns c)"
    by (rule cleanup_ping_result [OF assms(1,2,4)])
  let ?e = "d\<lparr>conn_status := LM_CONN_STATUS_CONNECTED\<rparr>"
  have "core_inv L ?e"
    by (rule core_inv_status) (use core assms(3) d_eq in \<open>simp_all add: core_at_def\<close>)
  moreover have "ping_inv ?e" by (simp add: ping_inv_up d_eq)
  ultimately have inv: "inv_at L [Conn_lock] ?e"
    using core by (simp add: inv_at_def lm_inv_def core_at_def)
  obtain f h2 n cs2 where f: "send_loop L ?e = Some f"
    and f_eq: "f = ?e\<lparr>trans_ready := [], trans_pending := trans_pending ?e @ trans_ready ?e, txns := h2,
      outbuf := outbuf ?e @ concat (map (\<lambda>p. request_frame L (trans_at ?e p)) (trans_ready ?e)),
      next_handle := n, calls := cs2\<rparr>"
    and f_core: "core_at L [Conn_lock] f" and f_gr: "grows ?e f"
    and f_same: "\<And>p. p \<notin> set (trans_ready ?e) \<Longrightarrow> h2 p = txns ?e p"
    by (rule send_loop_result [OF inv_at_core [OF inv]]) blast
  have f_inv: "inv_at L [Conn_lock] f"
    by (rule core_at_ping [OF f_core]) (simp add: f_eq ping_inv_up d_eq)
  define g where "g = (if trans_pending f \<noteq> [] then ext (Timer_stop (timer f)) f else f)"
  define k where "k = (if outbuf ?e = [] \<and> outbuf g \<noteq> [] then ext (Trigger_signal (write_trigger g)) g else g)"
  define l where "l = (if idle_timeout k \<noteq> 0
     then ext (Timer_set_firecount (Some (next_handle k)) 1)
       (k\<lparr>next_handle := Suc (next_handle k), calls := Timer_add (next_handle k) # calls k,
          timer := Some (next_handle k)\<rparr>) else k)"
  have send: "LM_trans_send_messages L ?e = Some k"
    by (simp add: LM_trans_send_messages_def f k_def g_def Let_def)
  have res: "LM_conn_event_set_connected L es c = Some (es @ [Entry LM_EVENT_CONN_CONNECTED None], l)"
    by (simp add: LM_conn_event_set_connected_def d send LM_conn_event_add_def l_def new_handle_def
        ext_def Let_def)
  have k_inv: "inv_at L [Conn_lock] k" using f_inv by (simp add: k_def g_def lm_inv_simps)
  have frame: "conn_status k = LM_CONN_STATUS_CONNECTED" "inbuf k = inbuf c" "txns k = txns f"
    "trans_delay_rm k = trans_delay_rm c @ ps" "in_use k = in_use c" "pingtxn k = None"
    by (simp_all add: k_def g_def f_eq d_eq)
  have l_frame: "conn_status l = LM_CONN_STATUS_CONNECTED" "inbuf l = inbuf c" "txns l = txns f"
    "trans_delay_rm l = trans_delay_rm c @ ps" "in_use l = in_use c" "pingtxn l = None"
    using frame by (simp_all add: l_def)
  have "core_inv L l" using k_inv by (simp add: l_def inv_at_def lm_inv_def lm_inv_simps)
  then have "inv_at L [Conn_lock] l"
    using k_inv l_frame by (simp add: inv_at_def lm_inv_def ping_inv_up) (simp add: l_def)
  then have busy: "busy_at L l" using l_frame(5) assms(2) by (simp add: busy_at_def)
  have "grows c ?e = grows c d" by (rule grows_cong) simp_all
  with gr have "grows c ?e" by simp
  also note f_gr
  also have "grows f l"
    by (rule grows_same) (simp_all add: l_def k_def g_def)
  finally have grow: "grows c l" .
  have "status_is (txns l) LM_TRANS_STATUS_DONE p" if "status_is (txns c) LM_TRANS_STATUS_DONE p" for p
  proof -
    have "p \<notin> set (trans_ready ?e)"
      using that st core_inv_queue_status(2) [of L ?e p] inv
      by (auto simp: inv_at_def lm_inv_def d_eq status_is_def)
    then have "txns f p = h p" using f_same by (simp add: f_eq d_eq)
    then have "status_is (txns l) LM_TRANS_STATUS_DONE p = status_is h LM_TRANS_STATUS_DONE p"
      using l_frame(3) by (simp add: status_is_def)
    with that st show ?thesis by simp
  qed
  with res busy l_frame grow ps show ?thesis by (intro that [of l]) simp_all
qed

end

section \<open>The connection fails\<close>

text \<open>A transaction whose connection failed.\<close>

definition failed_trans :: "mstd \<Rightarrow> string \<Rightarrow> LM_trans \<Rightarrow> LM_trans" where
  "failed_trans L msg t = (error_response L msg t)\<lparr>timeout_timer := None\<rparr>"

lemma failed_trans_sel [simp]:
  "trans_id (failed_trans L msg t) = trans_id t"
  "status (failed_trans L msg t) = LM_TRANS_STATUS_DONE"
  by (simp_all add: failed_trans_def error_response_def Let_def)

lemma failed_trans_wf:
  assumes "trans_wf t" "status t = LM_TRANS_STATUS_PENDING"
  shows "trans_wf (failed_trans L msg t)"
  using assms by (auto simp: trans_wf_def failed_trans_def error_response_def Let_def)

context mstd_api
begin

lemma fail_one_result:
  assumes "core_at L [Conn_lock] c" "trans_pending c = p # q" "txns c p = Some t"
  obtains d cs where
    "fail_one L p (es, c\<lparr>trans_pending := q\<rparr>) = (es @ [Entry LM_EVENT_TRANS_ERROR (Some p)], d)"
    and "d = c\<lparr>trans_pending := q, trans_done := trans_done c @ [p],
               txns := (txns c)(p \<mapsto> failed_trans L (error c) t), calls := cs\<rparr>"
    and "core_at L [Conn_lock] d" and "delivered_rev cs = delivered_rev (calls c)"
proof -
  have c: "core_inv L c" using assms(1) by (simp add: core_at_def)
  have st: "status t = LM_TRANS_STATUS_PENDING"
    using core_inv_queue_status(3) [OF c, of p] assms(2,3) by (simp add: status_is_Some)
  have notin: "p \<notin> set (trans_done c)"
    using core_inv_notin(4) [OF c assms(3)] st by simp
  define cs where "cs = Mutex_unlock (Trans_lock p) #
    (case timeout_timer t of None \<Rightarrow> [] | Some h \<Rightarrow> [Timer_remove (Some h)]) @
    Mutex_lock (Trans_lock p) # calls c"
  define d where "d = c\<lparr>trans_pending := q, trans_done := trans_done c @ [p],
               txns := (txns c)(p \<mapsto> failed_trans L (error c) t), calls := cs\<rparr>"
  have none: "timeout_timer (error_response L (error c) t) = timeout_timer t"
    by (simp add: error_response_def Let_def)
  have same: "error_response L (error c) t = failed_trans L (error c) t" if "timeout_timer t = None"
    using that none by (cases "error_response L (error c) t") (simp add: failed_trans_def)
  have eq: "fail_one L p (es, c\<lparr>trans_pending := q\<rparr>) = (es @ [Entry LM_EVENT_TRANS_ERROR (Some p)], d)"
  proof (cases "timeout_timer t")
    case None
    then show ?thesis
      using assms(3) notin none same [OF None]
      by (simp add: fail_one_def lock_trans_def unlock_trans_def live_def ext_def d_def cs_def
          LM_conn_event_add_def Let_def)
  next
    case (Some h)
    then show ?thesis
      using assms(3) notin none
      by (simp add: fail_one_def lock_trans_def unlock_trans_def live_def ext_def d_def cs_def
          LM_conn_event_add_def failed_trans_def Let_def)
  qed
  have wf: "trans_wf (failed_trans L (error c) t)"
    using core_inv_wf [OF c assms(3)] st by (rule failed_trans_wf)
  have "p \<in> set (trans_pending c)" using assms(2) by simp
  from move_pending_done [OF c this assms(3) _ _ wf]
  have core: "core_inv L (c\<lparr>txns := (txns c)(p \<mapsto> failed_trans L (error c) t),
      trans_pending := remove1 p (trans_pending c), trans_done := trans_done c @ [p]\<rparr>)"
    by simp
  have "core_inv L d"
    by (rule core_inv_transfer [OF core]) (simp_all add: d_def assms(2))
  moreover have "locks_held cs = Some [Conn_lock]"
    using assms(1) by (auto simp: core_at_def cs_def split: option.split)
  ultimately have "core_at L [Conn_lock] d" by (simp add: core_at_def d_def)
  moreover have "delivered_rev cs = delivered_rev (calls c)"
    by (simp add: cs_def split: option.split)
  ultimately show ?thesis using eq d_def by (intro that [of d cs])
qed

text \<open>The loop over the pending transactions ends with none left, in the order of the queue.\<close>

lemma fail_loop_total:
  assumes "core_at L [Conn_lock] c"
  shows "\<exists>h cs. fail_loop L (es, c) =
      Some (es @ map (\<lambda>p. Entry LM_EVENT_TRANS_ERROR (Some p)) (trans_pending c),
        c\<lparr>trans_pending := [], trans_done := trans_done c @ trans_pending c, txns := h, calls := cs\<rparr>) \<and>
    core_at L [Conn_lock] (c\<lparr>trans_pending := [], trans_done := trans_done c @ trans_pending c,
        txns := h, calls := cs\<rparr>) \<and>
    delivered_rev cs = delivered_rev (calls c) \<and>
    (\<forall>p. h p = (if p \<in> set (trans_pending c) then map_option (failed_trans L (error c)) (txns c p)
              else txns c p))"
  using assms
proof (induction "trans_pending c" arbitrary: c es)
  case Nil
  have rq: "trans_pending c = []" using Nil by simp
  then have same: "c\<lparr>trans_pending := []\<rparr> = c" by (cases c) simp
  have "fail_loop L (es, c) = Some (es, c)"
    by (subst fail_loop.simps) (simp add: rq same)
  moreover have "core_at L [Conn_lock] (c\<lparr>trans_pending := []\<rparr>)"
    unfolding same by (rule Nil.prems)
  ultimately show ?case using rq
    by (intro exI [of _ "txns c"] exI [of _ "calls c"]) simp
next
  case (Cons p q)
  have rq: "trans_pending c = p # q" using Cons.hyps(2) by simp
  have c: "core_inv L c" using Cons.prems by (simp add: core_at_def)
  obtain t where t: "txns c p = Some t"
    using core_inv_queue_status(3) [OF c, of p] rq by (auto simp: status_is_def)
  have pq: "p \<notin> set q" using core_inv_distinct(3) [OF c] rq by simp
  obtain d cs1 where one:
    "fail_one L p (es, c\<lparr>trans_pending := q\<rparr>) = (es @ [Entry LM_EVENT_TRANS_ERROR (Some p)], d)"
    and d: "d = c\<lparr>trans_pending := q, trans_done := trans_done c @ [p],
               txns := (txns c)(p \<mapsto> failed_trans L (error c) t), calls := cs1\<rparr>"
    and core: "core_at L [Conn_lock] d" and del: "delivered_rev cs1 = delivered_rev (calls c)"
    by (rule fail_one_result [OF Cons.prems rq t])
  obtain h cs where IH: "fail_loop L (es @ [Entry LM_EVENT_TRANS_ERROR (Some p)], d) =
      Some ((es @ [Entry LM_EVENT_TRANS_ERROR (Some p)]) @
          map (\<lambda>p. Entry LM_EVENT_TRANS_ERROR (Some p)) (trans_pending d),
        d\<lparr>trans_pending := [], trans_done := trans_done d @ trans_pending d, txns := h, calls := cs\<rparr>)"
    and inv: "core_at L [Conn_lock] (d\<lparr>trans_pending := [],
        trans_done := trans_done d @ trans_pending d, txns := h, calls := cs\<rparr>)"
    and del2: "delivered_rev cs = delivered_rev (calls d)"
    and h: "\<forall>r. h r = (if r \<in> set (trans_pending d)
              then map_option (failed_trans L (error d)) (txns d r) else txns d r)"
    using Cons.hyps(1) [of d "es @ [Entry LM_EVENT_TRANS_ERROR (Some p)]"] core by (auto simp: d)
  have step: "fail_loop L (es, c) = fail_loop L (es @ [Entry LM_EVENT_TRANS_ERROR (Some p)], d)"
    by (subst fail_loop.simps) (simp add: rq one)
  show ?case
    using IH inv del del2 h t pq unfolding step
    by (intro exI [of _ h] exI [of _ cs]) (auto simp: d rq)
qed

lemma foldl_event_add:
  "foldl (\<lambda>es p. LM_conn_event_add L ty (Some p) es) es ps = es @ map (\<lambda>p. Entry ty (Some p)) ps"
  by (induction ps arbitrary: es) (simp_all add: LM_conn_event_add_def)

lemma destroy_io_result:
  assumes "core_at L [Conn_lock] c"
  obtains d cs where "destroy_io L c = d"
    and "d = c\<lparr>io := None, write_trigger := None, conn_status := LM_CONN_STATUS_DISCONNECTED,
               outbuf := [], inbuf := \<lparr>p_mark = None, p_rest = []\<rparr>, timer := None, calls := cs\<rparr>"
    and "core_at L [Conn_lock] d" and "delivered_rev cs = delivered_rev (calls c)"
proof -
  define cs where "cs = (if timer c \<noteq> None then [Timer_remove (timer c)] else []) @
     Trigger_remove (write_trigger c) # Io_destroy (io c) # calls c"
  define d where "d = c\<lparr>io := None, write_trigger := None,
     conn_status := LM_CONN_STATUS_DISCONNECTED, outbuf := [],
     inbuf := \<lparr>p_mark = None, p_rest = []\<rparr>, timer := None, calls := cs\<rparr>"
  have eq: "destroy_io L c = d"
  proof (cases "timer c")
    case None
    then have "c\<lparr>timer := None\<rparr> = c" by (cases c) simp
    then have "c = c\<lparr>timer := None\<rparr>" by (rule sym)
    then have "d = c\<lparr>io := None, write_trigger := None,
     conn_status := LM_CONN_STATUS_DISCONNECTED, outbuf := [],
     inbuf := \<lparr>p_mark = None, p_rest = []\<rparr>, calls := cs\<rparr>"
      unfolding d_def using None by (cases c) simp
    then show ?thesis using None by (simp add: destroy_io_def ext_def cs_def Let_def)
  next
    case (Some h)
    then show ?thesis
      by (simp add: destroy_io_def ext_def cs_def d_def event_timer_remove_def Let_def)
  qed
  have len: "length (error c) < 256" and c: "core_inv L c"
    using assms by (simp_all add: core_at_def core_inv_def io_inv_def)
  have base: "core_inv L (c\<lparr>error := error c, io := None, conn_status := LM_CONN_STATUS_DISCONNECTED\<rparr>)"
    by (rule core_inv_conn [OF c _ len]) simp
  have "core_inv L d"
    by (rule core_inv_transfer [OF base]) (simp_all add: d_def)
  moreover have "locks_held cs = Some [Conn_lock]"
    using assms by (auto simp: core_at_def cs_def)
  ultimately have "core_at L [Conn_lock] d" by (simp add: core_at_def d_def)
  moreover have "delivered_rev cs = delivered_rev (calls c)" by (simp add: cs_def)
  ultimately show ?thesis using eq d_def by (intro that [of d cs])
qed

end

text \<open>
  What the user is told, and what has become of the connection: the transactions that waited
  to be sent keep waiting, those on the wire are done, with an error.
\<close>

definition failure_events :: "M_event_type \<Rightarrow> LM_conn \<Rightarrow> events" where
  "failure_events ty c =
     (if conn_status c = LM_CONN_STATUS_IDLE_TIMEOUT then []
      else map (\<lambda>p. Entry LM_EVENT_TRANS_NOCONNECT (Some p)) (trans_ready c)) @
     map (\<lambda>p. Entry LM_EVENT_TRANS_ERROR (Some p)) (trans_pending c) @
     [Entry (if rewrite_event_type c ty = M_EVENT_TYPE_DISCONNECTED
             then LM_EVENT_CONN_DISCONNECT else LM_EVENT_CONN_ERROR) None]"

context mstd_api
begin

lemma conn_error_result:
  assumes "core_at L [Conn_lock] c"
  obtains d h cs where
    "LM_conn_event_handle_conn_error L ty es c = Some (es @ failure_events ty c, d)"
    and "d = c\<lparr>io := None, write_trigger := None, conn_status := LM_CONN_STATUS_DISCONNECTED,
               outbuf := [], inbuf := \<lparr>p_mark = None, p_rest = []\<rparr>, timer := None,
               trans_pending := [], trans_done := trans_done c @ trans_pending c, txns := h,
               calls := cs\<rparr>"
    and "core_at L [Conn_lock] d" and "delivered_rev cs = delivered_rev (calls c)"
    and "h = (\<lambda>p. if p \<in> set (trans_pending c) then map_option (failed_trans L (error c)) (txns c p)
                else txns c p)"
proof -
  obtain d1 cs1 where d1: "destroy_io L c = d1"
    and d1_eq: "d1 = c\<lparr>io := None, write_trigger := None,
      conn_status := LM_CONN_STATUS_DISCONNECTED, outbuf := [],
      inbuf := \<lparr>p_mark = None, p_rest = []\<rparr>, timer := None, calls := cs1\<rparr>"
    and core: "core_at L [Conn_lock] d1" and del: "delivered_rev cs1 = delivered_rev (calls c)"
    by (rule destroy_io_result [OF assms])
  define es1 where "es1 = es @ (if conn_status c = LM_CONN_STATUS_IDLE_TIMEOUT then []
      else map (\<lambda>p. Entry LM_EVENT_TRANS_NOCONNECT (Some p)) (trans_ready c))"
  obtain h cs where loop: "fail_loop L (es1, d1) =
      Some (es1 @ map (\<lambda>p. Entry LM_EVENT_TRANS_ERROR (Some p)) (trans_pending d1),
        d1\<lparr>trans_pending := [], trans_done := trans_done d1 @ trans_pending d1, txns := h, calls := cs\<rparr>)"
    and core2: "core_at L [Conn_lock] (d1\<lparr>trans_pending := [],
        trans_done := trans_done d1 @ trans_pending d1, txns := h, calls := cs\<rparr>)"
    and del2: "delivered_rev cs = delivered_rev (calls d1)"
    and h: "\<forall>p. h p = (if p \<in> set (trans_pending d1)
              then map_option (failed_trans L (error d1)) (txns d1 p) else txns d1 p)"
    using fail_loop_total [OF core, of es1] by blast
  define d where "d = c\<lparr>io := None, write_trigger := None,
      conn_status := LM_CONN_STATUS_DISCONNECTED, outbuf := [],
      inbuf := \<lparr>p_mark = None, p_rest = []\<rparr>, timer := None, trans_pending := [],
      trans_done := trans_done c @ trans_pending c, txns := h, calls := cs\<rparr>"
  have same: "d1\<lparr>trans_pending := [], trans_done := trans_done d1 @ trans_pending d1, txns := h,
      calls := cs\<rparr> = d"
    by (simp add: d_def d1_eq)
  have es1: "(if conn_status c \<noteq> LM_CONN_STATUS_IDLE_TIMEOUT
      then foldl (\<lambda>es p. LM_conn_event_add L LM_EVENT_TRANS_NOCONNECT (Some p) es) es (trans_ready d1)
      else es) = es1"
    by (simp add: es1_def foldl_event_add d1_eq)
  have "LM_conn_event_handle_conn_error L ty es c = Some (es @ failure_events ty c, d)"
    by (simp only: LM_conn_event_handle_conn_error_def Let_def d1 queue_foreach es1 loop same
        bind.bind_lunit prod.case) (simp add: es1_def d1_eq failure_events_def LM_conn_event_add_def)
  moreover have "delivered_rev cs = delivered_rev (calls c)" using del del2 by (simp add: d1_eq)
  moreover have "h = (\<lambda>p. if p \<in> set (trans_pending c)
      then map_option (failed_trans L (error c)) (txns c p) else txns c p)"
    using h by (simp add: fun_eq_iff d1_eq)
  ultimately show ?thesis using core2 unfolding same by (intro that [OF _ d_def])
qed

lemma conn_error_busy:
  assumes "core_at L [Conn_lock] c" "in_use c" "pingtxn c \<noteq> None \<Longrightarrow> \<not> disable_ping c"
    and "events_live c es" and told: "told_done c es"
    and apart: "set (trans_delay_rm c) \<inter> set (trans_ready c @ trans_pending c) = {}"
  obtains c' where "LM_conn_event_handle_conn_error L ty es c = Some (es @ failure_events ty c, c')"
    and "busy_at L c'" and "grows c c'" and "events_live c' (es @ failure_events ty c)"
    and "told_once c' (es @ failure_events ty c)"
    and "conn_status c' = LM_CONN_STATUS_DISCONNECTED" and "timer c' = None"
proof -
  obtain d h cs where eq: "LM_conn_event_handle_conn_error L ty es c = Some (es @ failure_events ty c, d)"
    and d: "d = c\<lparr>io := None, write_trigger := None, conn_status := LM_CONN_STATUS_DISCONNECTED,
               outbuf := [], inbuf := \<lparr>p_mark = None, p_rest = []\<rparr>, timer := None,
               trans_pending := [], trans_done := trans_done c @ trans_pending c, txns := h,
               calls := cs\<rparr>"
    and core: "core_at L [Conn_lock] d" and "delivered_rev cs = delivered_rev (calls c)"
    and h: "h = (\<lambda>p. if p \<in> set (trans_pending c) then map_option (failed_trans L (error c)) (txns c p)
                else txns c p)"
    by (rule conn_error_result [OF assms(1)])
  have "ping_inv d" using assms(3) by (auto simp: d ping_inv_down)
  with core have "inv_at L [Conn_lock] d" by (rule core_at_ping)
  then have busy: "busy_at L d" using assms(2) by (simp add: busy_at_def d)
  have live: "live d p = live c p" for p
    by (simp add: d live_def h)
  have "forward c d"
  proof (rule forward_pointwise)
    show "next_ptr d = next_ptr c" by (simp add: d)
  qed (auto simp: d h split: if_splits)
  then have gr: "grows c d" by (simp add: grows_def live) (simp add: d)
  have q: "live c p" if "p \<in> set (trans_ready c) \<or> p \<in> set (trans_pending c)" for p
    using that assms(1) core_inv_queue_status(2,3) [of L c p]
    by (auto simp: core_at_def live_def status_is_def)
  have "events_live d (es @ failure_events ty c)"
    using assms(4) q by (auto simp: events_live_def failure_events_def live split: if_splits)
  moreover have "told_once d (es @ failure_events ty c)"
  proof -
    have c: "core_inv L c" using assms(1) by (simp add: core_at_def)
    have overs: "overs (es @ failure_events ty c) =
        overs es @ (if conn_status c = LM_CONN_STATUS_IDLE_TIMEOUT then [] else trans_ready c) @ trans_pending c"
      by (simp add: failure_events_def)
    have st: "p \<in> set (overs es) \<Longrightarrow> status_is (txns c) LM_TRANS_STATUS_DONE p" for p
      using told by (simp add: told_done_def)
    have "distinct (overs (es @ failure_events ty c))"
      using told core_inv_distinct [OF c] core_inv_queue_status(2,3) [OF c] st
      unfolding overs by (fastforce simp: told_done_def status_is_def)
    moreover have "usable d (Some p)" if "p \<in> set (overs (es @ failure_events ty c))" for p
    proof -
      have "p \<in> set (overs es) \<or> p \<in> set (trans_ready c) \<or> p \<in> set (trans_pending c)"
        using that unfolding overs by (auto split: if_splits)
      then have "live c p" "p \<notin> set (trans_delay_rm c)"
        using st [of p] q [of p] told apart by (auto simp: told_done_def status_is_def live_def)
      then show ?thesis by (simp add: usable_def live) (simp add: d)
    qed
    ultimately show ?thesis by (simp add: told_once_def)
  qed
  ultimately show ?thesis using eq busy gr by (intro that [of d]) (simp_all add: d)
qed

end

end
