(* ===== verification/LM_Handler_Inv.thy ===== *)
theory LM_Handler_Inv
  imports LM_Event_Inv
begin

text \<open>
  The cases of the handler, the delivery of the events to the client, and the handler itself:
  it returns, keeps the invariant, leaves no lock held, and never touches memory that is gone,
  whatever the client's callback does within the rules of the interface.
\<close>

section \<open>The ping request\<close>

definition ping_trans :: "u64 \<Rightarrow> LM_trans" where
  "ping_trans k = (new_trans k)\<lparr>status := LM_TRANS_STATUS_PENDING, request_params := None\<rparr>"

lemma ping_trans_sel [simp]:
  "trans_id (ping_trans k) = k" "status (ping_trans k) = LM_TRANS_STATUS_PENDING"
  by (simp_all add: ping_trans_def)

lemma ping_trans_wf: "k \<noteq> 0 \<Longrightarrow> k < 0xFFFFFFFF \<Longrightarrow> trans_wf (ping_trans k)"
  by (simp add: trans_wf_def ping_trans_def new_trans_def zero_trans_def)

context mstd_rand_api
begin

lemma ping_request_result:
  assumes "core_at L [Conn_lock] c" "ids_left c"
  obtains d k m ob cs where "LM_trans_ping_request L c = Some (next_ptr c, d)"
    and "d = c\<lparr>next_ptr := Suc (next_ptr c), txns := (txns c)(next_ptr c \<mapsto> ping_trans k),
               trans_pending := trans_pending c @ [next_ptr c], trans_id_map := m, outbuf := ob,
               calls := cs\<rparr>"
    and "core_at L [Conn_lock] d" and "delivered_rev cs = delivered_rev (calls c)"
proof -
  have c: "core_inv L c" "locks_held (calls c) = Some [Conn_lock]"
    using assms(1) by (simp_all add: core_at_def)
  let ?p = "next_ptr c"
  obtain k cs where new: "LM_trans_new_internal L c =
      Some (?p, c\<lparr>next_ptr := Suc ?p, txns := (txns c)(?p \<mapsto> new_trans k), calls := cs\<rparr>)"
    and k: "locks_held cs = locks_held (calls c)" "delivered_rev cs = delivered_rev (calls c)"
      "M_hash_u64vp_get L (trans_id_map c) k = None" "k \<noteq> 0" "k < 0xFFFFFFFF"
    by (rule new_internal_total [OF c(1) assms(2)])
  have notin: "?p \<notin> set (trans_pending c)"
    using c(1) core_inv_queue_status(3) [OF c(1), of ?p] core_inv_below [OF c(1)]
    by (fastforce simp: status_is_def)
  let ?t = "(new_trans k)\<lparr>status := LM_TRANS_STATUS_PENDING,
    request_params := Some (M_hash_dict_insert L [] ''action'' (Some ''ping''))\<rparr>"
  define ob where "ob = outbuf c @ request_frame L ?t"
  define cs2 where "cs2 = Mutex_unlock (Trans_lock ?p) # Mutex_lock (Trans_lock ?p) # cs"
  define d where "d = c\<lparr>next_ptr := Suc ?p, txns := (txns c)(?p \<mapsto> ping_trans k),
      trans_pending := trans_pending c @ [?p],
      trans_id_map := M_hash_u64vp_insert L (trans_id_map c) k ?p,
      outbuf := M_io_write_from_buf L cs2 ob, calls := Io_write_from_buf ob # cs2\<rparr>"
  define c1 where "c1 = c\<lparr>next_ptr := Suc ?p, txns := (txns c)(?p \<mapsto> new_trans k), calls := cs\<rparr>"
  define c2 where "c2 = c\<lparr>next_ptr := Suc ?p, calls := cs2, txns := (txns c)(?p \<mapsto> (new_trans k)\<lparr>request_params :=
    Some (M_hash_dict_insert L [] ''action'' (Some ''ping''))\<rparr>)\<rparr>"
  define c3 where "c3 = c\<lparr>next_ptr := Suc ?p, calls := cs2, txns := (txns c)(?p \<mapsto> ?t),
    trans_pending := trans_pending c @ [?p], trans_id_map := M_hash_u64vp_insert L (trans_id_map c) k ?p\<rparr>"
  have swap: "t\<lparr>request_params := x, status := y\<rparr> = t\<lparr>status := y, request_params := x\<rparr>" for t :: LM_trans and x y
    by simp
  have sel: "status (new_trans k) = LM_TRANS_STATUS_NEW" "request_params (new_trans k) = None"
    "trans_id (new_trans k) = k"
    by (simp_all add: new_trans_def zero_trans_def)
  have 1: "LM_trans_set_param L (Some ?p) (Some ''action'') (Some ''ping'') c1 = (True, c2)"
    by (simp add: LM_trans_set_param_def lock_trans_def unlock_trans_def live_def ext_def sel c1_def
        c2_def cs2_def Let_def)
  have 2: "(let c = upd_trans ?p (\<lambda>t. t\<lparr>status := LM_TRANS_STATUS_PENDING\<rparr>) c2;
      c = c\<lparr>trans_pending := M_queue_insert L (trans_pending c) ?p\<rparr>
      in c\<lparr>trans_id_map := M_hash_u64vp_insert L (trans_id_map c) (trans_id (trans_at c ?p)) ?p\<rparr>) = c3"
    using notin by (simp add: c2_def c3_def sel swap)
  have "?t\<lparr>request_params := None\<rparr> = ping_trans k" by (simp add: ping_trans_def)
  then have 3: "LM_trans_structure L ?p c3 = c3\<lparr>txns := (txns c)(?p \<mapsto> ping_trans k), outbuf := ob\<rparr>"
    using trans_structure_eq [of c3 ?p ?t] by (simp add: c3_def ob_def)
  have "LM_trans_ping_request L c = Some (?p, d)"
    using 2 3 by (simp add: LM_trans_ping_request_def new 1 flip: c1_def)
      (simp add: Let_def d_def c3_def ext_def)
  moreover have "core_at L [Conn_lock] d"
  proof -
    have "core_inv L (c\<lparr>next_ptr := Suc ?p, txns := (txns c)(?p \<mapsto> ping_trans k),
        trans_pending := trans_pending c @ [?p],
        trans_id_map := M_hash_u64vp_insert L (trans_id_map c) (trans_id (ping_trans k)) ?p\<rparr>)"
      using move_alloc(2) [OF c(1), of "ping_trans k" ?p] ping_trans_wf k by simp
    then have "core_inv L d" by (rule core_inv_transfer) (simp_all add: d_def)
    moreover have "locks_held (calls d) = Some [Conn_lock]"
      using k(1) c(2) by (simp add: d_def cs2_def)
    ultimately show ?thesis by (simp add: core_at_def)
  qed
  moreover have "delivered_rev (Io_write_from_buf ob # cs2) = delivered_rev (calls c)"
    using k(2) by (simp add: cs2_def)
  ultimately show ?thesis by (intro that [OF _ d_def])
qed

section \<open>Connected\<close>

lemma handle_connected_total:
  assumes "busy_at L c" "conn_status c = LM_CONN_STATUS_CONNECTING" "timer c = None" "ids_left c"
  obtains es c' where "handle_connected L c = Some (es, c')"
    and "busy_at L c'" and "grows c c'" and "events_live c' es" and "told_once c' es"
proof -
  have c: "core_at L [Conn_lock] c" "ping_inv c" "in_use c"
    using assms(1) inv_at_core by (auto simp: busy_at_def inv_at_def lm_inv_def core_at_def)
  have io: "io c \<noteq> None" using c(1) assms(2) by (simp add: core_at_def core_inv_def io_inv_def)
  have trigger: "busy_at L ((ext (Trigger_add (next_handle d)) (d\<lparr>next_handle := Suc (next_handle d)\<rparr>))
      \<lparr>write_trigger := Some (next_handle d)\<rparr>)" if "busy_at L d" for d
    using that by (simp add: busy_at_def inv_at_def lm_inv_def lm_inv_simps)
  show ?thesis
  proof (cases "disable_ping c")
    case True
    then have none: "pingtxn c = None" using c(2) by (auto simp: ping_inv_def)
    obtain d where d: "LM_conn_event_set_connected L [] c = Some ([] @ [Entry LM_EVENT_CONN_CONNECTED None], d)"
      "busy_at L d" "grows c d"
      by (rule set_connected_total [OF c(1,3) io, of "[]"]) (use none in auto)
    let ?d = "(ext (Trigger_add (next_handle d)) (d\<lparr>next_handle := Suc (next_handle d)\<rparr>))
      \<lparr>write_trigger := Some (next_handle d)\<rparr>"
    have "grows c ?d = grows c d" by (rule grows_cong) simp_all
    with d(3) have "grows c ?d" by simp
    moreover have "handle_connected L c = Some ([Entry LM_EVENT_CONN_CONNECTED None], ?d)"
      using True d(1) by (simp add: handle_connected_def new_handle_def Let_def)
    moreover have "events_live ?d [Entry LM_EVENT_CONN_CONNECTED None]"
      by (simp add: events_live_def)
    moreover have "told_once ?d [Entry LM_EVENT_CONN_CONNECTED None]"
      by (simp add: told_once_def)
    ultimately show ?thesis using trigger [OF d(2)] by (intro that)
  next
    case False
    define e where "e = c\<lparr>next_handle := Suc (next_handle c),
      calls := Timer_oneshot (next_handle c) (5 * 1000) None # calls c, timer := Some (next_handle c)\<rparr>"
    have e: "core_at L [Conn_lock] e" "ids_left e"
      using c(1) assms(4) by (simp_all add: e_def core_at_def lm_inv_simps ids_left_def queues_def)
    obtain d k m ob cs where ping: "LM_trans_ping_request L e = Some (next_ptr e, d)"
      and d: "d = e\<lparr>next_ptr := Suc (next_ptr e), txns := (txns e)(next_ptr e \<mapsto> ping_trans k),
               trans_pending := trans_pending e @ [next_ptr e], trans_id_map := m, outbuf := ob,
               calls := cs\<rparr>"
      and core: "core_at L [Conn_lock] d"
      by (rule ping_request_result [OF e])
    let ?f = "d\<lparr>pingtxn := Some (next_ptr e)\<rparr>"
    have delay: "next_ptr c \<notin> set (trans_delay_rm c)"
      using c(1) core_inv_below by (fastforce simp: core_at_def core_inv_def delay_inv_def live_def)
    have "trans_pending c = []"
      using c(2) assms(2,3) by (simp add: ping_inv_def)
    then have "ping_inv ?f"
      using False delay assms(2) by (simp add: ping_inv_def d e_def)
    moreover have "core_at L [Conn_lock] ?f" using core by (simp add: core_at_def lm_inv_simps)
    ultimately have "inv_at L [Conn_lock] ?f" by (intro core_at_ping)
    then have busy: "busy_at L ?f" using c(3) by (simp add: busy_at_def d e_def)
    have "handle_connected L c = Some ([], (ext (Trigger_add (next_handle ?f))
        (?f\<lparr>next_handle := Suc (next_handle ?f)\<rparr>))\<lparr>write_trigger := Some (next_handle ?f)\<rparr>)"
      using False ping by (simp add: handle_connected_def new_handle_def ext_def Let_def e_def)
    moreover have "grows c ((ext (Trigger_add (next_handle ?f))
        (?f\<lparr>next_handle := Suc (next_handle ?f)\<rparr>))\<lparr>write_trigger := Some (next_handle ?f)\<rparr>)"
      by (rule grows_new [where t = "ping_trans k"]) (simp_all add: d e_def)
    ultimately show ?thesis using trigger [OF busy] by (intro that [OF _ _ _ events_live_Nil told_Nil(2)])
  qed
qed

end

section \<open>Failed\<close>

lemma core_at_set_error: "core_at L hs c \<Longrightarrow> core_at L hs (set_error s c)"
  by (simp add: core_at_def lm_inv_simps) (simp add: set_error_def)

lemma core_at_ext: "lock_free x \<Longrightarrow> core_at L hs c \<Longrightarrow> core_at L hs (ext x c)"
  by (cases x) (auto simp: core_at_def lm_inv_simps)

context mstd_rand_api
begin

text \<open>The failure with the message \<open>s\<close>, from any state of the handler.\<close>

lemma conn_error_message:
  assumes "core_at L [Conn_lock] c" "in_use c" "pingtxn c \<noteq> None \<Longrightarrow> \<not> disable_ping c"
    and "events_live c es" "told_done c es"
    and "set (trans_delay_rm c) \<inter> set (trans_ready c @ trans_pending c) = {}"
  obtains c' where "LM_conn_event_handle_conn_error L ty es (set_error s c) =
      Some (es @ failure_events ty (set_error s c), c')"
    and "busy_at L c'" and "grows c c'" and "events_live c' (es @ failure_events ty (set_error s c))"
    and "told_once c' (es @ failure_events ty (set_error s c))"
    and "conn_status c' = LM_CONN_STATUS_DISCONNECTED" and "timer c' = None"
proof -
  let ?d = "set_error s c"
  have d: "core_at L [Conn_lock] ?d" using assms(1) by (rule core_at_set_error)
  have busy: "in_use ?d" using assms(2) by simp
  have ping: "\<not> disable_ping ?d" if "pingtxn ?d \<noteq> None"
    using assms(3) that unfolding lock_frame by blast
  have gr: "grows c ?d" by (rule grows_same) simp_all
  have live: "events_live ?d es" using assms(4) gr assms(2) by (rule events_live_grows)
  have told: "told_done ?d es" using assms(5) by (simp add: told_done_def)
  have apart: "set (trans_delay_rm ?d) \<inter> set (trans_ready ?d @ trans_pending ?d) = {}"
    using assms(6) by simp
  obtain c' where "LM_conn_event_handle_conn_error L ty es ?d = Some (es @ failure_events ty ?d, c')"
    and "busy_at L c'" and "grows ?d c'" and "events_live c' (es @ failure_events ty ?d)"
    and "told_once c' (es @ failure_events ty ?d)"
    and "conn_status c' = LM_CONN_STATUS_DISCONNECTED" and "timer c' = None"
    by (rule conn_error_busy [OF d busy ping live told apart])
  with grows_trans [OF gr] show ?thesis by (intro that)
qed

lemma busy_at_core:
  assumes "busy_at L c"
  shows "core_at L [Conn_lock] c" and "in_use c" and "ping_inv c"
    and "pingtxn c \<noteq> None \<Longrightarrow> \<not> disable_ping c"
proof -
  have inv: "inv_at L [Conn_lock] c" and "in_use c" using assms by (simp_all add: busy_at_def)
  then show "core_at L [Conn_lock] c" "in_use c" using inv_at_core by simp_all
  show ping: "ping_inv c" using inv by (simp add: inv_at_def lm_inv_def)
  show "pingtxn c \<noteq> None \<Longrightarrow> \<not> disable_ping c" using ping by (simp add: ping_inv_def)
qed

lemma busy_at_ext: "lock_free x \<Longrightarrow> busy_at L (ext x c) = busy_at L c"
  by (simp add: busy_at_def lm_inv_simps)

lemma handle_failure_total:
  assumes "busy_at L c" "trans_delay_rm c = []"
  obtains es c' where "handle_failure L ty c = Some (es, c')"
    and "busy_at L c'" and "grows c c'" and "events_live c' es" and "told_once c' es"
proof (cases "conn_status c = LM_CONN_STATUS_IDLE_TIMEOUT")
  case True
  have apart: "set (trans_delay_rm c) \<inter> set (trans_ready c @ trans_pending c) = {}"
    using assms(2) by simp
  from True have "handle_failure L ty c =
      LM_conn_event_handle_conn_error L ty [] (set_error ''Idle connection timeout'' c)"
    by (simp add: handle_failure_def)
  moreover obtain es c' where "LM_conn_event_handle_conn_error L ty []
      (set_error ''Idle connection timeout'' c) = Some (es, c')"
    and "busy_at L c'" and "grows c c'" and "events_live c' es" and "told_once c' es"
    by (rule conn_error_message [OF busy_at_core(1,2,4) [OF assms(1)] events_live_Nil told_Nil(1) apart])
  ultimately show ?thesis by (intro that) simp_all
next
  case False
  let ?d = "ext Io_get_error_string c"
  have apart: "set (trans_delay_rm ?d) \<inter> set (trans_ready ?d @ trans_pending ?d) = {}"
    using assms(2) by simp
  have d: "busy_at L ?d" using assms(1) by (simp add: busy_at_ext)
  have gr: "grows c ?d" by (rule grows_same) simp_all
  have "handle_failure L ty c =
      LM_conn_event_handle_conn_error L ty [] (set_error (M_io_get_error_string L (calls c)) ?d)"
    using False by (simp add: handle_failure_def)
  moreover obtain es c' where "LM_conn_event_handle_conn_error L ty []
      (set_error (M_io_get_error_string L (calls c)) ?d) = Some (es, c')"
    and "busy_at L c'" and "grows ?d c'" and "events_live c' es" and "told_once c' es"
    by (rule conn_error_message [OF busy_at_core(1,2,4) [OF d] events_live_Nil told_Nil(1) apart])
  ultimately show ?thesis using grows_trans [OF gr] by (intro that) simp_all
qed

section \<open>Readable\<close>

text \<open>
  The state between two messages: what waits to be freed is the answered ping.
\<close>

lemma note_done_total:
  assumes "busy_at L c" "delay_done c" "p \<in> set (trans_pending c)" "events_live c es"
    and told: "told_done c es" and d: "d = (completed L p data c)\<lparr>inbuf := ib\<rparr>"
  obtains es' c' where "note_done L (Some p) es d = Some (es', c')"
    and "busy_at L c'" and "delay_done c'" and "grows c c'" and "events_live c' es'"
    and "inbuf c' = ib" and "told_done c' es'"
proof -
  have c: "core_at L [Conn_lock] c" "ping_inv c" "in_use c" "core_inv L c"
    using assms(1) inv_at_core by (auto simp: busy_at_def inv_at_def lm_inv_def core_at_def)
  have core: "core_at L [Conn_lock] d"
    using completed_core [OF c(1) assms(3)] by (simp add: d core_at_def lm_inv_simps)
  obtain t where t: "txns c p = Some t" "status t = LM_TRANS_STATUS_PENDING"
    using core_inv_queue_status(3) [OF c(4) assms(3)] by (auto simp: status_is_def)
  have "grows c d = grows c (completed L p data c)" by (rule grows_cong) (simp_all add: d)
  with completed_grows [OF t(1)] have gr: "grows c d" by simp
  have dp: "txns d p = Some (complete_trans L data t)"
    by (simp add: d completed_def t)
  have st: "status_is (txns d) LM_TRANS_STATUS_DONE q" if "status_is (txns c) LM_TRANS_STATUS_DONE q" for q
    using that t by (auto simp: d completed_def status_is_Some)
  have done_d: "delay_done d"
    using assms(2) st by (auto simp: delay_done_def d completed_def)
  have live_d: "events_live d es" using assms(4) gr c(3) by (rule events_live_grows)
  have delay: "trans_delay_rm d = trans_delay_rm c" by (simp add: d completed_def)
  have new: "p \<notin> set (overs es)" "p \<notin> set (trans_delay_rm c)"
    using told assms(2) t by (auto simp: told_done_def delay_done_def status_is_Some)
  have told_d: "told_done d es" using told st by (simp add: told_done_def delay)
  show ?thesis
  proof (cases "pingtxn c = Some p")
    case True
    then have conn: "conn_status c = LM_CONN_STATUS_CONNECTING" and "timer c \<noteq> None"
      using c(2) assms(3) by (auto simp: ping_inv_def split: LM_conn_status_t.splits option.splits)
    then have ping: "p \<notin> set (trans_delay_rm c)"
      using c(2) True by (auto simp: ping_inv_def)
    have pre: "in_use d" "io d \<noteq> None"
      "\<And>q. pingtxn d = Some q \<Longrightarrow> live d q \<and> q \<notin> set (trans_delay_rm d)"
      using c conn ping True dp by (auto simp: d completed_def core_inv_def io_inv_def live_def)
    obtain c' where res: "LM_conn_event_set_connected L es d =
        Some (es @ [Entry LM_EVENT_CONN_CONNECTED None], c')"
      and busy: "busy_at L c'" and "conn_status c' = LM_CONN_STATUS_CONNECTED" and gr2: "grows d c'"
      and ib: "inbuf c' = inbuf d"
      and delay2: "trans_delay_rm c' = trans_delay_rm d @ (case pingtxn d of None \<Rightarrow> [] | Some p \<Rightarrow> [p])"
      and keep: "\<And>p. status_is (txns d) LM_TRANS_STATUS_DONE p \<Longrightarrow> status_is (txns c') LM_TRANS_STATUS_DONE p"
      using set_connected_total [OF core pre live_d] by blast
    have "pingtxn d = Some p" using True by (simp add: d completed_def)
    then have "note_done L (Some p) es d = Some (es @ [Entry LM_EVENT_CONN_CONNECTED None], c')"
      by (simp add: note_done_def res)
    moreover have "delay_done c'"
      using done_d keep dp \<open>pingtxn d = Some p\<close>
      by (auto simp: delay_done_def delay2 status_is_Some)
    moreover have "events_live c' (es @ [Entry LM_EVENT_CONN_CONNECTED None])"
      using events_live_grows [OF live_d gr2 pre(1)] by simp
    moreover have "inbuf c' = ib" by (simp add: ib d)
    moreover have "told_done c' (es @ [Entry LM_EVENT_CONN_CONNECTED None])"
      using told_d keep new(1) \<open>pingtxn d = Some p\<close> by (auto simp: told_done_def delay2)
    ultimately show ?thesis using busy grows_trans [OF gr gr2] by (intro that)
  next
    case False
    have up: "conn_status c \<noteq> LM_CONN_STATUS_DISCONNECTED" "conn_status c \<noteq> LM_CONN_STATUS_CONNECTING"
      using c(2) assms(3) False
      by (auto simp: ping_inv_def split: LM_conn_status_t.splits option.splits)
    then have none: "pingtxn c = None" "ping_inv d"
      using c(2) by (auto simp: ping_inv_def d completed_def split: LM_conn_status_t.splits)
    have inv: "inv_at L [Conn_lock] d" using core none(2) by (rule core_at_ping)
    define e where "e = (case timeout_timer t of None \<Rightarrow> lock_trans p d
      | Some h \<Rightarrow> (ext (Timer_remove (Some h)) (lock_trans p d))\<lparr>txns :=
          (txns d)(p \<mapsto> (complete_trans L data t)\<lparr>timeout_timer := None\<rparr>)\<rparr>)"
    have live_p: "live d p" using dp by (simp add: live_def)
    have wf: "trans_wf (complete_trans L data t)" using inv dp by (rule inv_at_wf)
    have l: "inv_at L [Trans_lock p, Conn_lock] (lock_trans p d)"
      using live_p inv by (rule inv_at_trans_lock)
    have "inv_at L [Trans_lock p, Conn_lock] e"
    proof (cases "timeout_timer t")
      case (Some h)
      have "inv_at L [Trans_lock p, Conn_lock] (ext (Timer_remove (Some h)) (lock_trans p d))"
        using l by (simp add: lm_inv_simps)
      from inv_at_update [OF this, of p "complete_trans L data t"
          "(complete_trans L data t)\<lparr>timeout_timer := None\<rparr>"] dp wf Some
      show ?thesis by (simp add: e_def)
    qed (use l in \<open>simp add: e_def\<close>)
    then have inv2: "inv_at L [Conn_lock] (unlock_trans p e)"
      by (intro inv_at_trans_lock(4)) (simp_all add: e_def live_def dp split: option.split)
    have frame: "in_use e = in_use c" "inbuf e = ib" "trans_delay_rm e = trans_delay_rm c"
      by (auto simp: e_def d completed_def split: option.split)
    have same: "status_is (txns e) = status_is (txns d)"
      using dp by (auto simp: e_def fun_eq_iff status_is_Some split: option.split)
    have live: "live e q = live d q" for q
      using dp by (auto simp: e_def live_def split: option.split)
    have "forward d (unlock_trans p e)"
    proof (rule forward_pointwise)
      show "next_ptr (unlock_trans p e) = next_ptr d" by (simp add: e_def split: option.split)
    qed (use dp in \<open>auto simp: e_def split: option.splits if_splits\<close>)
    moreover have "in_use d = in_use c" by (simp add: d completed_def)
    ultimately have "grows d (unlock_trans p e)"
      using frame(1) live by (simp add: grows_def live_def)
    with gr have gr2: "grows c (unlock_trans p e)" by (rule grows_trans)
    have "pingtxn d = None" using none by (simp add: d completed_def)
    then have "note_done L (Some p) es d =
        Some (es @ [Entry LM_EVENT_TRANS_DONE (Some p)], unlock_trans p e)"
      using dp live_p
      by (simp add: note_done_def LM_conn_event_add_def e_def Let_def split: option.split)
    moreover have "busy_at L (unlock_trans p e)"
      using inv2 frame(1) c(3) by (simp add: busy_at_def)
    moreover have "delay_done (unlock_trans p e)"
      using done_d by (simp add: delay_done_def same frame(3)) (simp add: d completed_def)
    moreover have "events_live (unlock_trans p e) (es @ [Entry LM_EVENT_TRANS_DONE (Some p)])"
      using live_d live live_p by (simp add: events_live_def live_def)
    moreover have "inbuf (unlock_trans p e) = ib" using frame(2) by simp
    moreover have "told_done (unlock_trans p e) (es @ [Entry LM_EVENT_TRANS_DONE (Some p)])"
      using told_d new dp by (auto simp: told_done_def same frame(3) delay status_is_Some)
    ultimately show ?thesis using gr2 by (intro that)
  qed
qed

lemma busy_at_simps:
  "busy_at L (c\<lparr>inbuf := x\<rparr>) = busy_at L c"
  "busy_at L (c\<lparr>outbuf := y\<rparr>) = busy_at L c"
  by (simp_all add: busy_at_def inv_at_def lm_inv_def lm_inv_simps)

text \<open>The loop over the messages ends: every message it takes leaves a shorter input.\<close>

lemma read_loop_total:
  assumes "busy_at L c" "delay_done c" "events_live c es" "told_done c es"
  shows "\<exists>err es' c'. read_loop L tp es c = Some (err, es', c') \<and> busy_at L c' \<and> grows c c' \<and>
           events_live c' es' \<and> delay_done c' \<and> told_done c' es'"
  using assms
proof (induction "length (p_rest (inbuf c))" arbitrary: c tp es rule: less_induct)
  case less
  have core: "core_inv L c"
    using less.prems(1) by (simp add: busy_at_def inv_at_def lm_inv_def)
  from parse_buffer_total [OF core less.prems(2), of tp] show ?case
  proof (elim disjE exE conjE)
    fix err tp' ib
    assume "LM_conn_parse_trans_buffer L tp c = Some (err, tp', c\<lparr>inbuf := ib\<rparr>)"
      and "err \<noteq> LM_CONN_PARSE_ERROR_SUCCESS"
    then have "read_loop L tp es c = Some (err, es, c\<lparr>inbuf := ib\<rparr>)"
      by (subst read_loop.simps) simp
    moreover have "busy_at L (c\<lparr>inbuf := ib\<rparr>)" using less.prems(1) by (simp add: busy_at_simps)
    moreover have "grows c (c\<lparr>inbuf := ib\<rparr>)" by (rule grows_same) simp_all
    moreover have "events_live (c\<lparr>inbuf := ib\<rparr>) es"
      using less.prems(3) by (simp add: events_live_def live_def)
    moreover have "delay_done (c\<lparr>inbuf := ib\<rparr>)" "told_done (c\<lparr>inbuf := ib\<rparr>) es"
      using less.prems(2,4) by (simp_all add: delay_done_def told_done_def)
    ultimately show ?thesis by blast
  next
    fix p data ib
    assume parse: "LM_conn_parse_trans_buffer L tp c =
        Some (LM_CONN_PARSE_ERROR_SUCCESS, Some p, (completed L p data c)\<lparr>inbuf := ib\<rparr>)"
      and p: "p \<in> set (trans_pending c)" and shorter: "length (p_rest ib) < length (p_rest (inbuf c))"
    obtain es1 c1 where note_d: "note_done L (Some p) es ((completed L p data c)\<lparr>inbuf := ib\<rparr>) = Some (es1, c1)"
      and c1: "busy_at L c1" "delay_done c1" "grows c c1" "events_live c1 es1" "inbuf c1 = ib"
        "told_done c1 es1"
      using note_done_total [OF less.prems(1,2) p less.prems(3,4) refl] by blast
    have step: "read_loop L tp es c = read_loop L (Some p) es1 c1"
      by (subst read_loop.simps) (simp add: parse note_d)
    obtain err es' c' where "read_loop L (Some p) es1 c1 = Some (err, es', c')" "busy_at L c'"
      "grows c1 c'" "events_live c' es'" "delay_done c'" "told_done c' es'"
      using less.hyps [of c1 es1 "Some p"] shorter c1 by auto
    with step grows_trans [OF c1(3)] show ?thesis by auto
  qed
qed

lemma handle_read_total:
  assumes "busy_at L c" "trans_delay_rm c = []"
  obtains es c' where "handle_read L c = Some (es, c')"
    and "busy_at L c'" and "grows c c'" and "events_live c' es" and "told_once c' es"
proof -
  obtain ok ib where rd: "M_io_read_into_parser L (calls c) (inbuf c) = (ok, ib)" by fastforce
  define d where "d = (ext Io_read_into_parser c)\<lparr>inbuf := ib\<rparr>"
  have d: "busy_at L d" "delay_done d" "grows c d"
    using assms by (auto simp: d_def busy_at_simps busy_at_ext delay_done_def intro: grows_same)
  show ?thesis
  proof (cases ok)
    case False
    then have "handle_read L c = Some ([], d)" by (simp add: handle_read_def rd d_def)
    then show ?thesis using d by (intro that [OF _ _ _ events_live_Nil told_Nil(2)])
  next
    case True
    obtain err es e where loop: "read_loop L None [] d = Some (err, es, e)"
      and e: "busy_at L e" "grows d e" "events_live e es" "delay_done e" "told_done e es"
      using read_loop_total [OF d(1,2) events_live_Nil told_Nil(1)] by blast
    define f where "f = (if M_queue_len L (trans_pending e) = 0
      then ext (Timer_reset (timer e) (idle_timeout e * 1000)) e else e)"
    have "grows e f" by (rule grows_same) (simp_all add: f_def)
    then have f: "busy_at L f" "grows d f" "events_live f es"
      using e grows_trans [OF e(2)] by (auto simp: f_def busy_at_ext events_live_def)
    have told: "told_done f es" and "delay_done f"
      using e by (auto simp: f_def told_done_def delay_done_def)
    have core: "core_inv L f" using f(1) by (simp add: busy_at_def inv_at_def lm_inv_def)
    have apart: "set (trans_delay_rm f) \<inter> set (trans_ready f @ trans_pending f) = {}"
      using \<open>delay_done f\<close> core_inv_queue_status(2,3) [OF core]
      by (fastforce simp: delay_done_def status_is_def)
    show ?thesis
    proof (cases "err = LM_CONN_PARSE_ERROR_ERROR")
      case False
      then have "handle_read L c = Some (es, f)"
        using True by (simp add: handle_read_def rd f_def loop flip: d_def)
      then show ?thesis using f grows_trans [OF d(3)] told_done_once [OF core told] by (intro that)
    next
      case err: True
      let ?g = "set_error ''Invalid response format received. Disconnect.'' f"
      obtain es' c' where res: "LM_conn_event_handle_conn_error L M_EVENT_TYPE_ERROR es ?g = Some (es', c')"
        and c': "busy_at L c'" "grows f c'" "events_live c' es'" "told_once c' es'"
        by (rule conn_error_message [OF busy_at_core(1,2,4) [OF f(1)] f(3) told apart])
      have "handle_read L c = Some (es', c')"
        using True err res by (simp add: handle_read_def rd f_def loop flip: d_def)
      moreover have "grows c c'" using d(3) f(2) c'(2) grows_trans by blast
      ultimately show ?thesis using c' by (intro that)
    qed
  qed
qed

section \<open>Writable\<close>

lemma handle_write_total:
  assumes "busy_at L c"
  obtains c' where "handle_write L c = Some ([], c')" and "busy_at L c'" and "grows c c'"
proof (cases "M_buf_len L (outbuf c) = 0")
  case True
  with assms show ?thesis by (intro that [of c]) (simp_all add: handle_write_def)
next
  case False
  let ?d = "(ext (Io_write_from_buf (outbuf c)) c)
              \<lparr>outbuf := M_io_write_from_buf L (calls c) (outbuf c)\<rparr>"
  have "handle_write L c = Some ([], ?d)" using False by (simp add: handle_write_def)
  moreover have "busy_at L ?d" using assms by (simp add: busy_at_simps busy_at_ext)
  moreover have "grows c ?d" by (rule grows_same) simp_all
  ultimately show ?thesis by (rule that)
qed

section \<open>Timers\<close>

lemma handle_timeout_total:
  assumes "busy_at L c" "live c p"
  obtains es c' where "handle_other L (Some p) c = Some (es, c')"
    and "busy_at L c'" and "grows c c'" and "events_live c' es" and "told_once c' es"
proof -
  have inv: "inv_at L [Conn_lock] c" using assms(1) by (simp add: busy_at_def)
  obtain t where t: "txns c p = Some t" using assms(2) by (rule liveE)
  define d where "d = (ext (Timer_remove (timeout_timer t)) (lock_trans p c))
    \<lparr>txns := (txns c)(p \<mapsto> t\<lparr>timeout_timer := None\<rparr>)\<rparr>"
  have l: "inv_at L [Trans_lock p, Conn_lock] (ext (Timer_remove (timeout_timer t)) (lock_trans p c))"
    using inv_at_trans_lock(3) [OF assms(2) inv] by (simp add: lm_inv_simps)
  have d: "inv_at L [Trans_lock p, Conn_lock] d"
    using inv_at_update [OF l, of p t "t\<lparr>timeout_timer := None\<rparr>"] t inv_at_wf [OF inv t]
    by (simp add: d_def)
  have "inv_at L [Conn_lock] (unlock_trans p d)"
    by (rule inv_at_trans_lock(4) [OF _ d]) (simp add: d_def live_def)
  then have "busy_at L (unlock_trans p d)"
    using assms(1) by (simp add: busy_at_def) (simp add: d_def)
  moreover have "handle_other L (Some p) c = Some ([Entry LM_EVENT_TRANS_TIMEOUT (Some p)], unlock_trans p d)"
    using t by (simp add: handle_other_def LM_conn_event_add_def d_def Let_def)
  moreover have "grows c (unlock_trans p d)" by 
    (rule grows_upd [where p = p and t = t and t' = "t\<lparr>timeout_timer := None\<rparr>"]) (use t in \<open>simp_all add: d_def\<close>)
  moreover have "events_live (unlock_trans p d) [Entry LM_EVENT_TRANS_TIMEOUT (Some p)]"
    by (simp add: events_live_def live_def d_def)
  moreover have "told_once (unlock_trans p d) [Entry LM_EVENT_TRANS_TIMEOUT (Some p)]"
    by (simp add: told_once_def)
  ultimately show ?thesis by (intro that)
qed

lemma timer_removed:
  assumes "busy_at L c" "conn_status c \<noteq> LM_CONN_STATUS_CONNECTING"
  shows "busy_at L (if timer c \<noteq> None then event_timer_remove c else c)"
    and "grows c (if timer c \<noteq> None then event_timer_remove c else c)"
proof -
  have "inv_at L [Conn_lock] (event_timer_remove c)"
    using assms
    by (cases "conn_status c")
      (simp_all add: busy_at_def inv_at_def lm_inv_def event_timer_remove_def lm_inv_simps ping_inv_def)
  then show "busy_at L (if timer c \<noteq> None then event_timer_remove c else c)"
    using assms(1) by (simp add: busy_at_def) (simp add: event_timer_remove_def)
  show "grows c (if timer c \<noteq> None then event_timer_remove c else c)"
    by (rule grows_same) (simp_all add: event_timer_remove_def)
qed

lemma handle_timer_total:
  assumes "busy_at L c" "timer c \<noteq> None" "trans_delay_rm c = []"
  obtains es c' where "handle_other L None c = Some (es, c')"
    and "busy_at L c'" and "grows c c'" and "events_live c' es" and "told_once c' es"
proof (cases "conn_status c = LM_CONN_STATUS_CONNECTING")
  case True
  have pre: "\<And>p. pingtxn c = Some p \<Longrightarrow> live c p \<and> p \<notin> set (trans_delay_rm c)"
    using busy_at_core(1,3) [OF assms(1)] True assms(2)
    by (auto simp: ping_inv_def core_at_def core_inv_def queue_inv_def status_is_def live_def)
  obtain d h ps cs where d: "LM_conn_cleanup_ping L c = d"
    and d_eq: "d = c\<lparr>timer := None, pingtxn := None, txns := h, trans_delay_rm := trans_delay_rm c @ ps,
               trans_pending := filter (\<lambda>p. p \<notin> set ps) (trans_pending c), calls := cs\<rparr>"
    and ps: "ps = (case pingtxn c of None \<Rightarrow> [] | Some p \<Rightarrow> [p])"
    and core: "core_at L [Conn_lock] d" and gr: "grows c d"
    and "delivered_rev cs = delivered_rev (calls c)"
    and "status_is h = status_is (txns c)"
    by (rule cleanup_ping_result [OF busy_at_core(1,2) [OF assms(1)] pre])
  have "set ps \<inter> set (trans_ready c) = {}"
  proof -
    have "core_inv L c" using busy_at_core(1) [OF assms(1)] by (simp add: core_at_def)
    moreover have "p \<in> set (trans_pending c)" if "p \<in> set ps" for p
      using that True assms(2) busy_at_core(3) [OF assms(1)]
      by (auto simp: ps ping_inv_def split: option.splits)
    ultimately show ?thesis
      using core_inv_queue_status(2,3) [of L c] by (fastforce simp: status_is_def)
  qed
  then have apart: "set (trans_delay_rm d) \<inter> set (trans_ready d @ trans_pending d) = {}"
    using assms(3) by (auto simp: d_eq)
  have busy: "in_use d" and none: "pingtxn d \<noteq> None \<Longrightarrow> \<not> disable_ping d"
    using busy_at_core(2) [OF assms(1)] by (simp_all add: d_eq)
  let ?e = "set_error ''Failed to receive reply to PING request'' d"
  obtain es c' where res: "LM_conn_event_handle_conn_error L M_EVENT_TYPE_ERROR [] ?e = Some (es, c')"
    and c': "busy_at L c'" "grows d c'" "events_live c' es" "told_once c' es" "timer c' = None"
    by (rule conn_error_message [OF core busy none events_live_Nil told_Nil(1) apart])
  have "handle_other L None c = Some (es, c')"
    using True c'(5) by (simp add: handle_other_def d res Let_def)
  then show ?thesis using c' grows_trans [OF gr] by (intro that)
next
  case False
  define d where "d = (if conn_status c = LM_CONN_STATUS_CONNECTED \<and> trans_pending c = []
    then (snd (LM_conn_disconnect_connlocked c))\<lparr>conn_status := LM_CONN_STATUS_IDLE_TIMEOUT\<rparr> else c)"
  have d: "busy_at L d \<and> grows c d \<and> conn_status d \<noteq> LM_CONN_STATUS_CONNECTING"
  proof (cases "conn_status c = LM_CONN_STATUS_CONNECTED \<and> trans_pending c = []")
    case True
    then have "io c \<noteq> None"
      using busy_at_core(1) [OF assms(1)] by (simp add: core_at_def core_inv_def io_inv_def)
    then obtain h where h: "io c = Some h" by auto
    with True have eq: "d = (ext (Io_disconnect h) c)\<lparr>conn_status := LM_CONN_STATUS_IDLE_TIMEOUT\<rparr>"
      by (simp add: d_def LM_conn_disconnect_connlocked_def)
    have "core_inv L d"
      unfolding eq using busy_at_core(1) [OF assms(1)] h
      by (intro core_inv_status) (simp_all add: core_at_def lm_inv_simps)
    moreover have "ping_inv d"
      using busy_at_core(3) [OF assms(1)] True by (simp add: eq ping_inv_up)
    ultimately have "busy_at L d"
      using busy_at_core(1,2) [OF assms(1)]
      by (simp add: busy_at_def inv_at_def lm_inv_def) (simp add: eq core_at_def)
    moreover have "grows c d" by (rule grows_same) (simp_all add: eq)
    ultimately show ?thesis by (simp add: eq)
  next
    case False
    then have "d = c" by (auto simp: d_def)
    with assms(1) \<open>conn_status c \<noteq> LM_CONN_STATUS_CONNECTING\<close> show ?thesis by simp
  qed
  have "handle_other L None c = Some ([], if timer d \<noteq> None then event_timer_remove d else d)"
    using False by (auto simp: handle_other_def d_def Let_def split_beta)
  then show ?thesis
    using timer_removed [of d] d grows_trans [of c d] by (intro that [OF _ _ _ events_live_Nil told_Nil(2)]) auto
qed

end

section \<open>Any event\<close>

text \<open>
  The events that can arrive. The socket's events come from a socket that exists;
  \<open>CONNECTED\<close> comes once, before the ping timer is started. A timer event comes from a timer
  that exists: the connection's own, or that of a transaction that has not been freed (freeing
  it removes its timer).
\<close>

definition event_ok :: "LM_conn \<Rightarrow> M_event_type \<Rightarrow> ptr option \<Rightarrow> bool" where
  "event_ok c ty event_trans \<longleftrightarrow>
     \<not> conn_freed c \<and>
     (case event_trans of
        Some p \<Rightarrow> ty = M_EVENT_TYPE_OTHER \<and> live c p
      | None \<Rightarrow>
          (case ty of
             M_EVENT_TYPE_CONNECTED \<Rightarrow>
               conn_status c = LM_CONN_STATUS_CONNECTING \<and> timer c = None \<and> ids_left c
           | M_EVENT_TYPE_OTHER \<Rightarrow> timer c \<noteq> None
           | _ \<Rightarrow> io c \<noteq> None))"

context mstd_rand_api
begin

lemma handle_event_total:
  assumes "busy_at L c" "event_ok c ty event_trans" "trans_delay_rm c = []"
  obtains es c' where "handle_event L ty event_trans c = Some (es, c')"
    and "busy_at L c'" and "grows c c'" and "events_live c' es" and "told_once c' es"
proof (cases event_trans)
  case (Some p)
  with assms(2) have "ty = M_EVENT_TYPE_OTHER" "live c p" by (simp_all add: event_ok_def)
  with handle_timeout_total [OF assms(1)] Some that show ?thesis
    by (simp add: handle_event_def) blast
next
  case None
  show ?thesis
  proof (cases ty)
    case M_EVENT_TYPE_CONNECTED
    with None assms(2) have "conn_status c = LM_CONN_STATUS_CONNECTING" "timer c = None" "ids_left c"
      by (simp_all add: event_ok_def)
    from handle_connected_total [OF assms(1) this] M_EVENT_TYPE_CONNECTED that show ?thesis
      by (simp add: handle_event_def) blast
  next
    case M_EVENT_TYPE_ACCEPT
    with assms(1) that [of "[]" c] show ?thesis by (simp add: handle_event_def)
  next
    case M_EVENT_TYPE_READ
    from handle_read_total [OF assms(1,3)] M_EVENT_TYPE_READ that show ?thesis
      by (simp add: handle_event_def) blast
  next
    case M_EVENT_TYPE_WRITE
    from handle_write_total [OF assms(1)] M_EVENT_TYPE_WRITE that [OF _ _ _ events_live_Nil told_Nil(2)] show ?thesis
      by (simp add: handle_event_def) blast
  next
    case M_EVENT_TYPE_DISCONNECTED
    from handle_failure_total [OF assms(1,3)] M_EVENT_TYPE_DISCONNECTED that show ?thesis
      by (simp add: handle_event_def) blast
  next
    case M_EVENT_TYPE_ERROR
    from handle_failure_total [OF assms(1,3)] M_EVENT_TYPE_ERROR that show ?thesis
      by (simp add: handle_event_def) blast
  next
    case M_EVENT_TYPE_OTHER
    with None assms(2) have "timer c \<noteq> None" by (simp add: event_ok_def)
    from handle_timer_total [OF assms(1) this assms(3)] M_EVENT_TYPE_OTHER None that show ?thesis
      by (simp add: handle_event_def) blast
  qed
qed

section \<open>Delivery\<close>

lemma destroy_is_set_inv:
  assumes "inv_at L [] c"
  shows "inv_at L [] (snd (LM_conn_destroy_is_set c))" "grows c (snd (LM_conn_destroy_is_set c))"
    "fst (LM_conn_destroy_is_set c) = destroy c"
proof -
  show "inv_at L [] (snd (LM_conn_destroy_is_set c))"
    using inv_at_lock(2) [OF inv_at_lock(1) [OF assms]]
    by (simp add: LM_conn_destroy_is_set_def Let_def)
  show "grows c (snd (LM_conn_destroy_is_set c))"
    by (rule grows_same) (simp_all add: LM_conn_destroy_is_set_def Let_def)
  show "fst (LM_conn_destroy_is_set c) = destroy c"
    by (simp add: LM_conn_destroy_is_set_def Let_def)
qed

lemma deliver_total:
  assumes "inv_at L [] c" "in_use c" "callback_ok L cb"
  shows "\<exists>c'. deliver L cb es c = Some c' \<and> inv_at L [] c' \<and> in_use c' \<and> grows c c'"
  using assms(1,2)
proof (induction es arbitrary: c)
  case Nil
  then have "deliver L cb [] c = Some c" by (subst deliver.simps) simp
  with Nil show ?case by simp
next
  case (Cons e es)
  let ?d = "ext (Event_callback (ev_type e) (ev_trans e)) c"
  have d: "inv_at L [] ?d \<and> in_use ?d" using Cons.prems by (simp add: lm_inv_simps)
  have "steps_ok (run_call L) may_call ?d (cb (ev_type e) (ev_trans e) ?d)"
    using assms(3) by (simp add: callback_ok_def calls_ok_def)
  from busy_client.run_total [OF d this]
  obtain f where f: "run_calls L (cb (ev_type e) (ev_trans e) ?d) ?d = Some f"
    "inv_at L [] f" "in_use f" "grows ?d f" by (auto simp: run_calls_def)
  obtain stop g where g: "LM_conn_destroy_is_set f = (stop, g)" by fastforce
  have g2: "inv_at L [] g" "grows f g" using destroy_is_set_inv [OF f(2)] g by simp_all
  have step: "deliver L cb (e # es) c = (if stop then Some g else deliver L cb es g)"
    by (subst deliver.simps) (simp add: f(1) g Let_def)
  have "grows c ?d" by (rule grows_same) simp_all
  then have gr: "grows c g" using grows_trans f(4) g2(2) by blast
  have use: "in_use g" using g2(2) f(3) by (simp add: grows_def)
  show ?case
  proof (cases stop)
    case True
    then show ?thesis using step g2(1) gr use by simp
  next
    case False
    from Cons.IH [OF g2(1) use] obtain c' where "deliver L cb es g = Some c'" "inv_at L [] c'"
      "in_use c'" "grows g c'" by blast
    with False step gr grows_trans show ?thesis by auto
  qed
qed

section \<open>The end of an event\<close>

text \<open>Everything the client deleted meanwhile is freed; the loop ends.\<close>

lemma delay_rm_loop_total:
  assumes "inv_at L [Conn_lock] c"
  shows "\<exists>c'. delay_rm_loop L c = Some c' \<and> inv_at L [Conn_lock] c' \<and> trans_delay_rm c' = [] \<and>
           in_use c' = in_use c \<and> forward c c'"
  using assms
proof (induction "trans_delay_rm c" arbitrary: c)
  case Nil
  then have "delay_rm_loop L c = Some c" by (subst delay_rm_loop.simps) simp
  with Nil show ?case by simp
next
  case (Cons p q)
  have rq: "trans_delay_rm c = p # q" using Cons.hyps(2) by simp
  have c: "core_inv L c" "ping_inv c" using Cons.prems by (simp_all add: inv_at_def lm_inv_def)
  have live: "live c p" using c(1) rq by (simp add: core_inv_def delay_inv_def)
  then obtain t where t: "txns c p = Some t" by (rule liveE)
  let ?d = "c\<lparr>trans_delay_rm := remove1 p (trans_delay_rm c)\<rparr>"
  let ?e = "LM_trans_delete_unlocked L (Some p) ?d"
  have ping: "p \<notin> set (trans_pending c)" if "pingtxn c = Some p"
    using c(2) that rq by (auto simp: ping_inv_def split: LM_conn_status_t.splits option.splits)
  have inv: "inv_at L [Conn_lock] ?e"
    using Cons.prems live ping by (intro delete_unlocked_at) simp_all
  have frame: "trans_delay_rm ?e = q" "in_use ?e = in_use c"
    unfolding delete_unlocked_eq [OF c(1) t refl] by (simp_all add: rq)
  have fwd: "forward c ?e"
    unfolding delete_unlocked_eq [OF c(1) t refl]
    by (rule forward_pointwise) (auto split: if_splits)
  have step: "delay_rm_loop L c = delay_rm_loop L ?e"
    by (subst delay_rm_loop.simps) (simp add: rq)
  from Cons.hyps(1) [of ?e] inv frame step forward_trans [OF fwd] show ?case by auto
qed

lemma release_inv:
  assumes "inv_at L hs c" "trans_delay_rm c = []"
  shows "inv_at L hs (c\<lparr>in_use := False\<rparr>)"
  using assms
  by (simp add: inv_at_def lm_inv_def lm_inv_simps core_inv_def queue_inv_def delay_inv_def
      map_inv_def heap_inv_def io_inv_def queues_def live_def)

lemma finish_event_total:
  assumes "inv_at L [] c"
  obtains c' where "finish_event L c = Some c'" and "client_inv L c'" and "\<not> in_use c'"
    and "conn_freed c' \<or> \<not> destroy c'" and "forward c c'"
proof -
  obtain d where d: "delay_rm_loop L (lock_conn c) = Some d" "inv_at L [Conn_lock] d"
    "trans_delay_rm d = []" "forward (lock_conn c) d"
    using delay_rm_loop_total [OF inv_at_lock(1) [OF assms]] by auto
  define e where "e = unlock_conn (d\<lparr>in_use := False\<rparr>)"
  have e: "inv_at L [] e" "\<not> in_use e"
    using inv_at_lock(2) [OF release_inv [OF d(2,3)]] by (simp_all add: e_def)
  define f where "f = (if conn_status d = LM_CONN_STATUS_DISCONNECTED \<and> trans_ready d \<noteq> []
    then snd (LM_conn_connect L CONN e) else e)"
  have ef: "forward e f" using conn_ops_grow(1) [of e L CONN] by (simp add: f_def grows_def)
  have "forward c (lock_conn c)" "forward d e" by (rule forward_same; simp add: e_def)+
  then have cf: "forward c f" using d(4) ef forward_trans by blast
  have f: "inv_at L [] f" "\<not> in_use f"
    using e LM_conn_connect_inv [OF e(1), of CONN] conn_ops_grow(1) [of e L CONN]
    by (auto simp: f_def grows_def)
  obtain stop g where g: "LM_conn_destroy_is_set f = (stop, g)" by fastforce
  have g2: "inv_at L [] g" "\<not> in_use g" "stop = destroy f" "forward f g"
    using destroy_is_set_inv [OF f(1)] g f(2) by (auto simp: grows_def)
  have dg: "destroy g = destroy f" using g by (auto simp: LM_conn_destroy_is_set_def Let_def)
  have "finish_event L c = (case LM_conn_destroy_is_set f of
      (stop, c) \<Rightarrow> Some (if stop then LM_conn_destroy L CONN c else c))"
    using d by (simp add: finish_event_def f_def e_def Let_def)
  then have "finish_event L c = Some (if stop then LM_conn_destroy L CONN g else g)"
    using g by simp
  moreover have "client_inv L (if stop then LM_conn_destroy L CONN g else g)"
    "\<not> in_use (if stop then LM_conn_destroy L CONN g else g)"
    "conn_freed (if stop then LM_conn_destroy L CONN g else g) \<or>
     \<not> destroy (if stop then LM_conn_destroy L CONN g else g)"
    using g2 dg conn_destroy_idle [OF g2(1,2)] by (auto simp: client_inv_def freed_at_def)
  moreover have "forward c (if stop then LM_conn_destroy L CONN g else g)"
    using forward_trans [OF forward_trans [OF cf g2(4)]] conn_destroy_idle(3) [OF g2(1,2)]
      forward_trans [OF cf g2(4)] by (simp add: grows_def)
  ultimately show ?thesis by (rule that)
qed

end

section \<open>The handler\<close>

text \<open>The state in which the events go to the client: nothing is locked, the handler is active.\<close>

definition held :: "mstd \<Rightarrow> LM_conn \<Rightarrow> bool" where
  "held L c \<longleftrightarrow> inv_at L [] c \<and> in_use c"

context mstd_rand_api
begin

lemma handled:
  assumes "client_inv L c" "\<not> in_use c" "event_ok c ty event_trans"
  obtains es e where "handle_event L ty event_trans ((lock_conn c)\<lparr>in_use := True\<rparr>) = Some (es, e)"
    and "held L (unlock_conn e)" and "told_once (unlock_conn e) es" and "events_live (unlock_conn e) es"
    and "forward c (unlock_conn e)"
proof -
  have inv: "inv_at L [] c"
    using assms(1,3) by (auto simp: client_inv_def event_ok_def freed_at_def)
  let ?d = "(lock_conn c)\<lparr>in_use := True\<rparr>"
  have delay: "trans_delay_rm c = []"
    using inv assms(2) by (simp add: inv_at_def lm_inv_def core_inv_def delay_inv_def)
  have "inv_at L [Conn_lock] ?d"
    using inv_at_lock(1) [OF inv] delay
    by (simp add: inv_at_def lm_inv_def lm_inv_simps core_inv_def queue_inv_def delay_inv_def
        map_inv_def heap_inv_def io_inv_def queues_def live_def)
  then have d: "busy_at L ?d" by (simp add: busy_at_def)
  have ok: "event_ok ?d ty event_trans"
    using assms(3) by (simp add: event_ok_def live_def ids_left_def queues_def split: option.splits
        M_event_type.splits)
  have delay_d: "trans_delay_rm ?d = []" using delay by simp
  obtain es e where e: "handle_event L ty event_trans ?d = Some (es, e)"
    and "busy_at L e" "grows ?d e" "told_once e es" "events_live e es"
    by (rule handle_event_total [OF d ok delay_d])
  moreover from this have "held L (unlock_conn e)" "told_once (unlock_conn e) es"
    "events_live (unlock_conn e) es"
    using inv_at_lock(2)
    by (simp_all add: busy_at_def held_def told_once_def usable_def events_live_def live_def)
  moreover have "forward c ?d" "forward e (unlock_conn e)" by (rule forward_same; simp)+
  then have "forward c (unlock_conn e)"
    using \<open>grows ?d e\<close> by (meson forward_trans grows_def)
  ultimately show ?thesis by (intro that)
qed

theorem event_handler_total:
  assumes "client_inv L c" "\<not> in_use c" "event_ok c ty event_trans" "callback_ok L cb"
  obtains c' where "LM_conntrans_event_handler L cb ty event_trans c = Some c'"
    and "client_inv L c'" and "\<not> in_use c'" and "conn_freed c' \<or> \<not> destroy c'"
    and "forward c c'"
proof -
  obtain es e where e: "handle_event L ty event_trans ((lock_conn c)\<lparr>in_use := True\<rparr>) = Some (es, e)"
    and u: "inv_at L [] (unlock_conn e)" "in_use (unlock_conn e)" and ce: "forward c (unlock_conn e)"
    using handled [OF assms(1-3)] by (metis held_def)
  obtain f where f: "deliver L cb es (unlock_conn e) = Some f" "inv_at L [] f"
    "grows (unlock_conn e) f"
    using deliver_total [OF u assms(4)] by blast
  have cf: "forward c f" using ce f(3) forward_trans by (auto simp: grows_def)
  obtain c' where "finish_event L f = Some c'" "client_inv L c'" "\<not> in_use c'"
    "conn_freed c' \<or> \<not> destroy c'" and "forward c c'"
    using finish_event_total [OF f(2)] forward_trans [OF cf] by metis
  moreover from this have "LM_conntrans_event_handler L cb ty event_trans c = Some c'"
    by (simp add: LM_conntrans_event_handler_def e f Let_def)
  ultimately show ?thesis by (intro that)
qed

end

end
