(* ===== verification/Mstdlib_Ref.thy ===== *)
theory Mstdlib_Ref
  imports Mstdlib
begin

text \<open>
  An executable library with the documented behaviour: the contract of \<open>Mstdlib\<close> can be met,
  and the theorems about the program apply to concrete runs. \<open>input\<close> is what each read from
  the socket delivers; connecting and writing succeed.
\<close>

section \<open>Strings\<close>

definition str_of :: "cstr \<Rightarrow> string" where
  "str_of s = (case s of None \<Rightarrow> [] | Some t \<Rightarrow> t)"

definition is_space :: "char \<Rightarrow> bool" where
  "is_space ch \<longleftrightarrow> ch = CHR '' '' \<or> ch = CHR 0x09 \<or> ch = CHR 0x0A \<or> ch = CHR 0x0D"

definition trim :: "string \<Rightarrow> string" where
  "trim s = rev (dropWhile is_space (rev (dropWhile is_space s)))"

text \<open>
  Splitting at a delimiter that is not between quotes, into at most \<open>n\<close> parts (0: any number).
  A doubled quote opens and closes, so it does not end a quoted section.
\<close>

fun split_quoted :: "char \<Rightarrow> char \<Rightarrow> nat \<Rightarrow> bool \<Rightarrow> string \<Rightarrow> string \<Rightarrow> string list" where
  "split_quoted d q n inq acc [] = [acc]"
| "split_quoted d q n inq acc (b # bs) =
     (if b = q then split_quoted d q n (\<not> inq) (acc @ [b]) bs
      else if b = d \<and> \<not> inq \<and> n \<noteq> 1 then acc # split_quoted d q (n - 1) False [] bs
      else split_quoted d q n inq (acc @ [b]) bs)"

section \<open>Tables\<close>

definition id_get :: "id_map \<Rightarrow> u64 \<Rightarrow> ptr option" where
  "id_get m k = map_of m k"

definition id_remove :: "id_map \<Rightarrow> u64 \<Rightarrow> id_map" where
  "id_remove m k = filter (\<lambda>e. fst e \<noteq> k) m"

definition id_insert :: "id_map \<Rightarrow> u64 \<Rightarrow> ptr \<Rightarrow> id_map" where
  "id_insert m k p = (k, p) # id_remove m k"

fun dict_insert :: "dict \<Rightarrow> string \<Rightarrow> cstr \<Rightarrow> dict" where
  "dict_insert [] k v = [(k, v)]"
| "dict_insert ((k', v') # d) k v =
     (if lowers k' = lowers k then (k, v) # d else (k', v') # dict_insert d k v)"

fun dict_get :: "dict \<Rightarrow> string \<Rightarrow> cstr" where
  "dict_get [] k = None"
| "dict_get ((k', v') # d) k = (if lowers k' = lowers k then v' else dict_get d k)"

definition dict_of :: "dict option \<Rightarrow> dict" where
  "dict_of d = (case d of None \<Rightarrow> [] | Some d \<Rightarrow> d)"

fun dict_serialize :: "dict \<Rightarrow> string" where
  "dict_serialize [] = []"
| "dict_serialize ((k, v) # d) = k @ ''='' @ str_of v @ [CHR 0x0A] @ dict_serialize d"

section \<open>Parsers\<close>

definition ref_read_uint :: "parser \<Rightarrow> (u64 \<times> parser) option" where
  "ref_read_uint p =
     (let ds = takeWhile is_digit (p_rest p) in
      if ds = [] \<or> 2 ^ 64 \<le> undecimal ds then None
      else Some (of_nat (undecimal ds), p\<lparr>p_rest := dropWhile is_digit (p_rest p)\<rparr>))"

definition ref_consume_until :: "parser \<Rightarrow> char \<Rightarrow> nat \<times> parser" where
  "ref_consume_until p ch =
     (if ch \<in> set (p_rest p) then
        let pre = takeWhile (\<lambda>b. b \<noteq> ch) (p_rest p) in
        (Suc (length pre),
         \<lparr>p_mark = map_option (\<lambda>m. m @ pre @ [ch]) (p_mark p),
          p_rest = drop (Suc (length pre)) (p_rest p)\<rparr>)
      else (0, p))"

section \<open>Tabular data\<close>

definition ref_cellbynum :: "csv \<Rightarrow> u64 \<Rightarrow> u64 \<Rightarrow> cstr" where
  "ref_cellbynum x r k =
     (if Suc (unat r) < length x \<and> unat k < length (x ! Suc (unat r))
      then Some (x ! Suc (unat r) ! unat k) else None)"

fun find_col :: "string list \<Rightarrow> string \<Rightarrow> nat option" where
  "find_col [] h = None"
| "find_col (g # gs) h = (if lowers g = lowers h then Some 0 else map_option Suc (find_col gs h))"

section \<open>The library\<close>

definition draws :: "call list \<Rightarrow> nat" where
  "draws cs = length (filter (\<lambda>x. case x of Rand_range _ _ \<Rightarrow> True | _ \<Rightarrow> False) cs)"

definition ref_rand :: "call list \<Rightarrow> u64 \<Rightarrow> u64 \<Rightarrow> u64" where
  "ref_rand cs lo hi = (if lo < hi then lo + of_nat (draws cs mod unat (hi - lo)) else lo)"

definition mstd_ref :: "string \<Rightarrow> mstd" where
  "mstd_ref input =
     \<lparr>M_str_isempty = (\<lambda>s. s = None \<or> s = Some []),
      M_str_eq = (\<lambda>a b. str_of a = str_of b),
      M_str_caseeq = (\<lambda>a b. lowers (str_of a) = lowers (str_of b)),
      M_str_trim = trim,
      M_chr_isalnumsp = is_alnum_sp,
      M_str_explode_quoted = (\<lambda>d s q e n. Some (split_quoted d q n False [] s)),
      M_str_explode_str_quoted = (\<lambda>d s q e n. Some (split_quoted d q n False [] s)),
      M_str_to_int32 = (\<lambda>s. int (undecimal (takeWhile is_digit s))),
      M_str_to_int64 = (\<lambda>s. int (undecimal (takeWhile is_digit s))),
      M_bincodec_encode = Some,
      M_bincodec_decode = Some,
      M_queue_len = length,
      M_queue_insert = (\<lambda>q x. if x \<in> set q then q else q @ [x]),
      M_queue_take = (\<lambda>q x. remove1 x q),
      M_queue_take_first = (\<lambda>q. case q of [] \<Rightarrow> (None, []) | y # ys \<Rightarrow> (Some y, ys)),
      M_queue_foreach = (\<lambda>q. q),
      M_llist_insert = (\<lambda>l x. l @ [x]),
      M_llist_first = (\<lambda>l. case l of [] \<Rightarrow> None | y # ys \<Rightarrow> Some y),
      M_llist_take = (\<lambda>l x. remove1 x l),
      M_list_insert = (\<lambda>l x. l @ [x]),
      M_list_take_first = (\<lambda>l. case l of [] \<Rightarrow> (None, []) | y # ys \<Rightarrow> (Some y, ys)),
      M_list_ptr_insert = (\<lambda>l x. l @ [x]),
      M_hash_u64vp_get = id_get,
      M_hash_u64vp_insert = id_insert,
      M_hash_u64vp_remove = id_remove,
      M_hash_dict_num_keys = (\<lambda>d. length (dict_of d)),
      M_hash_dict_insert = dict_insert,
      M_hash_dict_get_direct = (\<lambda>d k. dict_get (dict_of d) k),
      M_hash_dict_duplicate = (\<lambda>d. d),
      M_hash_dict_keys = (\<lambda>d. map fst (dict_of d)),
      M_hash_dict_serialize = (\<lambda>d. dict_serialize (dict_of d)),
      M_buf_len = length,
      M_buf_add_byte = (\<lambda>b ch. b @ [ch]),
      M_buf_add_str = (\<lambda>b s. b @ s),
      M_buf_add_uint = (\<lambda>b n. b @ decimal (unat n)),
      M_buf_truncate = (\<lambda>b k. take k b),
      M_parser_len = (\<lambda>p. length (p_rest p)),
      M_parser_peek_byte = (\<lambda>p. case p_rest p of [] \<Rightarrow> None | b # bs \<Rightarrow> Some b),
      M_parser_peek = p_rest,
      M_parser_read_byte =
        (\<lambda>p. case p_rest p of [] \<Rightarrow> None | b # bs \<Rightarrow> Some (b, p\<lparr>p_rest := bs\<rparr>)),
      M_parser_read_uint = ref_read_uint,
      M_parser_mark = (\<lambda>p. p\<lparr>p_mark := Some []\<rparr>),
      M_parser_mark_rewind = (\<lambda>p. \<lparr>p_mark = None, p_rest = str_of (p_mark p) @ p_rest p\<rparr>),
      M_parser_mark_clear = (\<lambda>p. p\<lparr>p_mark := None\<rparr>),
      M_parser_peek_mark = p_mark,
      M_parser_consume_until = ref_consume_until,
      M_parser_truncate = (\<lambda>p k. \<lparr>p_mark = None, p_rest = take k (p_rest p)\<rparr>),
      M_csv_parse_inplace =
        (\<lambda>s. Some (map (split_quoted (CHR '','') (CHR 0x22) 0 False [])
                (split_quoted (CHR 0x0A) (CHR 0x22) 0 False [] s))),
      M_csv_get_cell =
        (\<lambda>x r h. case find_col (case x of [] \<Rightarrow> [] | hs # _ \<Rightarrow> hs) h of
                   None \<Rightarrow> None | Some k \<Rightarrow> ref_cellbynum x r (of_nat k)),
      M_csv_get_cellbynum = ref_cellbynum,
      M_csv_get_header =
        (\<lambda>x k. case x of [] \<Rightarrow> None
               | hs # _ \<Rightarrow> if unat k < length hs then Some (hs ! unat k) else None),
      M_csv_get_numcols = (\<lambda>x. case x of [] \<Rightarrow> 0 | hs # _ \<Rightarrow> of_nat (length hs)),
      M_csv_get_numrows = (\<lambda>x. of_nat (length x - 1)),
      M_thread_once = Not,
      M_rand_range = ref_rand,
      M_io_net_client_create = (\<lambda>_. None),
      M_io_tls_client_add = (\<lambda>_. None),
      M_io_error_string = (\<lambda>_. ''Error''),
      M_io_get_error_string = (\<lambda>_. ''Connection reset''),
      M_io_write_from_buf = (\<lambda>_ _. []),
      M_io_read_into_parser = (\<lambda>_ p. (True, p\<lparr>p_rest := p_rest p @ input\<rparr>)),
      M_event_add = (\<lambda>_. True),
      M_tls_clientctx_set_cert = (\<lambda>_ _. True)\<rparr>"

section \<open>It meets the contract\<close>

interpretation ref_string: string_api "mstd_ref input" for input
  by unfold_locales (auto simp: mstd_ref_def str_of_def lowers_def)

interpretation ref_queue: queue_api "mstd_ref input" for input
  by unfold_locales (simp_all add: mstd_ref_def)

interpretation ref_list: list_api "mstd_ref input" for input
  by unfold_locales (simp_all add: mstd_ref_def)

interpretation ref_once: once_api "mstd_ref input" for input
  by unfold_locales (simp add: mstd_ref_def)

interpretation ref_buf: buf_api "mstd_ref input" for input
  by unfold_locales (simp_all add: mstd_ref_def)

lemma id_get_remove: "id_get (id_remove m k) k' = (if k' = k then None else id_get m k')"
  by (induction m) (auto simp: id_get_def id_remove_def)

interpretation ref_id_map: id_map_api "mstd_ref input" for input
  by unfold_locales (simp_all add: mstd_ref_def id_get_remove, simp_all add: id_get_def id_insert_def
      id_get_remove [unfolded id_get_def])

lemma dict_get_insert:
  "dict_get (dict_insert d k v) k' = (if lowers k' = lowers k then v else dict_get d k')"
  by (induction d k v rule: dict_insert.induct) auto

lemma dict_insert_length:
  "length (dict_insert d k v) =
     length d + (if \<exists>e \<in> set d. lowers (fst e) = lowers k then 0 else 1)"
  by (induction d k v rule: dict_insert.induct) auto

lemma dict_insert_keys:
  "lowers ` fst ` set (dict_insert d k v) = insert (lowers k) (lowers ` fst ` set d)"
  by (induction d k v rule: dict_insert.induct) auto

interpretation ref_dict: dict_api "mstd_ref input" for input
  by unfold_locales
    (simp_all add: mstd_ref_def dict_of_def dict_get_insert dict_insert_length dict_insert_keys)

lemma ref_read_uint_none:
  "p_rest p = [] \<or> \<not> is_digit (hd (p_rest p)) \<Longrightarrow> ref_read_uint p = None"
  by (cases "p_rest p") (auto simp: ref_read_uint_def)

lemma ref_read_uint_some:
  assumes "p_rest p = ds @ rest" "ds \<noteq> []" "\<forall>ch \<in> set ds. is_digit ch"
    "rest = [] \<or> \<not> is_digit (hd rest)" "undecimal ds < 2 ^ 64"
  shows "ref_read_uint p = Some (of_nat (undecimal ds), p\<lparr>p_rest := rest\<rparr>)"
proof -
  have "takeWhile is_digit (p_rest p) = ds" "dropWhile is_digit (p_rest p) = rest"
    using assms by (cases rest; simp)+
  with assms(2,5) show ?thesis by (simp add: ref_read_uint_def)
qed

lemma ref_consume_until_some:
  assumes "p_rest p = pre @ ch # post" "ch \<notin> set pre" "p_mark p = Some m"
  shows "ref_consume_until p ch =
    (Suc (length pre), \<lparr>p_mark = Some (m @ pre @ [ch]), p_rest = post\<rparr>)"
proof -
  have "takeWhile (\<lambda>b. b \<noteq> ch) (p_rest p) = pre"
    using assms(1,2) by (simp add: takeWhile_tail) (metis (mono_tags) takeWhile_eq_all_conv)
  with assms show ?thesis by (simp add: ref_consume_until_def Let_def)
qed

interpretation ref_parser: parser_api "mstd_ref input" for input
  by unfold_locales
    (simp_all add: mstd_ref_def str_of_def ref_read_uint_none ref_read_uint_some
      ref_consume_until_some, simp add: ref_consume_until_def)

interpretation ref: mstd_api "mstd_ref input" for input
  by unfold_locales

section \<open>Its random numbers are fair\<close>

lemma draws_draws_log: "draws (draws_log lo hi n cs) = n + draws cs"
  by (induction n arbitrary: cs) (simp_all add: draws_def)

lemma ref_rand_range:
  assumes "lo < hi"
  shows "lo \<le> ref_rand cs lo hi \<and> ref_rand cs lo hi < hi"
proof -
  let ?m = "unat (hi - lo)"
  have m: "?m = unat hi - unat lo" "unat lo < unat hi"
    using assms by (simp_all add: unat_sub word_less_nat_alt less_imp_le word_le_nat_alt)
  define r where "r = draws cs mod ?m"
  have "r < ?m" using m by (simp add: r_def)
  moreover have "unat hi < 2 ^ 64" using unsigned_less [of hi] by simp
  ultimately have "unat (lo + of_nat r) = unat lo + r"
    using m by (simp add: unat_word_ariths unat_of_nat)
  moreover have "ref_rand cs lo hi = lo + of_nat r" using assms by (simp add: ref_rand_def r_def)
  ultimately show ?thesis
    using \<open>r < ?m\<close> m by (simp add: word_le_nat_alt word_less_nat_alt)
qed

lemma ref_rand_hits:
  assumes "lo \<le> x" "x < hi"
  shows "\<exists>n. ref_rand (draws_log lo hi n cs) lo hi = x"
proof -
  let ?m = "unat (hi - lo)"
  have lt: "lo < hi" using assms by simp
  have m: "?m = unat hi - unat lo" "0 < ?m" "unat (x - lo) < ?m"
    using assms by (simp_all add: unat_sub word_less_nat_alt less_imp_le word_le_nat_alt)
  define n where "n = unat (x - lo) + (?m - draws cs mod ?m)"
  have "(n + draws cs) mod ?m = unat (x - lo)"
  proof -
    have "(n + draws cs) mod ?m = (n + draws cs mod ?m) mod ?m" by (simp add: mod_simps)
    also have "n + draws cs mod ?m = unat (x - lo) + ?m"
      using less_imp_le [OF mod_less_divisor [OF m(2), of "draws cs"]] by (simp add: n_def)
    finally show ?thesis using m(3) by simp
  qed
  then have "ref_rand (draws_log lo hi n cs) lo hi = lo + of_nat (unat (x - lo))"
    using lt by (simp add: ref_rand_def draws_draws_log)
  then show ?thesis by (intro exI [of _ n]) simp
qed

interpretation ref_rand: mstd_rand_api "mstd_ref input" for input
proof unfold_locales
  fix lo hi :: u64 and cs
  assume "lo < hi"
  then show "lo \<le> M_rand_range (mstd_ref input) cs lo hi \<and> M_rand_range (mstd_ref input) cs lo hi < hi"
    using ref_rand_range by (simp add: mstd_ref_def)
next
  fix U :: "u64 set" and lo hi cs
  assume "\<exists>x. lo \<le> x \<and> x < hi \<and> x \<notin> U"
  then show "\<exists>n. M_rand_range (mstd_ref input) (draws_log lo hi n cs) lo hi \<notin> U"
    using ref_rand_hits [of lo _ hi cs] by (fastforce simp: mstd_ref_def)
qed

end
