(* ===== verification/LM_World.thy ===== *)
theory LM_World
  imports LM_Handler_Inv Mstdlib_Ref "HOL-Library.Code_Target_Nat"
begin

text \<open>
  The life of a connection: it is made, then calls of the client and events of the outside
  world follow each other in any order the interface allows. What holds in every state that can
  come about.
\<close>

section \<open>Steps\<close>

text \<open>The callbacks the event system may make, each into its entry of the library.\<close>

datatype world_event =
    Socket_event M_event_type
  | Conn_timer_event
  | Write_trigger_event
  | Trans_timer_event ptr

fun run_event :: "mstd \<Rightarrow> event_callback \<Rightarrow> world_event \<Rightarrow> LM_conn \<Rightarrow> LM_conn option" where
  "run_event L cb (Socket_event ty) c = LM_conn_event_handler L cb ty c"
| "run_event L cb Conn_timer_event c = LM_conn_event_handler L cb M_EVENT_TYPE_OTHER c"
| "run_event L cb Write_trigger_event c = LM_conn_event_handler_writetrigger L cb M_EVENT_TYPE_OTHER c"
| "run_event L cb (Trans_timer_event p) c = LM_trans_event_handler L cb M_EVENT_TYPE_OTHER p c"

fun world_event_ok :: "LM_conn \<Rightarrow> world_event \<Rightarrow> bool" where
  "world_event_ok c (Socket_event ty) \<longleftrightarrow> ty \<noteq> M_EVENT_TYPE_OTHER \<and> event_ok c ty None"
| "world_event_ok c Conn_timer_event \<longleftrightarrow> event_ok c M_EVENT_TYPE_OTHER None"
| "world_event_ok c Write_trigger_event \<longleftrightarrow> event_ok c M_EVENT_TYPE_WRITE None"
| "world_event_ok c (Trans_timer_event p) \<longleftrightarrow> event_ok c M_EVENT_TYPE_OTHER (Some p)"

datatype world_step = Call api_call | Event world_event

fun run_step :: "mstd \<Rightarrow> event_callback \<Rightarrow> world_step \<Rightarrow> LM_conn \<Rightarrow> LM_conn option" where
  "run_step L cb (Call a) c = run_call L a c"
| "run_step L cb (Event e) c = run_event L cb e c"

fun step_ok :: "LM_conn \<Rightarrow> world_step \<Rightarrow> bool" where
  "step_ok c (Call a) \<longleftrightarrow> may_call c a"
| "step_ok c (Event e) \<longleftrightarrow> world_event_ok c e"

inductive reachable :: "mstd \<Rightarrow> event_callback \<Rightarrow> LM_conn \<Rightarrow> bool"
  for L :: mstd and cb :: event_callback where
  reachable_init: "LM_conn_init L False False h p g = (Some c, g') \<Longrightarrow> reachable L cb c"
| reachable_step:
    "\<lbrakk>reachable L cb c; step_ok c s; run_step L cb s c = Some c'\<rbrakk> \<Longrightarrow> reachable L cb c'"

inductive_cases reachableE: "reachable L cb c"

definition world_inv :: "mstd \<Rightarrow> LM_conn \<Rightarrow> bool" where
  "world_inv L c \<longleftrightarrow> client_inv L c \<and> \<not> in_use c"

section \<open>The invariant of the world\<close>

context mstd_api
begin

lemma init_inv:
  assumes "LM_conn_init L ev_null cb_null h p g = (Some c, g')"
  shows "world_inv L c"
proof -
  have c: "c = snd (LM_conn_change_server L CONN h p (zero_conn\<lparr>conn_timeout := 10\<rparr>))"
  proof -
    have eq: "zero_conn\<lparr>conn_status := LM_CONN_STATUS_DISCONNECTED, mode := LM_MODE_TLS,
        conn_timeout := 10\<rparr> = zero_conn\<lparr>conn_timeout := 10\<rparr>"
      by (simp add: zero_conn_def)
    show ?thesis
      using assms unfolding LM_conn_init_def Let_def eq
      by (auto simp: split_beta split: if_splits)
  qed
  have "inv_at L [] (zero_conn\<lparr>conn_timeout := 10\<rparr>)"
    by (simp add: inv_at_def lm_inv_def core_inv_defs ping_inv_def zero_conn_def)
  then have "inv_at L [] c" unfolding c by (rule LM_conn_settings_inv(1))
  moreover have "\<not> in_use c"
    by (simp add: c LM_conn_change_server_def Let_def) (simp add: zero_conn_def)
  ultimately show ?thesis by (simp add: world_inv_def client_inv_def)
qed

end

lemma event_ok_touch: "event_ok c ty (Some p) \<Longrightarrow> touch_trans p c = c"
  by (simp add: event_ok_def)

context mstd_rand_api
begin

lemma run_event_total:
  assumes "world_inv L c" "world_event_ok c e" "callback_ok L cb"
  obtains c' where "run_event L cb e c = Some c'" and "world_inv L c'"
    and "conn_freed c' \<or> \<not> destroy c'" and "forward c c'"
proof -
  have c: "client_inv L c" "\<not> in_use c" using assms(1) by (simp_all add: world_inv_def)
  note result = that
  have *: thesis if ok: "event_ok c ty tp"
    and run: "run_event L cb e c = LM_conntrans_event_handler L cb ty tp c" for ty tp
  proof -
    obtain c' where "LM_conntrans_event_handler L cb ty tp c = Some c'" "client_inv L c'"
      "\<not> in_use c'" "conn_freed c' \<or> \<not> destroy c'" "forward c c'"
      by (rule event_handler_total [OF c ok assms(3)])
    then show thesis by (intro result [of c']) (simp_all add: run world_inv_def)
  qed
  show thesis
  proof (cases e)
    case (Socket_event ty)
    with assms(2) show ?thesis by (intro * [of ty None]) (simp_all add: LM_conn_event_handler_def)
  next
    case Conn_timer_event
    with assms(2) show ?thesis
      by (intro * [of M_EVENT_TYPE_OTHER None]) (simp_all add: LM_conn_event_handler_def)
  next
    case Write_trigger_event
    with assms(2) show ?thesis
      by (intro * [of M_EVENT_TYPE_WRITE None]) (simp_all add: LM_conn_event_handler_writetrigger_def)
  next
    case (Trans_timer_event p)
    with assms(2) show ?thesis
      by (intro * [of M_EVENT_TYPE_OTHER "Some p"])
        (simp_all add: LM_trans_event_handler_def event_ok_touch)
  qed
qed

lemma world_step_total:
  assumes "callback_ok L cb" "world_inv L c" "step_ok c s"
  shows "\<exists>c'. run_step L cb s c = Some c' \<and> world_inv L c' \<and> forward c c'"
proof (cases s)
  case (Call a)
  with assms idle_client.step_total [of c a] show ?thesis
    by (auto simp: world_inv_def grows_def)
next
  case (Event e)
  with assms run_event_total [of c e cb] show ?thesis by auto
qed

lemma reachable_inv:
  assumes "callback_ok L cb" "reachable L cb c"
  shows "world_inv L c"
  using assms(2)
proof (induction rule: reachable.induct)
  case (reachable_init h p g c g')
  then show ?case by (rule init_inv)
next
  case (reachable_step c s c')
  then show ?case using world_step_total [OF assms(1)] by fastforce
qed

end

text \<open>The world as a program of guarded steps, for every client that keeps to the rules.\<close>

locale client = mstd_rand_api L for L :: mstd +
  fixes cb :: event_callback
  assumes cb_ok: "callback_ok L cb"
begin

sublocale world: guarded_steps "run_step L cb" step_ok "world_inv L" forward
  by unfold_locales (use world_step_total [OF cb_ok] in \<open>auto intro: forward_trans\<close>)

lemma forward_run:
  assumes "world_inv L c" "steps_ok (run_step L cb) step_ok c ss"
    and "run_steps (run_step L cb) ss c = Some c'"
  shows "forward c c'"
  using world.run_total [OF assms(1,2)] assms(3) by simp

end

section \<open>A client\<close>

text \<open>One that deletes every transaction when it is told that it is over.\<close>

definition delete_when_over :: event_callback where
  "delete_when_over ev tp c =
     (if (ev = LM_EVENT_TRANS_DONE \<or> ev = LM_EVENT_TRANS_ERROR) \<and> \<not> conn_freed c \<and> usable c tp
      then [Trans_delete tp] else [])"

lemma delete_when_over_ok: "callback_ok L delete_when_over"
  by (simp add: callback_ok_def calls_ok_def delete_when_over_def may_call_def)

interpretation ref_client: client "mstd_ref input" delete_when_over for input
  by unfold_locales (rule delete_when_over_ok)

text \<open>A run that keeps to the rules reaches its last state.\<close>

lemma run_reachable:
  "\<lbrakk>run_steps (run_step L cb) ss c = Some c'; steps_ok (run_step L cb) step_ok c ss; reachable L cb c\<rbrakk>
   \<Longrightarrow> reachable L cb c'"
proof (induction ss arbitrary: c)
  case (Cons s ss)
  then obtain d where "run_step L cb s c = Some d" "run_steps (run_step L cb) ss d = Some c'"
    by (auto split: bind_splits)
  with Cons show ?case using reachable_step by fastforce
qed simp

text \<open>
  A concrete one: the connection is made, a transaction is created, given a parameter, and sent,
  which starts the connection.
\<close>

definition ref_conn :: "string \<Rightarrow> LM_conn" where
  "ref_conn input =
     the (fst (LM_conn_init (mstd_ref input) False False (Some ''localhost'') 8665
                 \<lparr>LM_once = False, tls_init = None, cleanup_handlers = 0\<rparr>))"

definition ref_steps :: "world_step list" where
  "ref_steps =
     [Call Trans_new, Call (Trans_set_param (Some 1) (Some ''action'') (Some ''sale'')),
      Call (Trans_send (Some 1))]"

definition ref_sent :: "string \<Rightarrow> LM_conn" where
  "ref_sent input =
     the (run_steps (run_step (mstd_ref input) delete_when_over) ref_steps (ref_conn input))"

lemma ref_conn_reachable: "reachable (mstd_ref input) delete_when_over (ref_conn input)"
proof -
  let ?r = "LM_conn_init (mstd_ref input) False False (Some ''localhost'') 8665
              \<lparr>LM_once = False, tls_init = None, cleanup_handlers = 0\<rparr>"
  have "fst ?r \<noteq> None"
    by (simp add: LM_conn_init_def split_beta Let_def)
  then have "?r = (Some (ref_conn input), snd ?r)"
    by (cases ?r) (auto simp: ref_conn_def)
  then show ?thesis by (rule reachable_init)
qed

lemma ref_sent_runs:
  "run_steps (run_step (mstd_ref []) delete_when_over) ref_steps (ref_conn []) = Some (ref_sent [])"
  "steps_ok (run_step (mstd_ref []) delete_when_over) step_ok (ref_conn []) ref_steps"
proof -
  have "map_option conn_status (run_steps (run_step (mstd_ref []) delete_when_over) ref_steps (ref_conn []))
      = Some LM_CONN_STATUS_CONNECTING"
    by code_simp
  then show "run_steps (run_step (mstd_ref []) delete_when_over) ref_steps (ref_conn []) = Some (ref_sent [])"
    by (auto simp: ref_sent_def)
  show "steps_ok (run_step (mstd_ref []) delete_when_over) step_ok (ref_conn []) ref_steps"
    by code_simp
qed

lemma ref_sent_reachable: "reachable (mstd_ref []) delete_when_over (ref_sent [])"
  by (rule run_reachable [OF ref_sent_runs ref_conn_reachable])

section \<open>What holds in every reachable state\<close>



text \<open>
  C2. Progress: in every reachable state, every legal call and every event that can arrive
  returns: the search for a free id, the send loop, the loops over the received messages, the
  pending transactions, the events to deliver and the delayed deletions all end.
\<close>

theorem every_step_returns:
  assumes "mstd_rand_api L" "callback_ok L cb" "reachable L cb c" "step_ok c s"
  shows "\<exists>c'. run_step L cb s c = Some c' \<and> reachable L cb c'"
proof -
  obtain c' where "run_step L cb s c = Some c'"
    using mstd_rand_api.world_step_total [OF assms(1,2) mstd_rand_api.reachable_inv [OF assms(1-3)] assms(4)]
    by blast
  with reachable_step [OF assms(3,4)] show ?thesis by blast
qed

lemma ref_sent_connected_ok: "step_ok (ref_sent []) (Event (Socket_event M_EVENT_TYPE_CONNECTED))"
  by code_simp

lemma every_step_returns_witness:
  "\<exists>c'. run_step (mstd_ref []) delete_when_over (Event (Socket_event M_EVENT_TYPE_CONNECTED)) (ref_sent [])
      = Some c' \<and> reachable (mstd_ref []) delete_when_over c'"
  by (rule every_step_returns [OF ref_rand.mstd_rand_api_axioms delete_when_over_ok ref_sent_reachable
        ref_sent_connected_ok])

text \<open>
  C3. Lock discipline: the mutexes are not recursive, and a transaction's mutex is only taken
  under the connection's or alone. No step deadlocks, releases a lock it does not hold, takes
  the locks in the wrong order or destroys a held one; every step ends with no lock held.
\<close>

theorem locks_balanced:
  assumes "mstd_rand_api L" "callback_ok L cb" "reachable L cb c"
  shows "locks_held (calls c) = Some []"
  using mstd_rand_api.reachable_inv [OF assms]
  by (auto simp: world_inv_def client_inv_def freed_at_def inv_at_def)

lemma locks_balanced_witness: "locks_held (calls (ref_sent [])) = Some []"
  by (rule locks_balanced [OF ref_rand.mstd_rand_api_axioms delete_when_over_ok ref_sent_reachable])

text \<open>A reachable connection that has not been destroyed.\<close>

lemma reachable_lm_inv:
  assumes "mstd_rand_api L" "callback_ok L cb" "reachable L cb c" "\<not> conn_freed c"
  shows "core_inv L c" "ping_inv c" "trans_delay_rm c = []"
proof -
  have "world_inv L c" using mstd_rand_api.reachable_inv [OF assms(1-3)] .
  with assms(4) have inv: "inv_at L [] c" "\<not> in_use c"
    by (auto simp: world_inv_def client_inv_def freed_at_def)
  then show "core_inv L c" "ping_inv c" by (simp_all add: inv_at_def lm_inv_def)
  with inv(2) show "trans_delay_rm c = []" by (simp add: core_inv_def delay_inv_def)
qed

text \<open>
  C4. The queues partition the transactions by status: between steps every allocated
  transaction is in exactly one queue, once, and it is the queue of its status.
\<close>

theorem queues_partition:
  assumes "mstd_rand_api L" "callback_ok L cb" "reachable L cb c" "\<not> conn_freed c"
  shows "distinct (queues c) \<and> (\<forall>p. p \<in> set (queues c) \<longleftrightarrow> txns c p \<noteq> None) \<and>
    (\<forall>p t. txns c p = Some t \<longrightarrow>
       (p \<in> set (trans_new c) \<longleftrightarrow> status t = LM_TRANS_STATUS_NEW) \<and>
       (p \<in> set (trans_ready c) \<longleftrightarrow> status t = LM_TRANS_STATUS_READY) \<and>
       (p \<in> set (trans_pending c) \<longleftrightarrow> status t = LM_TRANS_STATUS_PENDING) \<and>
       (p \<in> set (trans_done c) \<longleftrightarrow> status t = LM_TRANS_STATUS_DONE))"
proof (intro conjI allI impI)
  note inv = reachable_lm_inv [OF assms]
  have q: "queue_inv c" using inv(1) by (simp add: core_inv_def)
  then show "distinct (queues c)" by (rule queue_inv_distinct)
  have all: "p \<in> set (queues c)" if "txns c p = Some t" for p t
    using q inv(3) that by (auto simp: queue_inv_def live_def)
  show "p \<in> set (queues c) \<longleftrightarrow> txns c p \<noteq> None" for p
    using all [of p] core_inv_queue_status [OF inv(1), of p]
    by (auto simp: queues_def status_is_def)
  fix p t assume t: "txns c p = Some t"
  note st = core_inv_queue_status [OF inv(1), of p, unfolded status_is_Some [where h = "txns c", OF t]]
  show "p \<in> set (trans_new c) \<longleftrightarrow> status t = LM_TRANS_STATUS_NEW"
    and "p \<in> set (trans_ready c) \<longleftrightarrow> status t = LM_TRANS_STATUS_READY"
    and "p \<in> set (trans_pending c) \<longleftrightarrow> status t = LM_TRANS_STATUS_PENDING"
    and "p \<in> set (trans_done c) \<longleftrightarrow> status t = LM_TRANS_STATUS_DONE"
    using st all [OF t] by (auto simp: queues_def)
qed

lemma ref_sent_not_freed: "\<not> conn_freed (ref_sent [])"
  by code_simp

lemma queues_partition_witness:
  "distinct (queues (ref_sent [])) \<and>
   (1 \<in> set (queues (ref_sent [])) \<longleftrightarrow> txns (ref_sent []) 1 \<noteq> None) \<and> trans_ready (ref_sent []) = [1]"
proof -
  have "trans_ready (ref_sent []) = [1]" by code_simp
  with queues_partition [OF ref_rand.mstd_rand_api_axioms delete_when_over_ok ref_sent_reachable
      ref_sent_not_freed]
  show ?thesis by blast
qed

text \<open>
  C5. Transaction ids: the id of every transaction is one that \<open>M_rand_range(1, UINT32_MAX)\<close>
  gives, no two transactions have the same, and the table of ids finds exactly the transactions
  there are, each under its own id.
\<close>

theorem ids_unique:
  assumes "mstd_rand_api L" "callback_ok L cb" "reachable L cb c" "\<not> conn_freed c"
    and "txns c p = Some t"
  shows "1 \<le> unat (trans_id t) \<and> unat (trans_id t) < 2 ^ 32 - 1 \<and>
    M_hash_u64vp_get L (trans_id_map c) (trans_id t) = Some p \<and>
    (\<forall>q u. txns c q = Some u \<and> trans_id u = trans_id t \<longrightarrow> q = p)"
proof -
  note core = reachable_lm_inv(1) [OF assms(1-4)]
  have wf: "trans_id t \<noteq> 0" "trans_id t < 0xFFFFFFFF"
    using core_inv_wf [OF core assms(5)] by (simp_all add: trans_wf_def)
  then have "unat (trans_id t) \<noteq> 0" by (simp add: unat_eq_0)
  moreover have "unat (trans_id t) < 2 ^ 32 - 1"
    using wf(2) by (simp add: word_less_nat_alt)
  moreover have "M_hash_u64vp_get L (trans_id_map c) (trans_id t) = Some p"
    using core_inv_map [OF core, of "trans_id t" p] assms(5) by blast
  moreover have "q = p" if "txns c q = Some u" "trans_id u = trans_id t" for q u
    using core_inv_unique_id [OF core that(1) assms(5) that(2)] .
  ultimately show ?thesis by auto
qed

lemma ref_sent_trans: "txns (ref_sent []) 1 = Some (the (txns (ref_sent []) 1))"
proof -
  have "map_option trans_id (txns (ref_sent []) 1) = Some 1" by code_simp
  then show ?thesis by auto
qed

lemma ids_unique_witness:
  "M_hash_u64vp_get (mstd_ref []) (trans_id_map (ref_sent [])) (trans_id (the (txns (ref_sent []) 1))) = Some 1"
  using ids_unique [OF ref_rand.mstd_rand_api_axioms delete_when_over_ok ref_sent_reachable
      ref_sent_not_freed ref_sent_trans] by blast

text \<open>
  C6. The request parameters of a transaction (passwords, card numbers) are gone once its request
  has been written to the output buffer, and its response fields agree with its status and
  response type: a response is there only when it is done, key/value pairs only for a KV
  response, raw data only for the others.
\<close>

theorem transaction_wellformed:
  assumes "mstd_rand_api L" "callback_ok L cb" "reachable L cb c" "\<not> conn_freed c"
    and "txns c p = Some t"
  shows "(status t = LM_TRANS_STATUS_PENDING \<or> status t = LM_TRANS_STATUS_DONE \<longrightarrow>
            request_params t = None) \<and>
    (status t = LM_TRANS_STATUS_DONE \<longleftrightarrow> response_type t \<noteq> LM_TRANS_RESPONSE_UNKNOWN) \<and>
    (response_params t \<noteq> None \<longrightarrow> response_type t = LM_TRANS_RESPONSE_KV) \<and>
    (response_raw t \<noteq> None \<or> response_csv t \<noteq> None \<longrightarrow>
       response_type t = LM_TRANS_RESPONSE_CSV \<or> response_type t = LM_TRANS_RESPONSE_BULK) \<and>
    (response_csv t \<noteq> None \<longrightarrow> response_raw t = None)"
  using core_inv_wf [OF reachable_lm_inv(1) [OF assms(1-4)] assms(5)] by (simp add: trans_wf_def)

lemma transaction_wellformed_witness:
  "status (the (txns (ref_sent []) 1)) = LM_TRANS_STATUS_DONE \<longleftrightarrow>
   response_type (the (txns (ref_sent []) 1)) \<noteq> LM_TRANS_RESPONSE_UNKNOWN"
  using transaction_wellformed [OF ref_rand.mstd_rand_api_axioms delete_when_over_ok
      ref_sent_reachable ref_sent_not_freed ref_sent_trans] by blast

text \<open>
  C7. A transaction only goes forward. Over any run of calls and events, a transaction that is
  still there at the end has the id it had at the start, and its status has only advanced
  (new, ready, pending, done, in the order of their values): nothing sends it twice, takes it
  back, or gives its memory to another transaction.
\<close>

theorem transactions_go_forward:
  assumes "mstd_rand_api L" "callback_ok L cb" "reachable L cb c"
    and "steps_ok (run_step L cb) step_ok c ss" "run_steps (run_step L cb) ss c = Some c'"
    and "txns c p = Some t" "txns c' p = Some t'"
  shows "trans_id t' = trans_id t \<and> status t \<le> status t'"
proof -
  have w: "world_inv L c" by (rule mstd_rand_api.reachable_inv [OF assms(1-3)])
  have "client L cb" using assms(1,2) by (simp add: client_def client_axioms_def)
  from client.forward_run [OF this w assms(4,5)] have "forward c c'" .
  moreover have "p < next_ptr c"
    using w assms(6) core_inv_below
    by (auto simp: world_inv_def client_inv_def freed_at_def inv_at_def lm_inv_def)
  ultimately show ?thesis using assms(6,7) unfolding forward_def by force
qed

text \<open>The run above, from the creation of the transaction to its sending.\<close>

definition ref_new :: "LM_conn" where
  "ref_new = the (run_step (mstd_ref []) delete_when_over (Call Trans_new) (ref_conn []))"

lemma ref_new_step:
  "run_step (mstd_ref []) delete_when_over (Call Trans_new) (ref_conn []) = Some ref_new"
  "steps_ok (run_step (mstd_ref []) delete_when_over) step_ok (ref_conn []) [Call Trans_new]"
proof -
  have "\<not> Option.is_none (run_step (mstd_ref []) delete_when_over (Call Trans_new) (ref_conn []))"
    by code_simp
  then show "run_step (mstd_ref []) delete_when_over (Call Trans_new) (ref_conn []) = Some ref_new"
    by (simp add: ref_new_def Option.is_none_def del: run_step.simps)
  show "steps_ok (run_step (mstd_ref []) delete_when_over) step_ok (ref_conn []) [Call Trans_new]"
    by code_simp
qed

lemma ref_new_reachable: "reachable (mstd_ref []) delete_when_over ref_new"
  using ref_new_step(2) by (intro reachable_step [OF ref_conn_reachable _ ref_new_step(1)]) simp

lemma ref_new_runs:
  "steps_ok (run_step (mstd_ref []) delete_when_over) step_ok ref_new (tl ref_steps)"
  "run_steps (run_step (mstd_ref []) delete_when_over) (tl ref_steps) ref_new = Some (ref_sent [])"
  using ref_sent_runs ref_new_step(1)
  by (simp_all add: ref_steps_def del: run_step.simps run_steps.simps(1))

lemma ref_new_trans: "txns ref_new 1 = Some (the (txns ref_new 1))"
proof -
  have "map_option trans_id (txns ref_new 1) = Some 1" by code_simp
  then show ?thesis by auto
qed

lemma transactions_go_forward_witness:
  "trans_id (the (txns (ref_sent []) 1)) = trans_id (the (txns ref_new 1)) \<and>
   status (the (txns ref_new 1)) \<le> status (the (txns (ref_sent []) 1))"
  by (rule transactions_go_forward [OF ref_rand.mstd_rand_api_axioms delete_when_over_ok
        ref_new_reachable ref_new_runs ref_new_trans ref_sent_trans])

text \<open>
  C8. The state machine of the connection. The socket exists in every state but
  \<open>DISCONNECTED\<close>. Without a connection nothing is on the wire and no timer runs; while it is
  being made, nothing but the ping is on the wire, exactly while the ping timer runs; once it is
  up, the ping is forgotten.
\<close>

theorem connection_states:
  assumes "mstd_rand_api L" "callback_ok L cb" "reachable L cb c" "\<not> conn_freed c"
  shows "(io c = None \<longleftrightarrow> conn_status c = LM_CONN_STATUS_DISCONNECTED) \<and>
    (case conn_status c of
       LM_CONN_STATUS_DISCONNECTED \<Rightarrow> timer c = None \<and> trans_pending c = []
     | LM_CONN_STATUS_CONNECTING \<Rightarrow>
         (case timer c of
            None \<Rightarrow> trans_pending c = []
          | Some _ \<Rightarrow> (\<exists>p. pingtxn c = Some p \<and> trans_pending c = [p]))
     | _ \<Rightarrow> pingtxn c = None)"
  using reachable_lm_inv(1,2) [OF assms]
  by (auto simp: core_inv_def io_inv_def ping_inv_def split: LM_conn_status_t.splits option.splits)

lemma connection_states_witness:
  "io (ref_sent []) \<noteq> None \<and> conn_status (ref_sent []) = LM_CONN_STATUS_CONNECTING"
proof -
  have "conn_status (ref_sent []) = LM_CONN_STATUS_CONNECTING" by code_simp
  with connection_states [OF ref_rand.mstd_rand_api_axioms delete_when_over_ok ref_sent_reachable
      ref_sent_not_freed]
  show ?thesis by simp
qed






end
