(* ===== verification/LM_Conn_Spec.thy ===== *)
theory LM_Conn_Spec
  imports LM_World
begin

text \<open>
  What the operations of a connection do: its settings, connecting, disconnecting, counting,
  listing and looking up transactions; and the initialisation of the library.
\<close>

section \<open>Samples\<close>

text \<open>
  A connection with the given status and one new transaction, number 7, that has a parameter.
\<close>

definition sample_trans :: LM_trans where
  "sample_trans = zero_trans\<lparr>trans_id := 7, request_params := Some [(''action'', Some ''sale'')]\<rparr>"

definition sample_conn :: "LM_conn_status_t \<Rightarrow> LM_conn" where
  "sample_conn st =
     zero_conn\<lparr>txns := [1 \<mapsto> sample_trans], trans_new := [1], trans_id_map := [(7, 1)],
       next_ptr := 2, conn_status := st,
       io := (if st = LM_CONN_STATUS_DISCONNECTED then None else Some 1)\<rparr>"

lemma sample_conn_sel [simp]:
  "txns (sample_conn st) = [1 \<mapsto> sample_trans]" "trans_new (sample_conn st) = [1]"
  "trans_ready (sample_conn st) = []" "trans_pending (sample_conn st) = []"
  "trans_done (sample_conn st) = []" "trans_delay_rm (sample_conn st) = []"
  "trans_id_map (sample_conn st) = [(7, 1)]" "conn_status (sample_conn st) = st"
  "calls (sample_conn st) = []" "in_use (sample_conn st) = False"
  "conn_freed (sample_conn st) = False" "fault (sample_conn st) = False"
  "pingtxn (sample_conn st) = None" "timer (sample_conn st) = None" "next_ptr (sample_conn st) = 2"
  "error (sample_conn st) = []" "io (sample_conn st) = (if st = LM_CONN_STATUS_DISCONNECTED then None else Some 1)"
  "disable_ping (sample_conn st) = False" "outbuf (sample_conn st) = []"
  by (simp_all add: sample_conn_def zero_conn_def)

lemma sample_trans_sel [simp]:
  "trans_id sample_trans = 7" "status sample_trans = LM_TRANS_STATUS_NEW"
  "request_params sample_trans = Some [(''action'', Some ''sale'')]"
  "timeout_s sample_trans = 0"
  by (simp_all add: sample_trans_def zero_trans_def)

lemma ref_get_single: "M_hash_u64vp_get (mstd_ref input) [(k, p)] k' = (if k' = k then Some p else None)"
  by (simp add: mstd_ref_def id_get_def)

lemma sample_inv: "inv_at (mstd_ref input) [] (sample_conn st)"
proof -
  have "trans_wf sample_trans"
    by (simp add: trans_wf_def sample_trans_def zero_trans_def)
  then have "core_inv (mstd_ref input) (sample_conn st)"
    by (auto simp: core_inv_defs status_is_def ref_get_single)
  moreover have "ping_inv (sample_conn st)"
    by (cases st) (simp_all add: ping_inv_def)
  ultimately show ?thesis by (simp add: inv_at_def lm_inv_def)
qed

section \<open>Settings\<close>

lemma not_null [simp]: "CONN \<noteq> NULL" "(CONN = NULL) = False"
  by simp_all

definition settings :: "LM_conn \<Rightarrow> cstr \<times> u16 \<times> LM_mode \<times> u64 \<times> handle option \<times> nat option" where
  "settings c = (host c, port c, mode c, conn_timeout c, tlsctx c, iocreate_cb c)"

lemma settings_frame [simp]:
  "settings (ext x c) = settings c" "settings (lock_conn c) = settings c"
  "settings (unlock_conn c) = settings c" "settings_open (lock_conn c) = settings_open c"
  by (simp_all add: settings_def ext_def lock_conn_def unlock_conn_def touch_def settings_open_def)

text \<open>
  C13. The settings of a connection are frozen while it is being made or is up: every setter
  refuses and changes none of them.
\<close>

theorem settings_frozen:
  assumes "conn_status c = LM_CONN_STATUS_CONNECTING \<or> conn_status c = LM_CONN_STATUS_CONNECTED"
    and "(ok, c') \<in> {LM_conn_change_server L CONN h k c, LM_conn_change_mode CONN m c,
      LM_conn_set_conn_timeout CONN n c, LM_conn_set_tls_clientctx CONN x c,
      LM_conn_set_tls_cert L CONN k1 n1 k2 n2 c, LM_conn_set_tls_cert_files L CONN k1 k2 c,
      LM_conn_set_iocreate_callback CONN f c}"
  shows "\<not> ok \<and> settings c' = settings c"
proof -
  have "\<not> settings_open c" using assms(1) by (auto simp: settings_open_def)
  with assms(2) show ?thesis
    by (auto simp: LM_conn_change_server_def LM_conn_change_mode_def LM_conn_set_conn_timeout_def
        LM_conn_set_tls_clientctx_def LM_conn_set_tls_cert_def LM_conn_set_tls_cert_files_def
        LM_conn_set_iocreate_callback_def Let_def split: if_splits)
qed

lemma settings_frozen_witness:
  "\<not> fst (LM_conn_change_mode CONN LM_MODE_IP (sample_conn LM_CONN_STATUS_CONNECTED))"
proof -
  obtain ok c' where r: "LM_conn_change_mode CONN LM_MODE_IP (sample_conn LM_CONN_STATUS_CONNECTED) = (ok, c')"
    by (metis surj_pair)
  show ?thesis
    using settings_frozen [where c = "sample_conn LM_CONN_STATUS_CONNECTED" and m = LM_MODE_IP
        and ok = ok and c' = c'] r
    by simp
qed

text \<open>
  Otherwise the new settings are taken over, each by its own setter only: server and port
  when there is a host and the port is not 0, the mode, a timeout that is not 0, the TLS context.
\<close>

theorem settings_taken:
  assumes "string_api L" "settings_open c" "h \<noteq> None" "h \<noteq> Some []" "k \<noteq> 0" "n \<noteq> 0"
  shows "map (\<lambda>(ok, c'). (ok, settings c'))
      [LM_conn_change_server L CONN h k c, LM_conn_change_mode CONN m c,
       LM_conn_set_conn_timeout CONN n c, LM_conn_set_tls_clientctx CONN x c,
       LM_conn_set_iocreate_callback CONN f c] =
    [(True, settings (c\<lparr>host := h, port := k\<rparr>)), (True, settings (c\<lparr>mode := m\<rparr>)),
     (True, settings (c\<lparr>conn_timeout := n\<rparr>)), (True, settings (c\<lparr>tlsctx := x\<rparr>)),
     (True, settings (c\<lparr>iocreate_cb := f\<rparr>))]"
proof -
  have upd [simp]: "settings (c'\<lparr>host := h, port := k\<rparr>) = (h, k, snd (snd (settings c')))"
    "settings (c'\<lparr>mode := m\<rparr>) = (host c', port c', m, snd (snd (snd (settings c'))))"
    "settings (c'\<lparr>conn_timeout := n\<rparr>) = (host c', port c', mode c', n, tlsctx c', iocreate_cb c')"
    "settings (c'\<lparr>tlsctx := x'\<rparr>) = (host c', port c', mode c', conn_timeout c', x', iocreate_cb c')"
    "settings (c'\<lparr>iocreate_cb := f\<rparr>) = (host c', port c', mode c', conn_timeout c', tlsctx c', f)"
    for c' :: LM_conn and x'
    by (simp_all add: settings_def)
  have [simp]: "host (ext y d) = host d" "port (ext y d) = port d" "mode (ext y d) = mode d"
    "conn_timeout (ext y d) = conn_timeout d" "iocreate_cb (ext y d) = iocreate_cb d"
    "host (lock_conn d) = host d" "port (lock_conn d) = port d" "mode (lock_conn d) = mode d"
    "conn_timeout (lock_conn d) = conn_timeout d" "iocreate_cb (lock_conn d) = iocreate_cb d"
    for y and d :: LM_conn
    by (simp_all add: ext_def lock_conn_def touch_def)
  show ?thesis
    using assms
    by (simp add: LM_conn_change_server_def LM_conn_change_mode_def LM_conn_set_conn_timeout_def
        LM_conn_set_tls_clientctx_def LM_conn_set_iocreate_callback_def string_api.isempty Let_def
        split: option.split)
qed

lemma settings_taken_witness:
  "fst (LM_conn_set_conn_timeout CONN 30 (sample_conn LM_CONN_STATUS_DISCONNECTED))"
proof -
  have "settings_open (sample_conn LM_CONN_STATUS_DISCONNECTED)" by (simp add: settings_open_def)
  from settings_taken [OF ref_string.string_api_axioms [of "[]"] this,
      where h = "Some ''h''" and k = 1 and n = 30 and m = LM_MODE_IP and x = None and f = None]
  show ?thesis by (auto split: prod.splits)
qed

section \<open>Connecting and disconnecting\<close>

lemma connect_frame:
  assumes "inv_at L [] c" "LM_conn_connect L CONN c = (ok, c')"
  shows "(io c \<noteq> None \<longrightarrow>
      \<not> ok \<and> error c' = ''Already connected'' \<and> io c' = io c \<and> conn_status c' = conn_status c) \<and>
    (io c = None \<and> ok \<longrightarrow> error c' = [] \<and> io c' \<noteq> None \<and> conn_status c' = LM_CONN_STATUS_CONNECTING) \<and>
    (io c = None \<and> \<not> ok \<longrightarrow> io c' = None \<and> conn_status c' = conn_status c) \<and>
    txns c' = txns c \<and> queues c' = queues c \<and> outbuf c' = outbuf c \<and> trans_id_map c' = trans_id_map c \<and>
    trans_ready c' = trans_ready c \<and> trans_pending c' = trans_pending c"
proof -
  have l: "inv_at L [Conn_lock] (lock_conn c)" using assms(1) by (rule inv_at_lock)
  show ?thesis
  proof (cases "io c")
    case None
    have pre: "io (lock_conn c) = None" "\<not> conn_freed (lock_conn c)"
      "locks_held (calls (lock_conn c)) = Some [Conn_lock]"
      using None inv_at_not_freed [OF assms(1)] l by (simp_all add: inv_at_def)
    obtain ok1 e i s1 tl n cs where
      r: "connect_locked L (lock_conn c) = (ok1, (lock_conn c)\<lparr>error := e, io := i, conn_status := s1,
            tlsctx := tl, next_handle := n, calls := cs\<rparr>)"
      and len: "length e < 256" and lk: "locks_held cs = Some [Conn_lock]"
      and yes: "ok1 \<Longrightarrow> e = [] \<and> i \<noteq> None \<and> s1 = LM_CONN_STATUS_CONNECTING"
      and no: "\<not> ok1 \<Longrightarrow> i = None \<and> s1 = conn_status (lock_conn c)"
      by (rule connect_locked_result [OF pre]) blast
    from r assms(2) have "ok = ok1"
      and c': "c' = unlock_conn ((lock_conn c)\<lparr>error := e, io := i, conn_status := s1, tlsctx := tl,
            next_handle := n, calls := cs\<rparr>)"
      by (simp_all add: LM_conn_connect_def)
    with yes no None show ?thesis
      unfolding c' by (cases ok) (simp_all add: queues_def)
  next
    case (Some h)
    then have "connect_locked L (lock_conn c) = (False, set_error ''Already connected'' ((lock_conn c)\<lparr>error := []\<rparr>))"
      by (simp add: connect_locked_def)
    with assms(2) Some have "ok = False" "c' = unlock_conn (set_error ''Already connected'' ((lock_conn c)\<lparr>error := []\<rparr>))"
      by (simp_all add: LM_conn_connect_def)
    with Some show ?thesis by (simp add: set_error_def queues_def)
  qed
qed

text \<open>
  C14. Connecting: with a socket there already it is refused with a message and nothing else
  changes. Otherwise it either succeeds, with the socket there, the status \<open>CONNECTING\<close> and no
  error message, or fails with the socket gone again and the status as it was. The transactions
  and the bytes to send are not touched in any case.
\<close>

theorem connect_outcome:
  assumes "inv_at L [] c" "LM_conn_connect L CONN c = (ok, c')"
  shows "(if io c \<noteq> None
          then \<not> ok \<and> error c' = ''Already connected'' \<and> io c' = io c \<and> conn_status c' = conn_status c
          else if ok then error c' = [] \<and> io c' \<noteq> None \<and> conn_status c' = LM_CONN_STATUS_CONNECTING
          else io c' = None \<and> conn_status c' = conn_status c) \<and>
    txns c' = txns c \<and> queues c' = queues c \<and> outbuf c' = outbuf c \<and> trans_id_map c' = trans_id_map c"
  using connect_frame [OF assms] by auto

lemma connect_outcome_witness:
  "io (snd (LM_conn_connect (mstd_ref []) CONN (sample_conn LM_CONN_STATUS_CONNECTED))) = Some 1"
proof -
  obtain ok c' where r: "LM_conn_connect (mstd_ref []) CONN (sample_conn LM_CONN_STATUS_CONNECTED) = (ok, c')"
    by (metis surj_pair)
  from connect_outcome [OF sample_inv r] show ?thesis by (simp add: r)
qed

section \<open>Counting, listing, looking up\<close>

lemma in_queue_of_status:
  assumes "core_inv L c" "trans_delay_rm c = []" "txns c p = Some t"
  shows "p \<in> set (trans_new c) \<longleftrightarrow> status t = LM_TRANS_STATUS_NEW"
    and "p \<in> set (trans_ready c) \<longleftrightarrow> status t = LM_TRANS_STATUS_READY"
    and "p \<in> set (trans_pending c) \<longleftrightarrow> status t = LM_TRANS_STATUS_PENDING"
    and "p \<in> set (trans_done c) \<longleftrightarrow> status t = LM_TRANS_STATUS_DONE"
proof -
  have "p \<in> set (queues c)"
    using assms by (auto simp: core_inv_def queue_inv_def live_def)
  with core_inv_queue_status [OF assms(1), of p] status_is_Some [of "txns c", OF assms(3)]
  show "p \<in> set (trans_new c) \<longleftrightarrow> status t = LM_TRANS_STATUS_NEW"
    "p \<in> set (trans_ready c) \<longleftrightarrow> status t = LM_TRANS_STATUS_READY"
    "p \<in> set (trans_pending c) \<longleftrightarrow> status t = LM_TRANS_STATUS_PENDING"
    "p \<in> set (trans_done c) \<longleftrightarrow> status t = LM_TRANS_STATUS_DONE"
    by (auto simp: queues_def)
qed

lemma queue_member_live:
  assumes "core_inv L c" "p \<in> set (queues c)"
  obtains t where "txns c p = Some t"
  using assms core_inv_queue_status [OF assms(1), of p] that by (auto simp: queues_def status_is_def)

definition status_list :: "LM_trans_status_t \<Rightarrow> LM_conn \<Rightarrow> ptr list" where
  "status_list s c =
     (case s of
        LM_TRANS_STATUS_ALL \<Rightarrow> queues c
      | LM_TRANS_STATUS_NEW \<Rightarrow> trans_new c
      | LM_TRANS_STATUS_READY \<Rightarrow> trans_ready c
      | LM_TRANS_STATUS_PENDING \<Rightarrow> trans_pending c
      | LM_TRANS_STATUS_DONE \<Rightarrow> trans_done c)"

lemma status_list_set:
  assumes "core_inv L c" "trans_delay_rm c = []"
  shows "set (status_list s c) = {p. \<exists>t. txns c p = Some t \<and> (s = LM_TRANS_STATUS_ALL \<or> status t = s)}"
    and "distinct (status_list s c)"
proof -
  have q: "queue_inv c" using assms(1) by (simp add: core_inv_def)
  then show "distinct (status_list s c)"
    using queue_inv_distinct [OF q] by (auto simp: status_list_def queue_inv_def split: LM_trans_status_t.split)
  have "p \<in> set (status_list s c) \<longleftrightarrow>
      (\<exists>t. txns c p = Some t \<and> (s = LM_TRANS_STATUS_ALL \<or> status t = s))" for p
  proof (cases "txns c p")
    case (Some t)
    have all: "p \<in> set (queues c)"
      using assms Some by (auto simp: core_inv_def queue_inv_def live_def)
    show ?thesis
      using Some all in_queue_of_status [OF assms Some]
      by (cases s) (auto simp: status_list_def)
  next
    case None
    then have "p \<notin> set (queues c)" by (metis assms(1) option.distinct(1) queue_member_live)
    with None show ?thesis by (cases s) (auto simp: status_list_def queues_def)
  qed
  then show "set (status_list s c) = {p. \<exists>t. txns c p = Some t \<and> (s = LM_TRANS_STATUS_ALL \<or> status t = s)}"
    by blast
qed

context mstd_api
begin

lemma list_append [simp]: "LM_conn_trans_list_append L l q = l @ q"
proof -
  have "foldl (M_list_ptr_insert L) l q = l @ q" for l q by (induction q arbitrary: l) auto
  then show ?thesis by (simp add: LM_conn_trans_list_append_def)
qed

lemma trans_list_eq:
  "LM_conn_trans_list L CONN s c = (Some (status_list s c), unlock_conn (lock_conn c))"
  by (cases s) (simp_all add: LM_conn_trans_list_def status_list_def queues_def Let_def)

lemma trans_count_eq:
  "LM_conn_trans_count L CONN s c = (length (status_list s c), unlock_conn (lock_conn c))"
  by (cases s) (simp_all add: LM_conn_trans_count_def status_list_def queues_def Let_def)

end

text \<open>
  Between events, the list of the transactions with a status holds exactly those, each
  once (\<open>ALL\<close>: all there are), and the count is their number.
\<close>

theorem list_by_status:
  assumes "mstd_api L" "inv_at L [] c" "\<not> in_use c"
  shows "\<exists>ps. fst (LM_conn_trans_list L CONN s c) = Some ps \<and> distinct ps \<and>
    set ps = {p. \<exists>t. txns c p = Some t \<and> (s = LM_TRANS_STATUS_ALL \<or> status t = s)} \<and>
    fst (LM_conn_trans_count L CONN s c) = card {p. \<exists>t. txns c p = Some t \<and> (s = LM_TRANS_STATUS_ALL \<or> status t = s)}"
proof -
  have c: "core_inv L c" "trans_delay_rm c = []"
    using assms(2,3) by (auto simp: inv_at_def lm_inv_def core_inv_def delay_inv_def)
  show ?thesis
    using status_list_set [OF c, of s] distinct_card [of "status_list s c"]
    by (simp add: mstd_api.trans_list_eq [OF assms(1)] mstd_api.trans_count_eq [OF assms(1)])
qed

lemma list_by_status_witness:
  "fst (LM_conn_trans_list (mstd_ref []) CONN LM_TRANS_STATUS_NEW (sample_conn LM_CONN_STATUS_CONNECTED)) = Some [1]"
proof -
  from list_by_status [OF ref.mstd_api_axioms sample_inv [of "[]" LM_CONN_STATUS_CONNECTED],
      where s = LM_TRANS_STATUS_NEW]
  obtain ps where "fst (LM_conn_trans_list (mstd_ref []) CONN LM_TRANS_STATUS_NEW (sample_conn LM_CONN_STATUS_CONNECTED)) = Some ps"
    "distinct ps" "set ps = {1}"
    by (auto split: if_splits)
  moreover from this(2,3) have "ps = [1]"
  proof (cases ps)
    case (Cons a as)
    with \<open>set ps = {1}\<close> \<open>distinct ps\<close> have "a = 1" "set as \<subseteq> {1}" "1 \<notin> set as" by auto
    with Cons show ?thesis by (cases as) auto
  qed simp
  ultimately show ?thesis by simp
qed

text \<open>
  Round trip between a transaction and its number: the number of every transaction finds it
  again, and a number that no transaction has finds nothing.
\<close>

theorem id_roundtrip:
  assumes "mstd_api L" "inv_at L [] c" "txns c p = Some t"
  shows "fst (LM_conn_get_trans_by_internal_id L CONN (fst (LM_trans_internal_id (Some p) c)) c) = Some p \<and>
    (\<forall>k. fst (LM_conn_get_trans_by_internal_id L CONN k c) = None \<longleftrightarrow>
       (\<forall>q u. txns c q = Some u \<longrightarrow> trans_id u \<noteq> k))"
proof -
  have m: "M_hash_u64vp_get L (trans_id_map c) k = Some q \<longleftrightarrow> (\<exists>u. txns c q = Some u \<and> trans_id u = k)" for k q
    using assms(2) core_inv_map by (auto simp: inv_at_def lm_inv_def)
  then have "M_hash_u64vp_get L (trans_id_map c) k = None \<longleftrightarrow> (\<forall>q u. txns c q = Some u \<longrightarrow> trans_id u \<noteq> k)" for k
    by (metis not_None_eq)
  with m assms(3) show ?thesis
    by (simp add: LM_conn_get_trans_by_internal_id_def LM_trans_internal_id_def)
qed

lemma id_roundtrip_witness:
  "fst (LM_conn_get_trans_by_internal_id (mstd_ref []) CONN 7 (sample_conn LM_CONN_STATUS_CONNECTED)) = Some 1"
  using id_roundtrip [OF ref.mstd_api_axioms sample_inv [of "[]" LM_CONN_STATUS_CONNECTED],
    where p = 1 and t = sample_trans]
  by (simp add: LM_trans_internal_id_def)

section \<open>Initialisation of the library\<close>

text \<open>
  The initialisation runs once: the first call does it, with the flags it was given, every
  later call does nothing and says so, until the clean-up has run.
\<close>

theorem init_once:
  assumes "once_api L" "LM_init L flags g = (r, g')"
  shows "r = (\<not> LM_once g) \<and> LM_once g' \<and> LM_init L flags' g' = (False, g') \<and>
    (r \<longrightarrow> tls_init g' = Some (if flags AND LM_INIT_SSLLOCK_EXTERNAL \<noteq> 0 then M_TLS_INIT_EXTERNAL
                             else M_TLS_INIT_NORMAL) \<and>
      cleanup_handlers g' = Suc (cleanup_handlers g)) \<and>
    fst (LM_init L flags' (LM_init_destructor g'))"
  using assms
  by (auto simp: LM_init_def LM_init_int_def LM_init_destructor_def once_api.thread_once Let_def split: if_splits)

lemma init_once_witness:
  "\<not> fst (LM_init (mstd_ref []) 1 \<lparr>LM_once = True, tls_init = Some M_TLS_INIT_NORMAL, cleanup_handlers = 1\<rparr>)"
proof -
  let ?g = "\<lparr>LM_once = True, tls_init = Some M_TLS_INIT_NORMAL, cleanup_handlers = 1\<rparr>"
  obtain r g' where r: "LM_init (mstd_ref []) 1 ?g = (r, g')" by (metis surj_pair)
  from init_once [OF ref_once.once_api_axioms r, where flags' = 0] have "\<not> r" by simp
  with r show ?thesis by simp
qed

end
