(* ===== verification/LM_Trans_Spec.thy ===== *)
theory LM_Trans_Spec
  imports LM_Conn_Spec
begin

text \<open>
  What the operations of a transaction do: creation, parameters, sending on every branch,
  deletion, and the accessors of the response.
\<close>

section \<open>Creation\<close>

text \<open>
  A new transaction is fresh: its memory was not in use, its number was nobody's, it is
  \<open>NEW\<close> and empty, at the end of its queue, and no other transaction, and nothing on the wire,
  is touched.
\<close>

theorem new_is_fresh:
  assumes "mstd_rand_api L" "inv_at L [] c" "ids_left c"
  shows "\<exists>p k c'. LM_trans_new L CONN c = Some (Some p, c') \<and> txns c p = None \<and>
    (\<forall>q t. txns c q = Some t \<longrightarrow> trans_id t \<noteq> k) \<and>
    txns c' = (txns c)(p \<mapsto> zero_trans\<lparr>trans_id := k, status := LM_TRANS_STATUS_NEW\<rparr>) \<and>
    trans_new c' = trans_new c @ [p] \<and> trans_ready c' = trans_ready c \<and>
    trans_pending c' = trans_pending c \<and> trans_done c' = trans_done c \<and>
    outbuf c' = outbuf c \<and> conn_status c' = conn_status c"
proof -
  obtain k cs where r: "LM_trans_new L CONN c =
      Some (Some (next_ptr c),
            c\<lparr>next_ptr := Suc (next_ptr c), txns := (txns c)(next_ptr c \<mapsto> new_trans k),
              trans_new := trans_new c @ [next_ptr c],
              trans_id_map := M_hash_u64vp_insert L (trans_id_map c) k (next_ptr c),
              calls := cs\<rparr>)"
    and k: "M_hash_u64vp_get L (trans_id_map c) k = None"
    by (rule mstd_rand_api.trans_new_total [OF assms]) blast
  have core: "core_inv L c" using assms(2) by (simp add: inv_at_def lm_inv_def)
  have "txns c (next_ptr c) = None"
    using core_inv_below [OF core, of "next_ptr c"] by (cases "txns c (next_ptr c)") auto
  moreover have "trans_id t \<noteq> k" if "txns c q = Some t" for q t
    using core_inv_map [OF core, of k q] k that by auto
  moreover have "new_trans k = zero_trans\<lparr>trans_id := k, status := LM_TRANS_STATUS_NEW\<rparr>"
    by (simp add: new_trans_def zero_trans_def)
  ultimately show ?thesis using r by fastforce
qed

lemma new_is_fresh_witness:
  "\<exists>p c'. LM_trans_new (mstd_ref []) CONN (sample_conn LM_CONN_STATUS_CONNECTED) = Some (Some p, c') \<and>
    p \<noteq> 1 \<and> trans_new c' = [1, p]"
proof -
  have "ids_left (sample_conn LM_CONN_STATUS_CONNECTED)" by (simp add: ids_left_def queues_def)
  from new_is_fresh [OF ref_rand.mstd_rand_api_axioms sample_inv this, where input1 = "[]"]
  obtain p k c' where r: "LM_trans_new (mstd_ref []) CONN (sample_conn LM_CONN_STATUS_CONNECTED) = Some (Some p, c')"
    and k: "txns (sample_conn LM_CONN_STATUS_CONNECTED) p = None"
    and n: "trans_new c' = trans_new (sample_conn LM_CONN_STATUS_CONNECTED) @ [p]"
    by blast
  have "p \<noteq> 1" using k by auto
  with r n show ?thesis by auto
qed

section \<open>Request parameters\<close>

text \<open>
  A parameter is taken only by a transaction that has not been sent, under a key that is
  not empty; then it can be read back under its key (in either case of letters), every other
  parameter and every other field and transaction is as before. Otherwise nothing changes.
\<close>

theorem set_param_effect:
  assumes "string_api L" "dict_api L" "txns c p = Some t" "LM_trans_set_param L (Some p) key v c = (ok, c')"
  shows "if status t = LM_TRANS_STATUS_NEW \<and> key \<noteq> None \<and> key \<noteq> Some []
    then ok \<and> (\<exists>d. txns c' = (txns c)(p \<mapsto> t\<lparr>request_params := Some d\<rparr>) \<and>
      (\<forall>k. M_hash_dict_get_direct L (Some d) k =
         (if lowers k = lowers (the key) then v else M_hash_dict_get_direct L (request_params t) k)))
    else \<not> ok \<and> txns c' = txns c"
proof (cases "status t = LM_TRANS_STATUS_NEW \<and> key \<noteq> None \<and> key \<noteq> Some []")
  case True
  then obtain k0 where k0: "key = Some k0" "k0 \<noteq> []" by auto
  let ?d = "M_hash_dict_insert L (case request_params t of None \<Rightarrow> [] | Some d \<Rightarrow> d) k0 v"
  have "ok" "txns c' = (txns c)(p \<mapsto> t\<lparr>request_params := Some ?d\<rparr>)"
    using True k0 assms(3,4)
    by (auto simp: LM_trans_set_param_def Let_def string_api.isempty [OF assms(1)] live_def
        split: if_splits)
  moreover have "M_hash_dict_get_direct L (Some ?d) k =
      (if lowers k = lowers k0 then v else M_hash_dict_get_direct L (request_params t) k)" for k
    using k0(2) assms(2)
    by (simp add: dict_api.get_insert dict_api.get_empty dict_api.get_null split: option.split)
  ultimately show ?thesis using True k0 by auto
next
  case False
  with assms(3,4) show ?thesis
    by (auto simp: LM_trans_set_param_def Let_def string_api.isempty [OF assms(1)] live_def
        split: if_splits)
qed

lemma set_param_effect_witness:
  "fst (LM_trans_set_param (mstd_ref []) (Some 1) (Some ''Amount'') (Some ''12.00'') (sample_conn LM_CONN_STATUS_CONNECTED))"
proof -
  obtain ok c' where r: "LM_trans_set_param (mstd_ref []) (Some 1) (Some ''Amount'') (Some ''12.00'')
      (sample_conn LM_CONN_STATUS_CONNECTED) = (ok, c')"
    by (metis surj_pair)
  from set_param_effect [OF ref_string.string_api_axioms ref_dict.dict_api_axioms _ r, of sample_trans]
  have ok by simp
  with r show ?thesis by simp
qed

section \<open>Sending\<close>

text \<open>
  Misuse: a NULL transaction, one that was sent already, and one without a parameter are
  refused, and nothing but the locks is touched.
\<close>

theorem send_refused:
  assumes "mstd_api L" "inv_at L [] c"
    and "tp = None \<or> (\<exists>p t. tp = Some p \<and> txns c p = Some t \<and>
      (status t \<noteq> LM_TRANS_STATUS_NEW \<or> M_hash_dict_num_keys L (request_params t) = 0))"
  shows "\<exists>cs. LM_trans_send L tp c = Some (False, c\<lparr>calls := cs\<rparr>) \<and> locks_held cs = Some []"
proof (cases tp)
  case None
  have "c\<lparr>calls := calls c\<rparr> = c" by (cases c) simp
  with None assms(2) show ?thesis
    by (intro exI [of _ "calls c"]) (simp add: LM_trans_send_def inv_at_def)
next
  case (Some p)
  with assms(3) obtain t where t: "txns c p = Some t"
    "status t \<noteq> LM_TRANS_STATUS_NEW \<or> M_hash_dict_num_keys L (request_params t) = 0"
    by auto
  have "\<not> conn_freed c" using inv_at_not_freed [OF assms(2)] .
  then have "unlock_conn (unlock_trans p (lock_trans p (lock_conn c))) =
      c\<lparr>calls := [Mutex_unlock Conn_lock, Mutex_unlock (Trans_lock p), Mutex_lock (Trans_lock p),
                  Mutex_lock Conn_lock] @ calls c\<rparr>"
    using t(1) by (simp add: lock_conn_def unlock_conn_def lock_trans_def unlock_trans_def touch_def
        touch_trans_def live_def ext_def)
  then show ?thesis
    using t assms(2) Some mstd_api.trans_send_eq [OF assms(1,2) t(1)]
    by (intro exI [of _ "[Mutex_unlock Conn_lock, Mutex_unlock (Trans_lock p),
        Mutex_lock (Trans_lock p), Mutex_lock Conn_lock] @ calls c"]) (simp add: inv_at_def)
qed

lemma send_refused_witness:
  "\<exists>cs. LM_trans_send (mstd_ref []) None (sample_conn LM_CONN_STATUS_CONNECTED) =
     Some (False, (sample_conn LM_CONN_STATUS_CONNECTED)\<lparr>calls := cs\<rparr>) \<and> locks_held cs = Some []"
  by (rule send_refused [OF ref.mstd_api_axioms sample_inv]) simp

context mstd_api
begin

lemma readied_frames:
  assumes "core_inv L c" "txns c p = Some t" "status t = LM_TRANS_STATUS_NEW"
  shows "map (\<lambda>q. request_frame L (trans_at (readied p t c) q)) (trans_ready (readied p t c)) =
    map (\<lambda>q. request_frame L (trans_at c q)) (trans_ready c @ [p])"
proof -
  have "p \<notin> set (trans_ready c)" using core_inv_notin(2) [OF assms(1,2)] assms(3) by simp
  then show ?thesis
    using assms(2) by (auto simp: readied_def trans_at_def request_frame_def)
qed

lemma send_online:
  assumes "inv_at L [] c" "conn_status c = LM_CONN_STATUS_CONNECTED"
    and t: "txns c p = Some t" "status t = LM_TRANS_STATUS_NEW" "M_hash_dict_num_keys L (request_params t) \<noteq> 0"
  obtains c' where "LM_trans_send L (Some p) c = Some (True, c')"
    and "outbuf c' = outbuf c @ concat (map (\<lambda>q. request_frame L (trans_at c q)) (trans_ready c @ [p]))"
    and "trans_new c' = remove1 p (trans_new c)" "trans_ready c' = []"
    and "trans_pending c' = trans_pending c @ trans_ready c @ [p]" "trans_done c' = trans_done c"
    and "conn_status c' = LM_CONN_STATUS_CONNECTED" "core_inv L c'"
    and "\<And>q. q \<notin> set (trans_ready c @ [p]) \<Longrightarrow> txns c' q = txns c q"
    and "Trigger_signal (write_trigger c) \<in> set (calls c') \<or> outbuf c \<noteq> []"
proof -
  let ?r = "readied p t c"
  have core: "core_inv L c" using assms(1) by (simp add: inv_at_def lm_inv_def)
  have frames: "map (\<lambda>q. request_frame L (trans_at ?r q)) (trans_ready ?r) =
      map (\<lambda>q. request_frame L (trans_at c q)) (trans_ready c @ [p])"
    by (rule readied_frames [OF core t(1,2)])
  obtain d h n cs where eq: "send_loop L ?r = Some d"
    and d: "d = ?r\<lparr>trans_ready := [], trans_pending := trans_pending ?r @ trans_ready ?r, txns := h,
      outbuf := outbuf ?r @ concat (map (\<lambda>q. request_frame L (trans_at ?r q)) (trans_ready ?r)),
      next_handle := n, calls := cs\<rparr>"
    and inv: "core_at L [Conn_lock] d"
    and h: "\<And>q. q \<notin> set (trans_ready ?r) \<Longrightarrow> h q = txns ?r q"
    by (rule send_loop_result [OF inv_at_core [OF readied_inv [OF assms(1) t(1,2)]]]) blast
  have sel: "outbuf ?r = outbuf c" "trans_pending ?r = trans_pending c" "trans_done ?r = trans_done c"
    "trans_new ?r = remove1 p (trans_new c)" "trans_ready ?r = trans_ready c @ [p]"
    "conn_status ?r = conn_status c" "write_trigger ?r = write_trigger c"
    "\<And>q. q \<noteq> p \<Longrightarrow> txns ?r q = txns c q"
    by (simp_all add: readied_def)
  let ?out = "outbuf c @ concat (map (\<lambda>q. request_frame L (trans_at c q)) (trans_ready c @ [p]))"
  have out: "outbuf d = ?out" "?out \<noteq> []"
    by (simp_all only: d frames [unfolded sel(5)] sel) (simp_all add: d frames [unfolded sel(5)] sel request_frame_def frame_def)
  define e where "e = ext (Timer_stop (timer d)) d"
  define f where "f = (if outbuf c = [] then ext (Trigger_signal (write_trigger e)) e else e)"
  have pend: "trans_pending d \<noteq> []" by (simp add: d sel)
  have "LM_trans_send_messages L ?r = Some f"
    using assms(2) out pend
    by (simp add: LM_trans_send_messages_def eq e_def f_def sel Let_def)
  then have 1: "LM_trans_send L (Some p) c = Some (True, unlock_conn f)"
    using t trans_send_eq [OF assms(1) t(1)] by simp
  have "core_inv L f"
    using inv by (simp add: e_def f_def core_at_def lm_inv_simps)
  moreover from this have u: "unlock_conn f = ext (Mutex_unlock Conn_lock) f"
    by (simp add: core_inv_not_freed lock_conn_frame)
  ultimately have "core_inv L (unlock_conn f)"
    by (simp add: lm_inv_simps)
  with 1 show ?thesis
    using out(1) sel h assms(2) unfolding u
    by (intro that [of "ext (Mutex_unlock Conn_lock) f"]) (simp_all add: f_def e_def d frames [unfolded sel(5)])
qed

end

text \<open>
  C15. Sending on a connection that is up: the request goes to the end of the bytes to send,
  framed, after those of the transactions that were ready before it (first come, first served);
  all of them are pending then and no other transaction has changed; and when the buffer was
  empty, the write trigger is signalled, so that the bytes get written.
\<close>

theorem send_when_connected:
  assumes "mstd_api L" "inv_at L [] c" "conn_status c = LM_CONN_STATUS_CONNECTED"
    and "txns c p = Some t" "status t = LM_TRANS_STATUS_NEW" "M_hash_dict_num_keys L (request_params t) \<noteq> 0"
  shows "\<exists>c'. LM_trans_send L (Some p) c = Some (True, c') \<and>
    outbuf c' = outbuf c @ concat (map (\<lambda>q. request_frame L (trans_at c q)) (trans_ready c @ [p])) \<and>
    trans_new c' = remove1 p (trans_new c) \<and> trans_ready c' = [] \<and>
    trans_pending c' = trans_pending c @ trans_ready c @ [p] \<and> trans_done c' = trans_done c \<and>
    (\<forall>q. q \<notin> set (trans_ready c @ [p]) \<longrightarrow> txns c' q = txns c q) \<and>
    (outbuf c = [] \<longrightarrow> Trigger_signal (write_trigger c) \<in> set (calls c'))"
proof -
  obtain c' where c': "LM_trans_send L (Some p) c = Some (True, c')"
    "outbuf c' = outbuf c @ concat (map (\<lambda>q. request_frame L (trans_at c q)) (trans_ready c @ [p]))"
    "trans_new c' = remove1 p (trans_new c)" "trans_ready c' = []"
    "trans_pending c' = trans_pending c @ trans_ready c @ [p]" "trans_done c' = trans_done c"
    "\<And>q. q \<notin> set (trans_ready c @ [p]) \<Longrightarrow> txns c' q = txns c q"
    "Trigger_signal (write_trigger c) \<in> set (calls c') \<or> outbuf c \<noteq> []"
    by (rule mstd_api.send_online [OF assms]) blast
  show ?thesis by (intro exI [of _ c'] conjI allI impI c'(1-7)) (use c'(8) in simp_all)
qed

lemma send_when_connected_witness:
  "\<exists>c'. LM_trans_send (mstd_ref []) (Some 1) (sample_conn LM_CONN_STATUS_CONNECTED) = Some (True, c') \<and>
     trans_pending c' = [1] \<and> outbuf c' = frame 7 (''action=sale'' @ [CHR 0x0A])"
proof -
  have n: "M_hash_dict_num_keys (mstd_ref []) (request_params sample_trans) \<noteq> 0"
    and f: "request_frame (mstd_ref []) (trans_at (sample_conn LM_CONN_STATUS_CONNECTED) 1) =
      frame 7 (''action=sale'' @ [CHR 0x0A])"
    by code_simp+
  from send_when_connected [OF ref.mstd_api_axioms sample_inv _ _ _ n, of LM_CONN_STATUS_CONNECTED 1] f
  show ?thesis by fastforce
qed



section \<open>Deletion\<close>

context mstd_api
begin

lemma delete_idle:
  assumes "inv_at L [] c" "\<not> in_use c" "txns c p = Some t"
  obtains cs where "LM_trans_delete L (Some p) c = c\<lparr>
    trans_new := remove1 p (trans_new c), trans_ready := remove1 p (trans_ready c),
    trans_pending := remove1 p (trans_pending c), trans_done := remove1 p (trans_done c),
    trans_id_map := M_hash_u64vp_remove L (trans_id_map c) (trans_id t),
    txns := (txns c)(p := None), calls := cs\<rparr>"
proof -
  have core: "core_inv L c" using assms(1) by (simp add: inv_at_def lm_inv_def)
  have nf: "\<not> conn_freed c" using core by (rule core_inv_not_freed)
  let ?t = "t\<lparr>user_data := None, timeout_timer := None\<rparr>"
  define e where "e = c\<lparr>txns := (txns c)(p \<mapsto> ?t),
    calls := (case timeout_timer t of None \<Rightarrow> [] | Some h \<Rightarrow> [Timer_remove (Some h)]) @ Mutex_lock Conn_lock # calls c\<rparr>"
  have wf: "trans_wf t" by (rule core_inv_wf [OF core assms(3)])
  have "core_inv L (c\<lparr>txns := (txns c)(p \<mapsto> ?t)\<rparr>)"
    by (rule move_update [OF core assms(3)]) (use wf in simp_all)
  then have ecore: "core_inv L e"
    by (rule core_inv_transfer) (simp_all add: e_def)
  have "trans_delay_rm e = []"
    using core assms(2) by (simp add: e_def core_inv_def delay_inv_def)
  then have same: "e = e\<lparr>trans_delay_rm := remove1 p (trans_delay_rm e)\<rparr>" by simp
  have et: "txns e p = Some ?t" by (simp add: e_def)
  have t_eq: "?t = t\<lparr>user_data := None\<rparr>" "t\<lparr>timeout_timer := None, user_data := None\<rparr> = t\<lparr>user_data := None\<rparr>"
    if "timeout_timer t = None"
    using that by (cases t, simp)+
  have swap: "c\<lparr>calls := x, txns := y\<rparr> = c\<lparr>txns := y, calls := x\<rparr>" for x y by simp
  have "LM_trans_delete L (Some p) c = unlock_conn (LM_trans_delete_unlocked L (Some p) e)"
  proof (cases "timeout_timer t")
    case None
    from None assms(2,3) nf show ?thesis
      by (simp add: LM_trans_delete_def live_def e_def Let_def lock_conn_frame ext_def t_eq(1) [OF None] swap)
  next
    case (Some h)
    with assms(2,3) nf show ?thesis
      by (simp add: LM_trans_delete_def live_def e_def Let_def lock_conn_frame ext_def swap)
  qed
  also have "\<dots> = unlock_conn (e\<lparr>
    trans_new := remove1 p (trans_new e), trans_ready := remove1 p (trans_ready e),
    trans_pending := remove1 p (trans_pending e), trans_done := remove1 p (trans_done e),
    trans_id_map := M_hash_u64vp_remove L (trans_id_map e) (trans_id ?t),
    txns := (txns e)(p := None), calls := delete_calls L p e @ calls e\<rparr>)"
    by (subst delete_unlocked_eq [OF ecore et same]) simp
  also have "\<dots> = c\<lparr>
    trans_new := remove1 p (trans_new c), trans_ready := remove1 p (trans_ready c),
    trans_pending := remove1 p (trans_pending c), trans_done := remove1 p (trans_done c),
    trans_id_map := M_hash_u64vp_remove L (trans_id_map c) (trans_id t),
    txns := (txns c)(p := None), calls := Mutex_unlock Conn_lock # delete_calls L p e @ calls e\<rparr>"
    using nf by (simp add: e_def unlock_conn_def touch_def ext_def)
  finally show ?thesis by (rule that)
qed

end

text \<open>
  Deleting between events: the transaction is gone from memory, from its queue and from the
  table of numbers, and every other transaction is as it was. Deleting inside a callback is put
  off: the transaction stays readable (the event being delivered may still name it), marked
  once for deletion after the event.
\<close>

theorem delete_effect:
  assumes "mstd_api L" "inv_at L [] c" "txns c p = Some t" "c' = LM_trans_delete L (Some p) c"
  shows "if in_use c
    then txns c' p \<noteq> None \<and> trans_delay_rm c' = trans_delay_rm c @ [p] \<and>
      (\<forall>q. q \<noteq> p \<longrightarrow> txns c' q = txns c q) \<and> queues c' = queues c
    else txns c' = (txns c)(p := None) \<and> p \<notin> set (queues c') \<and> set (queues c') = set (queues c) - {p} \<and>
      (\<forall>k. M_hash_u64vp_get L (trans_id_map c') k =
         (if k = trans_id t then None else M_hash_u64vp_get L (trans_id_map c) k))"
proof (cases "in_use c")
  case True
  obtain cs where "LM_trans_delete L (Some p) c =
      c\<lparr>trans_delay_rm := trans_delay_rm c @ [p], txns := (txns c)(p \<mapsto> deleted_trans t),
        calls := Mutex_unlock Conn_lock # cs @ Mutex_lock Conn_lock # calls c\<rparr>"
    by (rule mstd_api.delete_busy_eq [OF assms(1,3) True inv_at_not_freed [OF assms(2)]])
  with True assms(4) show ?thesis by (simp add: queues_def)
next
  case False
  obtain cs where r: "LM_trans_delete L (Some p) c = c\<lparr>
      trans_new := remove1 p (trans_new c), trans_ready := remove1 p (trans_ready c),
      trans_pending := remove1 p (trans_pending c), trans_done := remove1 p (trans_done c),
      trans_id_map := M_hash_u64vp_remove L (trans_id_map c) (trans_id t),
      txns := (txns c)(p := None), calls := cs\<rparr>"
    by (rule mstd_api.delete_idle [OF assms(1,2) False assms(3)])
  have "core_inv L c" using assms(2) by (simp add: inv_at_def lm_inv_def)
  then have "set (queues c') = set (queues c) - {p}"
    using core_inv_distinct [of L c] by (simp add: assms(4) r queues_def Un_Diff)
  moreover have "M_hash_u64vp_get L (M_hash_u64vp_remove L m k) k' =
      (if k' = k then None else M_hash_u64vp_get L m k')" for m k k'
    using mstd_api.axioms(4) [OF assms(1)] by (simp add: id_map_api.id_get_remove)
  ultimately show ?thesis using False by (simp add: assms(4) r)
qed

lemma delete_effect_witness:
  "txns (LM_trans_delete (mstd_ref []) (Some 1) (sample_conn LM_CONN_STATUS_CONNECTED)) 1 = None"
  using delete_effect [OF ref.mstd_api_axioms [of "[]"] sample_inv [of "[]" LM_CONN_STATUS_CONNECTED],
    where p = 1 and t = sample_trans] by simp

section \<open>Responses\<close>

text \<open>
  A CSV response is parsed once: the first access parses the raw text (up to the first
  NUL) and drops it; every later access gives the same table and changes no transaction.
\<close>

theorem csv_parsed_once:
  assumes "txns c p = Some t" "status t = LM_TRANS_STATUS_DONE" "response_type t = LM_TRANS_RESPONSE_CSV"
    and "LM_trans_response_csv L (Some p) c = (r, c')"
  shows "fst (LM_trans_response_csv L (Some p) c') = r \<and>
    txns (snd (LM_trans_response_csv L (Some p) c')) = txns c' \<and>
    (\<forall>raw. response_raw t = Some raw \<and> response_csv t = None \<longrightarrow>
       r = M_csv_parse_inplace L (c_string raw) \<and>
       txns c' = (txns c)(p \<mapsto> t\<lparr>response_csv := r, response_raw := None\<rparr>) \<and>
       fst (LM_trans_response_raw (Some p) c') = None)"
proof (cases "response_raw t \<noteq> None \<and> response_csv t = None")
  case True
  then obtain raw where raw: "response_raw t = Some raw" "response_csv t = None" by auto
  then have "r = M_csv_parse_inplace L (c_string raw)"
    and c': "txns c' = (txns c)(p \<mapsto> t\<lparr>response_csv := r, response_raw := None\<rparr>)"
    using assms by (auto simp: LM_trans_response_csv_def live_def Let_def)
  then show ?thesis
    using assms(2,3) raw
    by (auto simp: LM_trans_response_csv_def LM_trans_response_raw_def trans_at_def Let_def)
next
  case False
  then have "r = response_csv t" "txns c' = txns c"
    using assms by (auto simp: LM_trans_response_csv_def live_def Let_def split: option.splits)
  with False assms(1-3) show ?thesis
    by (auto simp: LM_trans_response_csv_def live_def Let_def split: option.splits)
qed

definition sample_csv :: LM_conn where
  "sample_csv = zero_conn\<lparr>txns := [1 \<mapsto> zero_trans\<lparr>trans_id := 7, status := LM_TRANS_STATUS_DONE,
     response_type := LM_TRANS_RESPONSE_CSV, response_raw := Some ''a,b''\<rparr>], trans_done := [1],
     trans_id_map := [(7, 1)], next_ptr := 2\<rparr>"

lemma csv_parsed_once_witness:
  "fst (LM_trans_response_raw (Some 1) (snd (LM_trans_response_csv (mstd_ref []) (Some 1) sample_csv))) = None"
proof -
  obtain r c' where r: "LM_trans_response_csv (mstd_ref []) (Some 1) sample_csv = (r, c')" by (metis surj_pair)
  have "txns sample_csv 1 = Some (zero_trans\<lparr>trans_id := 7, status := LM_TRANS_STATUS_DONE,
     response_type := LM_TRANS_RESPONSE_CSV, response_raw := Some ''a,b''\<rparr>)"
    by (simp add: sample_csv_def zero_conn_def)
  from csv_parsed_once [OF this _ _ r] have "fst (LM_trans_response_raw (Some 1) c') = None"
    by (simp add: zero_trans_def)
  then show ?thesis unfolding r snd_conv .
qed

end
