(* ===== verification/LM_Wire_Spec.thy ===== *)
theory LM_Wire_Spec
  imports LM_World
begin

text \<open>
  What travels on the wire: responses are read back exactly as they were framed, however the
  stream is cut into pieces; the format of a response; the quoting of values.
\<close>

section \<open>Framing\<close>

lemma parse_msg_inbuf:
  "LM_conn_parse_msg L tp m (c\<lparr>inbuf := x\<rparr>) =
     (let (e, t, d) = LM_conn_parse_msg L tp m c in (e, t, d\<lparr>inbuf := x\<rparr>))"
  by (simp add: LM_conn_parse_msg_def touch_trans_def live_def trans_at_def lock_trans_def
      unlock_trans_def upd_trans_def ext_def Let_def split: option.split)

context mstd_api
begin

lemma read_id:
  "M_parser_read_uint L \<lparr>p_mark = None, p_rest = decimal (unat k) @ FS # data\<rparr> =
     Some (k, \<lparr>p_mark = None, p_rest = FS # data\<rparr>)"
proof -
  have "unat k < 18446744073709551616"
    using unsigned_less [of k, where 'a = nat] by simp
  then show ?thesis
    using parser_read_uint_some [of "\<lparr>p_mark = None, p_rest = decimal (unat k) @ FS # data\<rparr>"
        "decimal (unat k)" "FS # data"]
    by (auto simp: undecimal_decimal dest: decimal_digits)
qed

lemma frame_body:
  assumes "data \<noteq> []" "ETX \<notin> set data"
  shows "ETX \<notin> set (decimal (unat k) @ FS # data)" "3 \<le> length (decimal (unat k) @ FS # data)"
proof -
  show "ETX \<notin> set (decimal (unat k) @ FS # data)"
    using assms(2) decimal_digits control_not_digit(2) by fastforce
  have "length (decimal (unat k)) > 0" by simp
  with assms(1) show "3 \<le> length (decimal (unat k) @ FS # data)"
    by (cases data) (auto simp: Suc_le_eq)
qed

lemma parse_msg_success:
  assumes "txns c p = Some t" "status t = LM_TRANS_STATUS_PENDING"
    and "M_hash_u64vp_get L (trans_id_map c) (trans_id t) = Some p"
    and "distinct (trans_pending c)" "p \<notin> set (trans_done c)"
  shows "LM_conn_parse_msg L tp (decimal (unat (trans_id t)) @ FS # data) c =
    (LM_CONN_PARSE_ERROR_SUCCESS, Some p, completed L p data c)"
  using assms
  by (simp add: LM_conn_parse_msg_def FS_def [symmetric] read_id live_def completed_def lock_trans_def
      unlock_trans_def ext_def Let_def)

lemma frame_parsed:
  assumes "txns c p = Some t" "status t = LM_TRANS_STATUS_PENDING"
    and "M_hash_u64vp_get L (trans_id_map c) (trans_id t) = Some p"
    and "distinct (trans_pending c)" "p \<notin> set (trans_done c)"
    and "p_rest (inbuf c) = frame (trans_id t) data @ rest" "data \<noteq> []" "ETX \<notin> set data"
  shows "LM_conn_parse_trans_buffer L tp c =
    Some (LM_CONN_PARSE_ERROR_SUCCESS, Some p,
      (completed L p data c)\<lparr>inbuf := \<lparr>p_mark = None, p_rest = rest\<rparr>\<rparr>)"
  using buffer_frame [of c "decimal (unat (trans_id t)) @ FS # data" rest tp] assms(6)
    frame_body [OF assms(7,8), of "trans_id t"] parse_msg_success [OF assms(1-5)]
  by (simp add: frame_def parse_msg_inbuf Let_def)

lemma orphan_frame:
  assumes "p_rest (inbuf c) = frame k data @ rest" "data \<noteq> []" "ETX \<notin> set data"
    and "\<forall>p. M_hash_u64vp_get L (trans_id_map c) k = Some p \<longrightarrow>
           (\<exists>t. txns c p = Some t \<and> status t \<noteq> LM_TRANS_STATUS_PENDING)"
  shows "LM_conn_parse_trans_buffer L tp c =
    LM_conn_parse_trans_buffer L (M_hash_u64vp_get L (trans_id_map c) k)
      (c\<lparr>inbuf := \<lparr>p_mark = None, p_rest = rest\<rparr>\<rparr>)"
proof -
  have "LM_conn_parse_msg L tp (decimal (unat k) @ FS # data) c =
      (LM_CONN_PARSE_ERROR_WAIT, M_hash_u64vp_get L (trans_id_map c) k, c)"
    using assms(4)
    by (auto simp: LM_conn_parse_msg_def FS_def [symmetric] read_id live_def Let_def split: option.split)
  then show ?thesis
    using buffer_frame [of c "decimal (unat k) @ FS # data" rest tp] assms(1)
      frame_body [OF assms(2,3), of k]
    by (simp add: frame_def parse_msg_inbuf Let_def)
qed

lemma chunks:
  assumes "LM_conn_parse_trans_buffer L tp (c\<lparr>inbuf := \<lparr>p_mark = None, p_rest = s1\<rparr>\<rparr>) = Some (err, tp', d)"
    and "err \<noteq> LM_CONN_PARSE_ERROR_ERROR"
  shows "LM_conn_parse_trans_buffer L tp (c\<lparr>inbuf := \<lparr>p_mark = None, p_rest = s1 @ s2\<rparr>\<rparr>) =
    (let d' = d\<lparr>inbuf := \<lparr>p_mark = None, p_rest = p_rest (inbuf d) @ s2\<rparr>\<rparr> in
     if err = LM_CONN_PARSE_ERROR_WAIT then LM_conn_parse_trans_buffer L tp' d'
     else Some (err, tp', d'))"
  using assms(1)
proof (induction "length s1" arbitrary: s1 c tp rule: less_induct)
  case less
  let ?c = "\<lambda>s. c\<lparr>inbuf := \<lparr>p_mark = None, p_rest = s\<rparr>\<rparr>"
  show ?case
  proof (cases s1 rule: buffer_cases)
    case short
    with less.prems buffer_short [of "?c s1" tp] show ?thesis by auto
  next
    case (not_stx b bs)
    with less.prems assms(2) buffer_not_stx [of "?c s1" b bs tp] show ?thesis by auto
  next
    case (partial bs)
    with less.prems buffer_partial [of "?c s1" bs tp] show ?thesis by auto
  next
    case (frame bs rest)
    note frame1 = buffer_frame [of "?c s1" bs rest tp]
    obtain e t x where m: "LM_conn_parse_msg L tp bs c = (e, t, x)" by (metis prod_cases3)
    have "\<not> length bs < 3"
      using less.prems frame1 frame assms(2) by (auto simp: Let_def)
    then have 1: "LM_conn_parse_trans_buffer L tp (?c (s1 @ r)) =
        (if e = LM_CONN_PARSE_ERROR_WAIT
         then LM_conn_parse_trans_buffer L t (x\<lparr>inbuf := \<lparr>p_mark = None, p_rest = rest @ r\<rparr>\<rparr>)
         else Some (e, t, x\<lparr>inbuf := \<lparr>p_mark = None, p_rest = rest @ r\<rparr>\<rparr>))" for r
      using buffer_frame [of "?c (s1 @ r)" bs "rest @ r" tp] frame m
      by (simp add: parse_msg_inbuf Let_def)
    show ?thesis
    proof (cases "e = LM_CONN_PARSE_ERROR_WAIT")
      case True
      then have "LM_conn_parse_trans_buffer L t (x\<lparr>inbuf := \<lparr>p_mark = None, p_rest = rest\<rparr>\<rparr>) =
          Some (err, tp', d)"
        using less.prems 1 [of "[]"] by simp
      then show ?thesis
        using less.hyps [of rest t x] frame True 1 [of s2] by simp
    next
      case False
      then show ?thesis using less.prems 1 [of "[]"] 1 [of s2] by auto
    qed
  qed
qed

end

text \<open>
  C10. Round trip: a response framed the way requests are framed (STX, the id of a pending
  transaction in decimal, FS, the data, ETX) completes exactly that transaction with exactly
  that data; what follows it in the buffer stays there for the next call.
\<close>

theorem response_roundtrip:
  assumes "mstd_api L" "txns c p = Some t" "status t = LM_TRANS_STATUS_PENDING"
    and "M_hash_u64vp_get L (trans_id_map c) (trans_id t) = Some p"
    and "distinct (trans_pending c)" "p \<notin> set (trans_done c)"
    and "p_rest (inbuf c) = frame (trans_id t) data @ rest" "data \<noteq> []" "ETX \<notin> set data"
  shows "LM_conn_parse_trans_buffer L tp c =
    Some (LM_CONN_PARSE_ERROR_SUCCESS, Some p,
      (completed L p data c)\<lparr>inbuf := \<lparr>p_mark = None, p_rest = rest\<rparr>\<rparr>)"
  using mstd_api.frame_parsed [OF assms] .

text \<open>A connection with one pending transaction, number 7, and what the socket has delivered.\<close>

definition sample_pending :: "string \<Rightarrow> LM_conn" where
  "sample_pending s =
     zero_conn\<lparr>txns := [1 \<mapsto> zero_trans\<lparr>trans_id := 7, status := LM_TRANS_STATUS_PENDING\<rparr>],
       trans_pending := [1], trans_id_map := [(7, 1)], next_ptr := 2,
       io := Some 1, conn_status := LM_CONN_STATUS_CONNECTED,
       inbuf := \<lparr>p_mark = None, p_rest = s\<rparr>\<rparr>"

lemma sample_pending_sel [simp]:
  "txns (sample_pending s) 1 = Some (zero_trans\<lparr>trans_id := 7, status := LM_TRANS_STATUS_PENDING\<rparr>)"
  "trans_pending (sample_pending s) = [1]" "trans_done (sample_pending s) = []"
  "trans_id_map (sample_pending s) = [(7, 1)]"
  "p_rest (inbuf (sample_pending s)) = s"
  by (simp_all add: sample_pending_def zero_conn_def)

lemma response_roundtrip_witness:
  "LM_conn_parse_trans_buffer (mstd_ref []) None (sample_pending (frame 7 ''code=AUTH'' @ ''rest'')) =
    Some (LM_CONN_PARSE_ERROR_SUCCESS, Some 1,
      (completed (mstd_ref []) 1 ''code=AUTH'' (sample_pending (frame 7 ''code=AUTH'' @ ''rest'')))
        \<lparr>inbuf := \<lparr>p_mark = None, p_rest = ''rest''\<rparr>\<rparr>)"
  by (rule response_roundtrip [OF ref.mstd_api_axioms sample_pending_sel(1)])
    (simp_all add: ETX_def mstd_ref_def id_get_def)

text \<open>
  C11. The parser does not see how the stream is cut into reads: going on with more bytes after
  it has asked for them (WAIT), or after a transaction was taken off, is the same as having had
  all bytes at once.
\<close>

theorem parse_chunks:
  assumes "mstd_api L"
    and "LM_conn_parse_trans_buffer L tp (c\<lparr>inbuf := \<lparr>p_mark = None, p_rest = s1\<rparr>\<rparr>) = Some (err, tp', d)"
    and "err \<noteq> LM_CONN_PARSE_ERROR_ERROR"
  shows "LM_conn_parse_trans_buffer L tp (c\<lparr>inbuf := \<lparr>p_mark = None, p_rest = s1 @ s2\<rparr>\<rparr>) =
    (let d' = d\<lparr>inbuf := \<lparr>p_mark = None, p_rest = p_rest (inbuf d) @ s2\<rparr>\<rparr> in
     if err = LM_CONN_PARSE_ERROR_WAIT then LM_conn_parse_trans_buffer L tp' d'
     else Some (err, tp', d'))"
  using mstd_api.chunks [OF assms] .

lemma parse_chunks_witness:
  "map_option (\<lambda>(e, t, d). (e, t, p_rest (inbuf d)))
     (LM_conn_parse_trans_buffer (mstd_ref []) None
       ((sample_pending [])\<lparr>inbuf := \<lparr>p_mark = None, p_rest = frame 7 ''a=b'' @ ''zz''\<rparr>\<rparr>)) =
   Some (LM_CONN_PARSE_ERROR_SUCCESS, Some 1, ''zz'')"
proof -
  let ?c = "(sample_pending [])\<lparr>inbuf := \<lparr>p_mark = None, p_rest = frame 7 ''a=b''\<rparr>\<rparr>"
  have 1: "LM_conn_parse_trans_buffer (mstd_ref []) None ?c = Some (LM_CONN_PARSE_ERROR_SUCCESS, Some 1,
      (completed (mstd_ref []) 1 ''a=b'' ?c)\<lparr>inbuf := \<lparr>p_mark = None, p_rest = []\<rparr>\<rparr>)"
    by (rule mstd_api.frame_parsed [OF ref.mstd_api_axioms, where
          t = "zero_trans\<lparr>trans_id := 7, status := LM_TRANS_STATUS_PENDING\<rparr>"])
      (simp_all add: ETX_def mstd_ref_def id_get_def del: One_nat_def)
  show ?thesis
    using parse_chunks [OF ref.mstd_api_axioms 1, of "''zz''"] by simp
qed

text \<open>
  A response for nobody (unknown id, or a transaction that is not pending) changes nothing
  but \<open>*trans\<close>, and the loop goes on with the next message.
\<close>

theorem orphan_ignored:
  assumes "mstd_api L" "p_rest (inbuf c) = frame k data @ rest" "data \<noteq> []" "ETX \<notin> set data"
    and "\<forall>p. M_hash_u64vp_get L (trans_id_map c) k = Some p \<longrightarrow>
           (\<exists>t. txns c p = Some t \<and> status t \<noteq> LM_TRANS_STATUS_PENDING)"
  shows "LM_conn_parse_trans_buffer L tp c =
    LM_conn_parse_trans_buffer L (M_hash_u64vp_get L (trans_id_map c) k)
      (c\<lparr>inbuf := \<lparr>p_mark = None, p_rest = rest\<rparr>\<rparr>)"
  using mstd_api.orphan_frame [OF assms] .

lemma sample_no_9: "M_hash_u64vp_get (mstd_ref []) [(7, Suc 0)] 9 = None"
  by code_simp

lemma orphan_ignored_witness:
  "LM_conn_parse_trans_buffer (mstd_ref []) None (sample_pending (frame 9 ''x'')) =
   LM_conn_parse_trans_buffer (mstd_ref []) None
     ((sample_pending (frame 9 ''x''))\<lparr>inbuf := \<lparr>p_mark = None, p_rest = []\<rparr>\<rparr>)"
  using orphan_ignored [OF ref.mstd_api_axioms [of "[]"],
      where c = "sample_pending (frame 9 ''x'')" and k = 9 and data = "''x''" and rest = "[]" and tp = None]
  by (simp add: sample_no_9 ETX_def)

text \<open>
  C12. What is not a frame is an error: a byte other than STX at the start, and a frame too
  short for an id, the separator and a byte of data.
\<close>

theorem malformed_rejected:
  assumes "mstd_api L"
    and "(p_rest (inbuf c) = b # bs \<and> b \<noteq> STX \<and> 4 \<le> length bs) \<or>
         (p_rest (inbuf c) = STX # bs @ ETX # rest \<and> ETX \<notin> set bs \<and> length bs < 3 \<and>
          3 \<le> length bs + length rest)"
  shows "\<exists>ib. LM_conn_parse_trans_buffer L tp c = Some (LM_CONN_PARSE_ERROR_ERROR, tp, c\<lparr>inbuf := ib\<rparr>)"
  using assms(2)
proof
  assume "p_rest (inbuf c) = b # bs \<and> b \<noteq> STX \<and> 4 \<le> length bs"
  then have "LM_conn_parse_trans_buffer L tp c =
      Some (LM_CONN_PARSE_ERROR_ERROR, tp, c\<lparr>inbuf := inbuf c\<rparr>)"
    using mstd_api.buffer_not_stx [OF assms(1)] by simp
  then show ?thesis ..
next
  assume "p_rest (inbuf c) = STX # bs @ ETX # rest \<and> ETX \<notin> set bs \<and> length bs < 3 \<and>
    3 \<le> length bs + length rest"
  then show ?thesis
    using mstd_api.buffer_frame [OF assms(1), of c bs rest tp] by (auto simp: Let_def)
qed

lemma malformed_rejected_witness:
  "\<exists>ib. LM_conn_parse_trans_buffer (mstd_ref []) None (sample_pending ''HTTP/1.1'') =
     Some (LM_CONN_PARSE_ERROR_ERROR, None, (sample_pending ''HTTP/1.1'')\<lparr>inbuf := ib\<rparr>)"
  by (rule malformed_rejected [OF ref.mstd_api_axioms, where b = "CHR ''H''" and bs = "''TTP/1.1''"])
    (simp add: STX_def)

section \<open>The format of a response\<close>

text \<open>
  The rule the comment in the source states, as one expression: the first 32 bytes, and the
  first byte after the first that is not ordinary.
\<close>

definition ordinary :: "char \<Rightarrow> bool" where
  "ordinary b \<longleftrightarrow> is_alnum_sp b \<or> b = CHR 0x22 \<or> b = CHR ''_'' \<or> b = CHR ''-''"

definition type_by :: "char option \<Rightarrow> LM_trans_response_type_t" where
  "type_by b =
     (if b = Some (CHR ''='') then LM_TRANS_RESPONSE_KV
      else if b \<in> {Some (CHR '',''), Some (CHR 0x0D), Some (CHR 0x0A)} then LM_TRANS_RESPONSE_CSV
      else LM_TRANS_RESPONSE_BULK)"

lemma ordinary_delims:
  "\<not> ordinary (CHR ''='')" "\<not> ordinary (CHR '','')" "\<not> ordinary (CHR 0x0D)" "\<not> ordinary (CHR 0x0A)"
  by (simp_all add: ordinary_def is_alnum_sp_def Let_def)

lemma find_first_ordinary:
  "find (\<lambda>b. \<not> ordinary b) (b # bs) = (if ordinary b then find (\<lambda>b. \<not> ordinary b) bs else Some b)"
  by simp

context mstd_api
begin

lemma scan_by:
  "response_type_scan L bs = type_by (find (\<lambda>b. \<not> ordinary b) bs)"
proof (induction bs)
  case (Cons b bs)
  then show ?case using ordinary_delims by (auto simp: type_by_def ordinary_def)
qed (simp add: type_by_def)

lemma response_type_by:
  "LM_conn_determine_response_type L msg =
    (if msg = [] \<or> hd msg \<in> {CHR ''='', CHR '',''} then LM_TRANS_RESPONSE_BULK
     else type_by (find (\<lambda>b. \<not> ordinary b) (tl (take 32 msg))))"
proof -
  have "take (if length msg > 32 then 32 else length msg) msg = take 32 msg" by simp
  then show ?thesis by (auto simp: LM_conn_determine_response_type_def scan_by Let_def)
qed

end

text \<open>
  The format of a response is decided by the first byte after the first, within 32 bytes,
  that is no letter, digit, space, quote, underscore or dash: \<open>=\<close> is key/value, a comma or a
  line end is CSV, anything else or none is bulk; so is a response that starts with \<open>=\<close> or a
  comma, and an empty one.
\<close>

theorem response_type_spec:
  assumes "mstd_api L"
  shows "LM_conn_determine_response_type L msg =
    (if msg = [] \<or> hd msg \<in> {CHR ''='', CHR '',''} then LM_TRANS_RESPONSE_BULK
     else type_by (find (\<lambda>b. \<not> ordinary b) (tl (take 32 msg))))"
  using mstd_api.response_type_by [OF assms] .

lemma response_type_spec_witness:
  "LM_conn_determine_response_type (mstd_ref []) ''code=AUTH,ok'' = LM_TRANS_RESPONSE_KV"
  by (subst response_type_spec [OF ref.mstd_api_axioms])
    (simp add: type_by_def ordinary_def is_alnum_sp_def Let_def)

section \<open>Quoting\<close>

fun collapse :: "char \<Rightarrow> string \<Rightarrow> string" where
  "collapse q [] = []"
| "collapse q [b] = [b]"
| "collapse q (b # b' # bs) =
     (if b = q \<and> b' = q then q # collapse q bs else b # collapse q (b' # bs))"

text \<open>A quoted value: in quotes, every quote inside doubled.\<close>

definition quoted :: "char \<Rightarrow> string \<Rightarrow> string" where
  "quoted q s = q # concat (map (\<lambda>b. if b = q then [q, q] else [b]) s) @ [q]"

lemma collapse_doubled: "collapse q (concat (map (\<lambda>b. if b = q then [q, q] else [b]) s)) = s"
proof (induction s)
  case (Cons b s)
  then show ?case
  proof (cases "b = q")
    case False
    with Cons show ?thesis
      by (cases "concat (map (\<lambda>b. if b = q then [q, q] else [b]) s)") auto
  qed simp
qed simp

lemma unquote_loop_collapse:
  assumes "buf = pre @ s @ e # post" "off = length pre"
  shows "i \<le> length s \<Longrightarrow> unquote_loop buf off (length s) q i = collapse q (drop i s)"
proof (induction "length s - i" arbitrary: i rule: less_induct)
  case less
  show ?case
  proof (cases "i < length s")
    case True
    then have b: "buf ! (off + i) = s ! i" using assms by (simp add: nth_append)
    have n: "buf ! Suc (off + i) = (if Suc i < length s then s ! Suc i else e)"
      using assms True by (auto simp: nth_append)
    show ?thesis
    proof (cases "i + 1 < length s")
      case more: True
      have d: "drop i s = s ! i # s ! (i + 1) # drop (i + 2) s" "drop (i + 1) s = s ! (i + 1) # drop (i + 2) s"
        using True more by (simp_all add: Cons_nth_drop_Suc)
      have "unquote_loop buf off (length s) q (i + 1) = collapse q (drop (i + 1) s)"
        "unquote_loop buf off (length s) q (i + 2) = collapse q (drop (i + 2) s)"
        using less.hyps True more by simp_all
      then show ?thesis
        using True more d(1) unfolding d(2)
        by (subst unquote_loop.simps) (simp add: b n Let_def)
    next
      case False
      then have "drop i s = [s ! i]" using True by (metis Cons_nth_drop_Suc drop_all Suc_eq_plus1 not_less)
      moreover have "unquote_loop buf off (length s) q j = []" if "j > i" for j
        using that False by (subst unquote_loop.simps) simp
      ultimately show ?thesis
        using True by (subst unquote_loop.simps) (simp add: b Let_def)
    qed
  qed (use less.prems in \<open>simp add: unquote_loop.simps\<close>)
qed

context string_api
begin

lemma unquote_collapse:
  "M_hash_dict_deserialize_unquote L (Some s) q =
    (if s = [] then None
     else Some (collapse q (if length s \<ge> 2 \<and> hd s = q \<and> last s = q then butlast (tl s) else s)))"
proof (cases "length s \<ge> 2 \<and> hd s = q \<and> last s = q")
  case True
  then obtain m where s: "s = q # m @ [q]"
    by (cases s; cases "tl s" rule: rev_cases) auto
  have "unquote_loop (s @ [CHR 0x00]) 1 (length m) q 0 = collapse q m"
    using unquote_loop_collapse [of "s @ [CHR 0x00]" "[q]" m q "[CHR 0x00]" 1 0 q] s by simp
  then show ?thesis
    using s by (simp add: M_hash_dict_deserialize_unquote_def Let_def nth_append)
next
  case False
  have loop: "unquote_loop (s @ [CHR 0x00]) 0 (length s) q 0 = collapse q s"
    using unquote_loop_collapse [of "s @ [CHR 0x00]" "[]" s "CHR 0x00" "[]" 0 0 q] by simp
  have strip: "(length s \<ge> 2 \<and> (s @ [CHR 0x00]) ! 0 = q \<and> (s @ [CHR 0x00]) ! (length s - 1) = q) = False"
    using False by (cases "s = []") (auto simp: nth_append hd_conv_nth last_conv_nth)
  show ?thesis
    unfolding M_hash_dict_deserialize_unquote_def Let_def option.sel strip if_False loop
    using False by (simp only: if_False isempty) simp
qed

end

text \<open>
  Removing quotes: a value in quotes loses them, and doubled quotes become one, whatever
  the value (the look-ahead at the last byte never matters); an empty value is NULL.
\<close>

theorem unquote_spec:
  assumes "string_api L"
  shows "M_hash_dict_deserialize_unquote L (Some s) q =
    (if s = [] then None
     else Some (collapse q (if length s \<ge> 2 \<and> hd s = q \<and> last s = q then butlast (tl s) else s)))"
  using string_api.unquote_collapse [OF assms] .

lemma unquote_spec_witness:
  "M_hash_dict_deserialize_unquote (mstd_ref []) (Some ''a**b'') (CHR ''*'') = Some ''a*b''"
  by (subst unquote_spec [OF ref_string.string_api_axioms]) simp

text \<open>
  Round trip: what was quoted comes back, quotes inside included.\<close>

theorem unquote_quoted:
  assumes "string_api L"
  shows "M_hash_dict_deserialize_unquote L (Some (quoted q s)) q = Some s"
  using string_api.unquote_collapse [OF assms, of "quoted q s" q] collapse_doubled [of q s]
  by (simp add: quoted_def butlast_append)

lemma unquote_quoted_witness:
  "M_hash_dict_deserialize_unquote (mstd_ref []) (Some (quoted (CHR ''*'') ''5*6'')) (CHR ''*'') = Some ''5*6''"
  by (rule unquote_quoted [OF ref_string.string_api_axioms])

end
