(* ===== verification/LM_Frame.thy ===== *)
theory LM_Frame
  imports LM_World
begin

text \<open>
  What an operation leaves alone. A quantity of the connection that depends on none of the
  fields the event handler writes, and on no call but the callbacks to the client, is kept by
  every part of the handler; one that depends on none of the fields at all is kept by every
  operation of the interface.
\<close>

fun silent :: "call \<Rightarrow> bool" where
  "silent (Event_callback _ _) = False"
| "silent _ = True"

locale steady =
  fixes g :: "LM_conn \<Rightarrow> 'a"
  assumes ext_kept [simp]: "silent x \<Longrightarrow> g (ext x c) = g c"
    and fields_kept [simp]:
      "g (c\<lparr>trans_new := q\<rparr>) = g c" "g (c\<lparr>trans_ready := q\<rparr>) = g c"
      "g (c\<lparr>trans_pending := q\<rparr>) = g c" "g (c\<lparr>trans_done := q\<rparr>) = g c"
      "g (c\<lparr>trans_id_map := m\<rparr>) = g c" "g (c\<lparr>conn_status := s\<rparr>) = g c"
      "g (c\<lparr>io := h\<rparr>) = g c" "g (c\<lparr>tlsctx := h\<rparr>) = g c" "g (c\<lparr>in_use := b\<rparr>) = g c"
      "g (c\<lparr>trans_delay_rm := q\<rparr>) = g c"
      "g (c\<lparr>outbuf := t\<rparr>) = g c" "g (c\<lparr>inbuf := i\<rparr>) = g c" "g (c\<lparr>timer := h\<rparr>) = g c"
      "g (c\<lparr>write_trigger := h\<rparr>) = g c" "g (c\<lparr>pingtxn := tp\<rparr>) = g c"
      "g (c\<lparr>error := t\<rparr>) = g c" "g (c\<lparr>txns := hp\<rparr>) = g c"
      "g (c\<lparr>next_handle := p\<rparr>) = g c"
      "g (c\<lparr>fault := b\<rparr>) = g c"
begin

lemma steps_kept [simp]:
  "g (touch c) = g c" "g (lock_conn c) = g c" "g (unlock_conn c) = g c"
  "g (touch_trans p c) = g c" "g (lock_trans p c) = g c" "g (unlock_trans p c) = g c"
  "g (set_error s c) = g c" "g (event_timer_remove c) = g c"
  "g (queue_upd q f c) = g c"
  by (simp_all add: touch_def lock_conn_def unlock_conn_def touch_trans_def lock_trans_def
      unlock_trans_def set_error_def event_timer_remove_def) (cases q; simp)

lemma upd_trans_kept [simp]: "g (upd_trans p f c) = g c"
  by (simp add: upd_trans_def split: option.split)

lemma new_handle_kept [simp]: "g (snd (new_handle c)) = g c"
  by (simp add: new_handle_def)

lemma tlsctx_kept [simp]: "g (ensure_tlsctx c) = g c"
  by (simp add: ensure_tlsctx_def new_handle_def Let_def split: option.split)

lemma connect_locked_kept [simp]: "g (snd (connect_locked L c)) = g c"
  unfolding connect_locked_def
  by (intro kept_steps [where g = g])
    (simp_all split: option.split)

lemma connect_kept [simp]: "g (snd (LM_conn_connect L conn c)) = g c"
  by (simp add: LM_conn_connect_def split_beta)

lemma disconnect_kept [simp]:
  "g (snd (LM_conn_disconnect_connlocked c)) = g c" "g (snd (LM_conn_disconnect conn c)) = g c"
  by (simp_all add: LM_conn_disconnect_connlocked_def LM_conn_disconnect_def split_beta split: option.split)

lemma free_kept [simp]: "g (LM_trans_free tp c) = g c"
  by (simp add: LM_trans_free_def Let_def split: option.split)

lemma delete_kept [simp]:
  "g (LM_trans_delete_unlocked L tp c) = g c" "g (LM_trans_delete L tp c) = g c"
proof -
  show u: "g (LM_trans_delete_unlocked L tp c) = g c" for tp c
    by (simp add: LM_trans_delete_unlocked_def Let_def split: option.split)
  show "g (LM_trans_delete L tp c) = g c"
    by (simp add: LM_trans_delete_def Let_def u split: option.split)
qed

lemma trans_ops_kept [simp]:
  "g (snd (LM_trans_set_param L tp k v c)) = g c"
  "g (snd (LM_trans_set_param_binary L tp k w c)) = g c"
  "g (snd (LM_trans_set_timeout tp n c)) = g c"
  "g (snd (LM_trans_set_userdata tp ud c)) = g c"
  "g (snd (LM_trans_response_csv L tp c)) = g c"
proof -
  show p: "g (snd (LM_trans_set_param L tp k v c)) = g c" for v
    by (simp add: LM_trans_set_param_def Let_def split: option.split)
  show "g (snd (LM_trans_set_param_binary L tp k w c)) = g c"
    by (simp add: LM_trans_set_param_binary_def Let_def p)
  show "g (snd (LM_trans_set_timeout tp n c)) = g c"
    by (simp add: LM_trans_set_timeout_def Let_def split: option.split)
  show "g (snd (LM_trans_set_userdata tp ud c)) = g c"
    by (simp add: LM_trans_set_userdata_def split: option.split)
  show "g (snd (LM_trans_response_csv L tp c)) = g c"
    by (simp add: LM_trans_response_csv_def Let_def split: option.split)
qed

lemma reads_kept [simp]:
  "g (snd (LM_trans_response_type tp c)) = g c"
  "g (snd (LM_trans_response_raw tp c)) = g c"
  "g (snd (LM_trans_response_dict tp c)) = g c"
  "g (snd (LM_trans_response_param L tp (Some k) c)) = g c"
  "g (snd (LM_trans_get_userdata tp c)) = g c"
  "g (snd (LM_conn_get_userdata conn c)) = g c"
  "g (snd (LM_conn_destroy_is_set c)) = g c"
  by (simp_all add: LM_trans_response_type_def LM_trans_response_raw_def LM_trans_response_dict_def
      LM_trans_response_param_def LM_trans_get_userdata_def LM_conn_get_userdata_def
      LM_conn_destroy_is_set_def Let_def split: option.split)

lemma structure_kept [simp]: "g (LM_trans_structure L p c) = g c"
  by (simp add: LM_trans_structure_def Let_def)

lemma send_one_kept [simp]: "g (send_one L p c) = g c"
  by (simp add: send_one_def new_handle_def Let_def)

lemma send_loop_kept: "send_loop L c = Some d \<Longrightarrow> g d = g c"
  by (induction rule: send_loop.raw_induct [rotated, consumes 1])
    (auto split: prod.splits option.splits)

lemma send_messages_kept: "LM_trans_send_messages L c = Some d \<Longrightarrow> g d = g c"
  by (auto simp: LM_trans_send_messages_def Let_def split_beta split: Option.bind_splits if_splits
      dest!: send_loop_kept)

lemma send_kept: "LM_trans_send L tp c = Some r \<Longrightarrow> g (snd r) = g c"
  by (auto simp: LM_trans_send_def Let_def split: Option.bind_splits option.splits if_splits
      dest!: send_messages_kept)

lemma pick_kept: "pick_trans_id L c = Some r \<Longrightarrow> g (snd r) = g c"
  by (induction rule: pick_trans_id.raw_induct [rotated, consumes 1]) (auto simp: Let_def split: if_splits)

text \<open>The cases of the handler.\<close>

lemma fail_one_kept [simp]: "g (snd (fail_one L p ec)) = g (snd ec)"
  by (simp add: fail_one_def Let_def split_beta split: option.split)

lemma fail_loop_kept: "fail_loop L ec = Some r \<Longrightarrow> g (snd r) = g (snd ec)"
  by (induction rule: fail_loop.raw_induct [rotated, consumes 1])
    (auto split: prod.splits option.splits)

lemma destroy_io_kept [simp]: "g (destroy_io L c) = g c"
  by (simp add: destroy_io_def Let_def)

lemma conn_error_kept: "LM_conn_event_handle_conn_error L ty es c = Some r \<Longrightarrow> g (snd r) = g c"
  by (auto simp: LM_conn_event_handle_conn_error_def Let_def split_beta split: Option.bind_splits
      dest!: fail_loop_kept)

lemma cleanup_ping_kept [simp]: "g (LM_conn_cleanup_ping L c) = g c"
  by (simp add: LM_conn_cleanup_ping_def Let_def split: option.split)

lemma set_connected_kept: "LM_conn_event_set_connected L es c = Some r \<Longrightarrow> g (snd r) = g c"
  by (auto simp: LM_conn_event_set_connected_def new_handle_def Let_def split: Option.bind_splits
      dest!: send_messages_kept)

lemma connected_kept:
  "handle_connected L c = Some r \<Longrightarrow> disable_ping c \<Longrightarrow> g (snd r) = g c"
  by (auto simp: handle_connected_def new_handle_def Let_def split: Option.bind_splits if_splits
      dest!: set_connected_kept)

lemma failure_kept: "handle_failure L ty c = Some r \<Longrightarrow> g (snd r) = g c"
  by (auto simp: handle_failure_def split: if_splits dest!: conn_error_kept)

lemma parse_msg_kept [simp]: "g (snd (snd (LM_conn_parse_msg L tp msg c))) = g c"
  by (simp add: LM_conn_parse_msg_def Let_def split: option.split)

lemma parse_msg_eq_kept: "LM_conn_parse_msg L tp msg c = (err, tp', d) \<Longrightarrow> g d = g c"
  using parse_msg_kept [of L tp msg c] by simp

lemma parse_buffer_kept: "LM_conn_parse_trans_buffer L tp c = Some r \<Longrightarrow> g (snd (snd r)) = g c"
  by (induction rule: LM_conn_parse_trans_buffer.raw_induct [rotated, consumes 1])
    (auto simp: Let_def split: if_splits option.splits prod.splits dest!: parse_msg_eq_kept)

lemma note_done_kept: "note_done L tp es c = Some r \<Longrightarrow> g (snd r) = g c"
  by (auto simp: note_done_def Let_def split: if_splits option.splits dest!: set_connected_kept)

lemma read_loop_kept: "read_loop L tp es c = Some r \<Longrightarrow> g (snd (snd r)) = g c"
  by (induction rule: read_loop.raw_induct [rotated, consumes 1])
    (auto split: option.splits prod.splits if_splits dest!: parse_buffer_kept note_done_kept)

lemma read_kept: "handle_read L c = Some r \<Longrightarrow> g (snd r) = g c"
  by (auto simp: handle_read_def Let_def split_beta split: Option.bind_splits if_splits
      dest!: read_loop_kept conn_error_kept)

lemma write_kept: "handle_write L c = Some r \<Longrightarrow> g (snd r) = g c"
  by (auto simp: handle_write_def split: if_splits)

lemma other_kept: "handle_other L tp c = Some r \<Longrightarrow> g (snd r) = g c"
  by (auto simp: handle_other_def Let_def split_beta split: Option.bind_splits option.splits if_splits
      dest!: conn_error_kept)

lemma event_kept:
  "handle_event L ty tp c = Some r \<Longrightarrow> ty = M_EVENT_TYPE_CONNECTED \<longrightarrow> disable_ping c \<Longrightarrow> g (snd r) = g c"
  by (auto simp: handle_event_def split: M_event_type.splits dest!: connected_kept
      failure_kept read_kept write_kept other_kept)

lemma delay_rm_kept: "delay_rm_loop L c = Some d \<Longrightarrow> g d = g c"
  by (induction rule: delay_rm_loop.raw_induct [rotated, consumes 1]) (auto split: option.splits)

end

text \<open>A quantity that does not depend on the connection being given up either.\<close>

locale untouched = steady g for g :: "LM_conn \<Rightarrow> 'a" +
  assumes destroyed_kept [simp]: "g (c\<lparr>destroy := b\<rparr>) = g c" "g (c\<lparr>conn_freed := b\<rparr>) = g c"
begin

lemma destroy_queue_kept [simp]: "g (destroy_queue L q c) = g c"
proof -
  have "g (fold LM_conn_trans_destructor ps c) = g c" for ps c
    by (induction ps arbitrary: c) (simp_all add: LM_conn_trans_destructor_def)
  then show ?thesis by (simp add: destroy_queue_def)
qed

lemma destroy_kept [simp]: "g (LM_conn_destroy L conn c) = g c"
proof -
  have f: "g (fold (\<lambda>p. LM_trans_delete_unlocked L (Some p)) ps c) = g c" for ps c
    by (induction ps arbitrary: c) simp_all
  show ?thesis
    unfolding LM_conn_destroy_def
    by (intro kept_steps [where g = g]) (simp_all add: f split: option.split)
qed

lemma finish_kept: "finish_event L c = Some d \<Longrightarrow> g d = g c"
  by (auto simp: finish_event_def Let_def split_beta split: Option.bind_splits if_splits
      dest!: delay_rm_kept)

end

text \<open>A quantity that does not depend on the number of transactions.\<close>

locale steady_new = steady g for g :: "LM_conn \<Rightarrow> 'a" +
  assumes next_ptr_kept [simp]: "g (c\<lparr>next_ptr := p\<rparr>) = g c"
begin

lemma new_internal_kept: "LM_trans_new_internal L c = Some r \<Longrightarrow> g (snd r) = g c"
  by (auto simp: LM_trans_new_internal_def Let_def split_beta split: Option.bind_splits dest!: pick_kept)

lemma new_kept: "LM_trans_new L conn c = Some r \<Longrightarrow> g (snd r) = g c"
  by (auto simp: LM_trans_new_def Let_def split_beta split: Option.bind_splits if_splits dest!: new_internal_kept)

lemma ping_request_kept: "LM_trans_ping_request L c = Some r \<Longrightarrow> g (snd r) = g c"
  by (auto simp: LM_trans_ping_request_def Let_def split_beta split: Option.bind_splits
      dest!: new_internal_kept)

lemma any_connected_kept: "handle_connected L c = Some r \<Longrightarrow> g (snd r) = g c"
  by (auto simp: handle_connected_def new_handle_def Let_def split: Option.bind_splits if_splits
      dest!: set_connected_kept ping_request_kept)

lemma any_event_kept: "handle_event L ty tp c = Some r \<Longrightarrow> g (snd r) = g c"
  by (auto simp: handle_event_def split: M_event_type.splits dest!: any_connected_kept
      failure_kept read_kept write_kept other_kept)

end

text \<open>A quantity that does not depend on what the client sets either.\<close>

locale untouched_all = untouched g + steady_new g for g :: "LM_conn \<Rightarrow> 'a" +
  assumes settings_fields [simp]:
      "g (c\<lparr>host := hs\<rparr>) = g c" "g (c\<lparr>port := k\<rparr>) = g c" "g (c\<lparr>mode := md\<rparr>) = g c"
      "g (c\<lparr>disable_ping := b\<rparr>) = g c" "g (c\<lparr>conn_timeout := n\<rparr>) = g c"
      "g (c\<lparr>idle_timeout := n\<rparr>) = g c" "g (c\<lparr>conn_user_data := ud\<rparr>) = g c"
      "g (c\<lparr>iocreate_cb := ud\<rparr>) = g c"
begin

lemma settings_kept [simp]:
  "g (snd (LM_conn_set_userdata conn ud c)) = g c"
  "g (snd (LM_conn_change_server L conn h k c)) = g c"
  "g (snd (LM_conn_change_mode conn m c)) = g c"
  "g (LM_conn_disable_ping conn c) = g c"
  "g (snd (LM_conn_set_conn_timeout conn n c)) = g c"
  "g (snd (LM_conn_set_tls_clientctx conn x c)) = g c"
  "g (snd (LM_conn_set_iocreate_callback conn f c)) = g c"
  by (simp_all add: LM_conn_set_userdata_def LM_conn_change_server_def LM_conn_change_mode_def
      LM_conn_disable_ping_def LM_conn_set_conn_timeout_def LM_conn_set_tls_clientctx_def
      LM_conn_set_iocreate_callback_def Let_def
      split: option.split)

lemma idle_timeout_kept [simp]: "g (snd (LM_conn_set_idle_timeout L conn n c)) = g c"
proof -
  have start: "g (let (h, c) = new_handle c; c = (ext (Timer_add h) c)\<lparr>timer := Some h\<rparr>
      in ext (Timer_set_firecount (timer c) 1) c) = g c" for c
    by (simp add: new_handle_def Let_def)
  have "g (snd (LM_conn_set_idle_timeout L CONN n c)) = g c"
    unfolding LM_conn_set_idle_timeout_def
    by (simp only: conn_ptr.distinct if_False, intro kept_steps [where g = g])
      (simp_all only: snd_conv steps_kept fields_kept settings_fields start ext_kept silent.simps)
  then show ?thesis by (cases conn) (simp_all add: LM_conn_set_idle_timeout_def)
qed

lemma run_kept: "LM_trans_run L conn d c = Some r \<Longrightarrow> g (snd r) = g c"
  by (auto simp: LM_trans_run_def Let_def split_beta split: Option.bind_splits option.splits if_splits
      dest!: new_kept send_kept)

lemma call_kept: "run_call L a c = Some d \<Longrightarrow> g d = g c"
  by (cases a) (auto dest: new_kept run_kept send_kept)

lemma calls_kept: "run_calls L as c = Some d \<Longrightarrow> g d = g c"
  unfolding run_calls_def
  by (induction as arbitrary: c) (auto split: Option.bind_splits dest: call_kept)

end

section \<open>Quantities that are kept\<close>

text \<open>What the client has been told, newest first: the library reports nothing but from its handler.\<close>

definition told :: "LM_conn \<Rightarrow> events" where
  "told c = delivered_rev (calls c)"

lemma told_callback [simp]: "told (ext (Event_callback ty tp) c) = Entry ty tp # told c"
  by (simp add: told_def ext_def)

interpretation told: untouched_all told
proof unfold_locales
  show "told (ext x c) = told c" if "silent x" for x c
    using that by (cases x) (simp_all add: told_def ext_def)
qed (simp_all add: told_def)

text \<open>The client's own settings, and the number of transactions made.\<close>

definition setting :: "LM_conn \<Rightarrow> nat \<times> nat option \<times> bool" where
  "setting c = (next_ptr c, conn_user_data c, disable_ping c)"

interpretation setting: untouched setting
  by unfold_locales (simp_all add: setting_def ext_def)

text \<open>What only the client can change, and the number of transactions an event can make: one ping.\<close>

definition client_part :: "LM_conn \<Rightarrow> nat option \<times> bool \<times> bool" where
  "client_part c = (conn_user_data c, destroy c, conn_freed c)"

interpretation client: steady_new client_part
  by unfold_locales (simp_all add: client_part_def ext_def)

interpretation made: steady next_ptr
  by unfold_locales (simp_all add: ext_def)

lemma ping_next_ptr: "LM_trans_ping_request L c = Some r \<Longrightarrow> next_ptr (snd r) = Suc (next_ptr c)"
  by (auto simp: LM_trans_ping_request_def LM_trans_new_internal_def Let_def split_beta
      split: Option.bind_splits dest!: made.pick_kept)

lemma event_next_ptr:
  assumes "handle_event L ty tp c = Some r"
  shows "next_ptr (snd r) \<le> Suc (next_ptr c)"
proof (cases "ty = M_EVENT_TYPE_CONNECTED")
  case True
  with assms show ?thesis
    by (auto simp: handle_event_def handle_connected_def new_handle_def Let_def
        split: Option.bind_splits if_splits dest!: made.set_connected_kept ping_next_ptr)
next
  case False
  with made.event_kept [OF assms] show ?thesis by simp
qed

lemma finish_keeps_client:
  assumes "finish_event L c = Some d" "\<not> destroy c"
  shows "client_part d = client_part c"
proof -
  obtain e where e: "delay_rm_loop L (lock_conn c) = Some e"
    using assms(1) by (auto simp: finish_event_def Let_def split: Option.bind_splits)
  define f where "f = unlock_conn (e\<lparr>in_use := False\<rparr>)"
  define h where "h = (if conn_status e = LM_CONN_STATUS_DISCONNECTED \<and> M_queue_len L (trans_ready e) \<noteq> 0
    then snd (LM_conn_connect L CONN f) else f)"
  have h: "client_part h = client_part c"
    using client.delay_rm_kept [OF e] by (simp add: h_def f_def)
  obtain stop k where k: "LM_conn_destroy_is_set h = (stop, k)" by fastforce
  have "\<not> destroy h" using assms(2) h by (simp add: client_part_def)
  then have "\<not> stop" using k by (simp add: LM_conn_destroy_is_set_def Let_def split: if_splits)
  moreover have "client_part k = client_part h" using client.reads_kept(7) [of h] k by simp
  moreover have "finish_event L c = (case LM_conn_destroy_is_set h of (stop, c) \<Rightarrow>
      Some (if stop then LM_conn_destroy L CONN c else c))"
    using e by (simp add: finish_event_def f_def h_def Let_def)
  ultimately show ?thesis using assms(1) k h by simp
qed

end
