(* ===== verification/LM_Event_Spec.thy ===== *)
theory LM_Event_Spec
  imports LM_Trans_Spec LM_Wire_Spec LM_Frame
begin

text \<open>
  What the user is told: every event of the connection, in order, with the state it describes.
  The events come from the handler only (\<open>LM_Frame\<close>); no operation of the library reports
  anything on its own.
\<close>

section \<open>Delivery in order\<close>

lemma destroy_connect [simp]: "destroy (snd (LM_conn_connect L conn c)) = destroy c"
proof -
  have tls: "destroy (ensure_tlsctx c) = destroy c" for c
    by (simp add: ensure_tlsctx_def new_handle_def Let_def split: option.split)
  have "destroy (snd (connect_locked L c)) = destroy c" for c
    unfolding connect_locked_def
    by (intro kept_steps [where g = destroy]) (simp_all add: tls new_handle_def split: option.split)
  then show ?thesis by (simp add: LM_conn_connect_def split_beta)
qed

lemma destroy_delete_unlocked [simp]: "destroy (LM_trans_delete_unlocked L tp c) = destroy c"
proof -
  have [simp]: "destroy (queue_upd q f c) = destroy c" for q f c by (cases q) simp_all
  show ?thesis
    by (simp add: LM_trans_delete_unlocked_def LM_trans_free_def Let_def split: option.split)
qed

lemma delay_rm_told: "delay_rm_loop L c = Some d \<Longrightarrow> told d = told c \<and> destroy d = destroy c"
  by (induction rule: delay_rm_loop.raw_induct [rotated, consumes 1]) (auto split: option.splits)

lemma destroy_frees: "\<not> in_use (LM_conn_destroy L CONN c) \<Longrightarrow> conn_freed (LM_conn_destroy L CONN c)"
  by (simp add: LM_conn_destroy_def Let_def split: if_splits)

lemma finish_told:
  assumes "finish_event L c = Some d"
  shows "told d = told c \<and> (destroy c \<longrightarrow> conn_freed d \<or> in_use d)"
proof -
  obtain e where e: "delay_rm_loop L (lock_conn c) = Some e" "told e = told c" "destroy e = destroy c"
    using assms delay_rm_told by (fastforce simp: finish_event_def Let_def split: Option.bind_splits)
  then show ?thesis
    using assms
    by (auto simp: finish_event_def LM_conn_destroy_is_set_def Let_def split_beta split: if_splits
        intro: destroy_frees)
qed

context mstd_api
begin

text \<open>The callback gets the events in their order, and all of them unless it destroys the connection.\<close>

lemma deliver_told:
  assumes "deliver L cb es c = Some d"
  shows "\<exists>n. told d = rev (take n es) @ told c \<and> (n < length es \<longrightarrow> destroy d)"
  using assms
proof (induction es arbitrary: c)
  case Nil
  then show ?case by (subst (asm) deliver.simps) simp
next
  case (Cons e es)
  let ?c = "ext (Event_callback (ev_type e) (ev_trans e)) c"
  obtain f where f: "run_calls L (cb (ev_type e) (ev_trans e) ?c) ?c = Some f"
    using Cons.prems by (subst (asm) deliver.simps) (auto simp: Let_def split: option.splits)
  have tf: "told f = e # told c" using told.calls_kept [OF f] by simp
  define g where "g = unlock_conn (lock_conn f)"
  have step: "deliver L cb (e # es) c = (if destroy f then Some g else deliver L cb es g)"
    by (subst deliver.simps) (simp add: f g_def LM_conn_destroy_is_set_def Let_def)
  show ?case
  proof (cases "destroy f")
    case True
    with Cons.prems step tf show ?thesis by (intro exI [of _ 1]) (auto simp: g_def)
  next
    case False
    with Cons.prems step Cons.IH [of g] obtain n where
      "told d = rev (take n es) @ told g" "n < length es \<longrightarrow> destroy d" by auto
    then show ?thesis using tf by (intro exI [of _ "Suc n"]) (simp add: g_def)
  qed
qed

end

section \<open>The handler reports in order\<close>

abbreviation entered :: "LM_conn \<Rightarrow> LM_conn" where
  "entered c \<equiv> (lock_conn c)\<lparr>in_use := True\<rparr>"

context mstd_rand_api
begin

lemma handler_runs:
  assumes "client_inv L c" "\<not> in_use c" "event_ok c ty et" "callback_ok L cb"
  obtains es d n c' where "handle_event L ty et (entered c) = Some (es, d)"
    and "LM_conntrans_event_handler L cb ty et c = Some c'"
    and "delivered (calls c') = delivered (calls c) @ take n es"
    and "n < length es \<longrightarrow> conn_freed c'"
proof -
  obtain c' where c': "LM_conntrans_event_handler L cb ty et c = Some c'" "\<not> in_use c'"
    by (rule event_handler_total [OF assms]) blast
  obtain es d f where d: "handle_event L ty et (entered c) = Some (es, d)"
    and f: "deliver L cb es (unlock_conn d) = Some f" and fin: "finish_event L f = Some c'"
    using c'(1) by (auto simp: LM_conntrans_event_handler_def Let_def split: Option.bind_splits)
  from deliver_told [OF f] obtain n where n: "told f = rev (take n es) @ told (unlock_conn d)"
    "n < length es \<longrightarrow> destroy f" by blast
  have "told c' = rev (take n es) @ told c"
    using finish_told [OF fin] n(1) told.any_event_kept [OF d] by simp
  then have "delivered (calls c') = delivered (calls c) @ take n es"
    by (simp add: delivered_def told_def)
  moreover have "n < length es \<longrightarrow> conn_freed c'" using finish_told [OF fin] n(2) c'(2) by auto
  ultimately show ?thesis using d c'(1) that by blast
qed

end

text \<open>
  C17. An event is handled completely: the handler returns, whatever the callback does, and the
  callback has got exactly the events collected for this one, in order, each once; only a
  callback that destroys the connection gets no more of them.
\<close>

theorem events_in_order:
  assumes "mstd_rand_api L" "client_inv L c" "\<not> in_use c" "event_ok c ty et" "callback_ok L cb"
  shows "\<exists>es d n c'. handle_event L ty et (entered c) = Some (es, d) \<and>
    LM_conntrans_event_handler L cb ty et c = Some c' \<and>
    delivered (calls c') = delivered (calls c) @ take n es \<and> (n < length es \<longrightarrow> conn_freed c')"
  by (rule mstd_rand_api.handler_runs [OF assms]) blast

lemma sample_client: "client_inv (mstd_ref input) (sample_conn st)"
  using sample_inv by (simp add: client_inv_def)

lemma no_calls_ok [simp]: "callback_ok L (\<lambda>ev tp c. [])"
  by (simp add: callback_ok_def calls_ok_def)

lemma sample_event_ok: "st \<noteq> LM_CONN_STATUS_DISCONNECTED \<Longrightarrow>
    ty \<noteq> M_EVENT_TYPE_CONNECTED \<Longrightarrow> ty \<noteq> M_EVENT_TYPE_OTHER \<Longrightarrow> event_ok (sample_conn st) ty None"
  by (simp add: event_ok_def split: M_event_type.split)

lemma events_in_order_witness:
  "\<exists>c'. LM_conntrans_event_handler (mstd_ref []) (\<lambda>ev tp c. []) M_EVENT_TYPE_WRITE None
     (sample_conn LM_CONN_STATUS_CONNECTED) = Some c'"
proof -
  have "event_ok (sample_conn LM_CONN_STATUS_CONNECTED) M_EVENT_TYPE_WRITE None"
    by (rule sample_event_ok) simp_all
  from events_in_order [OF ref_rand.mstd_rand_api_axioms sample_client _ this no_calls_ok]
  show ?thesis by fastforce
qed

section \<open>Failure\<close>

context mstd_rand_api
begin

lemma entered_core:
  assumes "client_inv L c" "\<not> in_use c" "\<not> conn_freed c"
  shows "core_at L [Conn_lock] (entered c)"
proof -
  have inv: "inv_at L [] c" using assms(1,3) by (auto simp: client_inv_def freed_at_def)
  then have "trans_delay_rm c = []"
    using assms(2) by (simp add: inv_at_def lm_inv_def core_inv_def delay_inv_def)
  with inv_at_core [OF inv_at_lock(1) [OF inv]] show ?thesis
    by (simp add: core_at_def core_inv_defs)
qed

lemma failure_handled:
  assumes "client_inv L c" "\<not> in_use c" "\<not> conn_freed c"
    and "ty = M_EVENT_TYPE_ERROR \<or> ty = M_EVENT_TYPE_DISCONNECTED"
  obtains d h cs e where "handle_event L ty None (entered c) = Some (failure_events ty c, d)"
    and "d = (entered c)\<lparr>io := None, write_trigger := None, conn_status := LM_CONN_STATUS_DISCONNECTED,
      outbuf := [], inbuf := \<lparr>p_mark = None, p_rest = []\<rparr>, timer := None, trans_pending := [],
      trans_done := trans_done c @ trans_pending c, txns := h, error := e, calls := cs\<rparr>"
    and "e = (if conn_status c = LM_CONN_STATUS_IDLE_TIMEOUT then ''Idle connection timeout''
      else take 255 (M_io_get_error_string L (Mutex_lock Conn_lock # calls c)))"
    and "h = (\<lambda>p. if p \<in> set (trans_pending c) then map_option (failed_trans L e) (txns c p) else txns c p)"
proof -
  let ?i = "conn_status c = LM_CONN_STATUS_IDLE_TIMEOUT"
  define e where "e = (if ?i then ''Idle connection timeout''
      else take 255 (M_io_get_error_string L (calls (entered c))))"
  define cs1 where "cs1 = (if ?i then [] else [Io_get_error_string]) @ calls (entered c)"
  define c1 where "c1 = (entered c)\<lparr>error := e, calls := cs1\<rparr>"
  have calls: "calls (entered c) = Mutex_lock Conn_lock # calls c"
    using assms(3) by (simp add: lock_conn_def touch_def ext_def)
  have c1: "c1 = set_error (if ?i then ''Idle connection timeout''
      else M_io_get_error_string L (calls (entered c))) (if ?i then entered c else ext Io_get_error_string (entered c))"
    by (cases "entered c") (simp add: c1_def cs1_def e_def set_error_def ext_def)
  have core: "core_at L [Conn_lock] c1"
    unfolding c1 using entered_core [OF assms(1-3)]
    by (intro core_at_set_error) (simp add: core_at_ext)
  have "handle_event L ty None (entered c) = LM_conn_event_handle_conn_error L ty [] c1"
    using assms(4) unfolding c1 by (auto simp: handle_event_def handle_failure_def)
  moreover obtain d h cs where "LM_conn_event_handle_conn_error L ty [] c1 = Some ([] @ failure_events ty c1, d)"
    and d: "d = c1\<lparr>io := None, write_trigger := None, conn_status := LM_CONN_STATUS_DISCONNECTED,
               outbuf := [], inbuf := \<lparr>p_mark = None, p_rest = []\<rparr>, timer := None,
               trans_pending := [], trans_done := trans_done c1 @ trans_pending c1, txns := h,
               calls := cs\<rparr>"
    and h: "h = (\<lambda>p. if p \<in> set (trans_pending c1) then map_option (failed_trans L (error c1)) (txns c1 p)
                else txns c1 p)"
    by (rule conn_error_result [OF core]) blast
  moreover have "failure_events ty c1 = failure_events ty c"
    by (simp add: failure_events_def rewrite_event_type_def c1_def)
  moreover have "h = (\<lambda>p. if p \<in> set (trans_pending c) then map_option (failed_trans L e) (txns c p)
      else txns c p)"
    by (simp add: h fun_eq_iff c1_def)
  moreover have "d = (entered c)\<lparr>io := None, write_trigger := None,
      conn_status := LM_CONN_STATUS_DISCONNECTED, outbuf := [],
      inbuf := \<lparr>p_mark = None, p_rest = []\<rparr>, timer := None, trans_pending := [],
      trans_done := trans_done c @ trans_pending c, txns := h, error := e, calls := cs\<rparr>"
    by (simp add: d c1_def)
  ultimately show ?thesis
    by (intro that [where d = d and h = h and cs = cs and e = e]) (simp_all add: e_def calls)
qed

end

text \<open>
  C18. Nobody waits for ever: when the connection fails, the callback is told of every
  transaction that waited to be sent (unless the connection was only idle), then of every one
  that was on the wire, each once, in order, then of the connection itself; whatever it does
  meanwhile, short of destroying the connection.
\<close>

theorem failure_reported:
  assumes "mstd_rand_api L" "client_inv L c" "\<not> in_use c" "event_ok c ty None" "callback_ok L cb"
    and "ty = M_EVENT_TYPE_ERROR \<or> ty = M_EVENT_TYPE_DISCONNECTED"
  shows "\<exists>n c'. LM_conntrans_event_handler L cb ty None c = Some c' \<and>
    delivered (calls c') = delivered (calls c) @ take n (failure_events ty c) \<and>
    (\<not> conn_freed c' \<longrightarrow> n \<ge> length (failure_events ty c))"
proof -
  have "\<not> conn_freed c" using assms(4) by (simp add: event_ok_def)
  then obtain d where d: "handle_event L ty None (entered c) = Some (failure_events ty c, d)"
    by (rule mstd_rand_api.failure_handled [OF assms(1-3) _ assms(6)]) blast
  obtain es e n c' where "handle_event L ty None (entered c) = Some (es, e)"
    and "LM_conntrans_event_handler L cb ty None c = Some c'"
    and "delivered (calls c') = delivered (calls c) @ take n es" "n < length es \<longrightarrow> conn_freed c'"
    by (rule mstd_rand_api.handler_runs [OF assms(1-5)]) blast
  with d show ?thesis by (auto intro!: exI [of _ n])
qed

text \<open>The sample with a transaction on the wire is a connection as it can be.\<close>

lemma pending_inv: "inv_at (mstd_ref input) [] (sample_pending s)"
proof -
  have "trans_wf (zero_trans\<lparr>trans_id := 7, status := LM_TRANS_STATUS_PENDING\<rparr>)"
    by (simp add: trans_wf_def zero_trans_def)
  then have "core_inv (mstd_ref input) (sample_pending s)"
    by (auto simp: core_inv_defs status_is_def ref_get_single sample_pending_def zero_conn_def zero_trans_def)
  moreover have "ping_inv (sample_pending s)"
    by (simp add: ping_inv_def sample_pending_def zero_conn_def)
  ultimately show ?thesis by (simp add: inv_at_def lm_inv_def sample_pending_def zero_conn_def)
qed

lemma pending_client: "client_inv (mstd_ref input) (sample_pending s)"
  using pending_inv by (simp add: client_inv_def)

lemma pending_sel [simp]:
  "in_use (sample_pending s) = False" "conn_freed (sample_pending s) = False"
  "trans_ready (sample_pending s) = []" "conn_status (sample_pending s) = LM_CONN_STATUS_CONNECTED"
  "calls (sample_pending s) = []" "io (sample_pending s) = Some 1"
  by (simp_all add: sample_pending_def zero_conn_def)

lemma pending_event_ok: "ty \<noteq> M_EVENT_TYPE_CONNECTED \<Longrightarrow> ty \<noteq> M_EVENT_TYPE_OTHER \<Longrightarrow>
    event_ok (sample_pending s) ty None"
  by (simp add: event_ok_def split: M_event_type.split)

lemma failure_reported_witness:
  "\<exists>n c'. LM_conntrans_event_handler (mstd_ref []) (\<lambda>ev tp c. []) M_EVENT_TYPE_ERROR None (sample_pending [])
     = Some c' \<and>
   delivered (calls c') = take n [Entry LM_EVENT_TRANS_ERROR (Some 1), Entry LM_EVENT_CONN_ERROR None]"
proof -
  have ok: "event_ok (sample_pending []) M_EVENT_TYPE_ERROR None"
    by (rule pending_event_ok) simp_all
  have ev: "failure_events M_EVENT_TYPE_ERROR (sample_pending []) =
      [Entry LM_EVENT_TRANS_ERROR (Some 1), Entry LM_EVENT_CONN_ERROR None]"
    by (simp add: failure_events_def rewrite_event_type_def)
  show ?thesis
    using failure_reported [OF ref_rand.mstd_rand_api_axioms [of "[]"] pending_client _ ok no_calls_ok]
    unfolding ev by (auto simp: delivered_def)
qed



text \<open>
  C19. What the first callback after a failure finds: no socket, nothing in the buffers, no
  timer; the transactions on the wire are done, after those done before, each with the response
  \<open>code=DENY\<close> and the error message as \<open>verbiage\<close>, its timer gone; the ones that wait to be sent
  still wait, and every other transaction is as it was.
\<close>

theorem failure_outcome:
  assumes "mstd_rand_api L" "client_inv L c" "\<not> in_use c" "\<not> conn_freed c"
    and "ty = M_EVENT_TYPE_ERROR \<or> ty = M_EVENT_TYPE_DISCONNECTED"
    and "handle_event L ty None (entered c) = Some (es, d)"
  shows "conn_status d = LM_CONN_STATUS_DISCONNECTED \<and> io d = None \<and> write_trigger d = None \<and>
    timer d = None \<and> outbuf d = [] \<and> p_rest (inbuf d) = [] \<and>
    trans_new d = trans_new c \<and> trans_ready d = trans_ready c \<and> trans_pending d = [] \<and>
    trans_done d = trans_done c @ trans_pending c \<and> length (error d) < 256 \<and>
    (\<forall>p t. txns c p = Some t \<longrightarrow>
       (if status t = LM_TRANS_STATUS_PENDING
        then \<exists>t' ps. txns d p = Some t' \<and> status t' = LM_TRANS_STATUS_DONE \<and>
          response_type t' = LM_TRANS_RESPONSE_KV \<and> response_params t' = Some ps \<and>
          M_hash_dict_get_direct L (Some ps) ''code'' = Some ''DENY'' \<and>
          M_hash_dict_get_direct L (Some ps) ''verbiage'' = Some (error d) \<and> timeout_timer t' = None
        else txns d p = Some t))"
proof -
  have core: "core_inv L c" "trans_delay_rm c = []"
    using mstd_rand_api.entered_core [OF assms(1-4)] assms(2-4)
    by (auto simp: client_inv_def freed_at_def inv_at_def lm_inv_def core_inv_def delay_inv_def)
  obtain d' h cs e where d': "handle_event L ty None (entered c) = Some (failure_events ty c, d')"
    and d: "d' = (entered c)\<lparr>io := None, write_trigger := None, conn_status := LM_CONN_STATUS_DISCONNECTED,
      outbuf := [], inbuf := \<lparr>p_mark = None, p_rest = []\<rparr>, timer := None, trans_pending := [],
      trans_done := trans_done c @ trans_pending c, txns := h, error := e, calls := cs\<rparr>"
    and e: "e = (if conn_status c = LM_CONN_STATUS_IDLE_TIMEOUT then ''Idle connection timeout''
      else take 255 (M_io_get_error_string L (Mutex_lock Conn_lock # calls c)))"
    and h: "h = (\<lambda>p. if p \<in> set (trans_pending c) then map_option (failed_trans L e) (txns c p) else txns c p)"
    by (rule mstd_rand_api.failure_handled [OF assms(1-5)])
  have eq: "d = d'" using assms(6) d' by simp
  have pend: "p \<in> set (trans_pending c) \<longleftrightarrow> status t = LM_TRANS_STATUS_PENDING" if "txns c p = Some t" for p t
    using in_queue_of_status [OF core, of p] that by (auto simp: status_is_Some)
  note dict = mstd_api.axioms [OF mstd_rand_api.axioms(1) [OF assms(1)]]
  have "M_hash_dict_get_direct L (response_params (failed_trans L e t)) ''code'' = Some ''DENY''"
    "M_hash_dict_get_direct L (response_params (failed_trans L e t)) ''verbiage'' = Some e" for t
    using dict by (simp_all add: failed_trans_def error_response_def Let_def dict_api.get_insert lowers_def)
  moreover have "response_type (failed_trans L e t) = LM_TRANS_RESPONSE_KV"
    "response_params (failed_trans L e t) \<noteq> None" "timeout_timer (failed_trans L e t) = None" for t
    by (simp_all add: failed_trans_def error_response_def Let_def)
  moreover have "length e < 256" by (simp add: e min_less_iff_disj)
  ultimately show ?thesis
    using pend by (auto simp: eq d h split: if_splits) (metis not_None_eq)
qed

lemma failure_outcome_witness:
  "\<exists>es d. handle_event (mstd_ref []) M_EVENT_TYPE_ERROR None (entered (sample_pending [])) = Some (es, d) \<and>
     trans_done d = [1] \<and> trans_pending d = []"
proof -
  obtain d where d: "handle_event (mstd_ref []) M_EVENT_TYPE_ERROR None (entered (sample_pending [])) =
      Some (failure_events M_EVENT_TYPE_ERROR (sample_pending []), d)"
    by (rule mstd_rand_api.failure_handled [OF ref_rand.mstd_rand_api_axioms [of "[]"] pending_client [of "[]" "[]"],
          where ty = M_EVENT_TYPE_ERROR]) auto
  from failure_outcome [OF ref_rand.mstd_rand_api_axioms [of "[]"] pending_client _ _ _ d] d
  show ?thesis by simp
qed

section \<open>The idle timer\<close>

text \<open>
  The connection's timer on a connection that is up: with nothing on the wire the
  connection is closed as idle, the socket being told once; with a transaction on the wire only
  the timer goes. Neither is reported, and no transaction changes.
\<close>

theorem idle_timer:
  assumes "mstd_api L" "conn_status c = LM_CONN_STATUS_CONNECTED" "io c = Some k" "timer c = Some h"
  shows "handle_event L M_EVENT_TYPE_OTHER None c = Some ([],
    if trans_pending c = []
    then c\<lparr>conn_status := LM_CONN_STATUS_IDLE_TIMEOUT, timer := None,
           calls := [Timer_remove (Some h), Io_disconnect k] @ calls c\<rparr>
    else c\<lparr>timer := None, calls := Timer_remove (Some h) # calls c\<rparr>)"
proof -
  have "M_queue_len L q = length q" for q
    using mstd_api.axioms(2) [OF assms(1)] by (rule queue_api.queue_len)
  with assms(2-4) show ?thesis
    by (simp add: handle_event_def handle_other_def LM_conn_disconnect_connlocked_def ext_def
        event_timer_remove_def Let_def)
qed

lemma idle_timer_witness:
  "\<exists>c'. handle_event (mstd_ref []) M_EVENT_TYPE_OTHER None
     ((sample_conn LM_CONN_STATUS_CONNECTED)\<lparr>timer := Some 5\<rparr>) = Some ([], c') \<and>
   conn_status c' = LM_CONN_STATUS_IDLE_TIMEOUT"
  using idle_timer [OF ref.mstd_api_axioms [of "[]"],
      of "(sample_conn LM_CONN_STATUS_CONNECTED)\<lparr>timer := Some 5\<rparr>" 1 5]
  by simp

section \<open>A response arrives\<close>

context mstd_rand_api
begin

lemma buffer_empty: "p_rest (inbuf c) = [] \<Longrightarrow>
    LM_conn_parse_trans_buffer L tp c = Some (LM_CONN_PARSE_ERROR_WAIT, tp, c)"
  by (subst LM_conn_parse_trans_buffer.simps) simp

lemma response_handled:
  assumes "core_inv L c" "conn_status c = LM_CONN_STATUS_CONNECTED" "pingtxn c = None"
    and t: "txns c p = Some t" "status t = LM_TRANS_STATUS_PENDING"
    and "M_io_read_into_parser L (calls c) (inbuf c) = (True, ib)"
    and "p_rest ib = frame (trans_id t) data" "data \<noteq> []" "ETX \<notin> set data"
  obtains d where "handle_event L M_EVENT_TYPE_READ None c = Some ([Entry LM_EVENT_TRANS_DONE (Some p)], d)"
    and "txns d = (txns c)(p \<mapsto> (complete_trans L data t)\<lparr>timeout_timer := None\<rparr>)"
    and "trans_pending d = remove1 p (trans_pending c)" and "trans_done d = trans_done c @ [p]"
    and "trans_new d = trans_new c" and "trans_ready d = trans_ready c" and "outbuf d = outbuf c"
    and "conn_status d = LM_CONN_STATUS_CONNECTED" and "p_rest (inbuf d) = []"
proof -
  let ?c = "(ext Io_read_into_parser c)\<lparr>inbuf := ib\<rparr>"
  let ?d = "(completed L p data ?c)\<lparr>inbuf := \<lparr>p_mark = None, p_rest = []\<rparr>\<rparr>"
  have map: "M_hash_u64vp_get L (trans_id_map c) (trans_id t) = Some p"
    using core_inv_map [OF assms(1), of "trans_id t" p] t(1) by blast
  have notin: "p \<notin> set (trans_done c)" using core_inv_notin(4) [OF assms(1) t(1)] t(2) by simp
  have parsed: "LM_conn_parse_trans_buffer L None ?c = Some (LM_CONN_PARSE_ERROR_SUCCESS, Some p, ?d)"
    using frame_parsed [of ?c p t data "[]" None] assms(7-9) t map notin core_inv_distinct(3) [OF assms(1)]
    by simp
  define t' where "t' = complete_trans L data t"
  have dp: "txns ?d = (txns c)(p \<mapsto> t')" by (simp add: completed_def t'_def t(1) trans_at_def)
  have dat: "trans_at ?d p = t'" by (simp add: trans_at_def dp)
  have ping: "pingtxn ?d = None" by (simp add: completed_def assms(3))
  define e where "e = (case timeout_timer t' of None \<Rightarrow> lock_trans p ?d
      | Some h \<Rightarrow> upd_trans p (\<lambda>t. t\<lparr>timeout_timer := None\<rparr>) (ext (Timer_remove (Some h)) (lock_trans p ?d)))"
  have live: "txns (lock_trans p ?d) = txns ?d" "trans_at (lock_trans p ?d) p = t'"
    by (simp, simp add: trans_at_def completed_def t'_def t(1))
  have noted: "note_done L (Some p) [] ?d = Some ([Entry LM_EVENT_TRANS_DONE (Some p)], unlock_trans p e)"
    unfolding note_done_def using ping live
    by (simp add: LM_conn_event_add_def e_def Let_def split: option.split)
  have same: "t'\<lparr>timeout_timer := None\<rparr> = t'" if "timeout_timer t' = None" using that by (cases t') simp
  have e_txns: "txns e = (txns c)(p \<mapsto> t'\<lparr>timeout_timer := None\<rparr>)"
    by (cases "timeout_timer t'") (simp_all add: e_def dp upd_trans_def, simp only: same)
  have e_rest: "trans_pending e = remove1 p (trans_pending c)" "trans_done e = trans_done c @ [p]"
    "trans_new e = trans_new c" "trans_ready e = trans_ready c" "outbuf e = outbuf c"
    "conn_status e = conn_status c" "p_rest (inbuf e) = []"
    by (cases "timeout_timer t'"; simp add: e_def completed_def upd_trans_def live dp split: option.split)+
  have loop: "read_loop L None [] ?c =
      Some (LM_CONN_PARSE_ERROR_WAIT, [Entry LM_EVENT_TRANS_DONE (Some p)], unlock_trans p e)"
    by (subst read_loop.simps, simp add: parsed noted, subst read_loop.simps)
      (simp add: buffer_empty e_rest)
  define g where "g = (if M_queue_len L (trans_pending (unlock_trans p e)) = 0
      then ext (Timer_reset (timer (unlock_trans p e)) (idle_timeout (unlock_trans p e) * 1000)) (unlock_trans p e)
      else unlock_trans p e)"
  have "handle_event L M_EVENT_TYPE_READ None c = Some ([Entry LM_EVENT_TRANS_DONE (Some p)], g)"
    by (simp add: handle_event_def handle_read_def assms(6) loop g_def Let_def)
  then show ?thesis
    using e_txns e_rest assms(2) by (intro that [of g]) (simp_all add: g_def t'_def)
qed

end

text \<open>
  C20. The whole way of a response: when the socket delivers the frame of a pending transaction,
  the handler returns and the callback has been told, once and of nothing else, that this
  transaction is done; what it finds then is that transaction with the response stored and its
  timer gone, in the done queue, and every other transaction as it was.
\<close>

theorem response_delivered:
  assumes "mstd_rand_api L" "client_inv L c" "\<not> in_use c" "\<not> conn_freed c" "callback_ok L cb"
    and "conn_status c = LM_CONN_STATUS_CONNECTED" "txns c p = Some t" "status t = LM_TRANS_STATUS_PENDING"
    and "M_io_read_into_parser L (Mutex_lock Conn_lock # calls c) (inbuf c) = (True, ib)"
    and "p_rest ib = frame (trans_id t) data" "data \<noteq> []" "ETX \<notin> set data"
  shows "\<exists>d c'. handle_event L M_EVENT_TYPE_READ None (entered c) =
      Some ([Entry LM_EVENT_TRANS_DONE (Some p)], d) \<and>
    txns d = (txns c)(p \<mapsto> (complete_trans L data t)\<lparr>timeout_timer := None\<rparr>) \<and>
    trans_pending d = remove1 p (trans_pending c) \<and> trans_done d = trans_done c @ [p] \<and>
    LM_conntrans_event_handler L cb M_EVENT_TYPE_READ None c = Some c' \<and>
    delivered (calls c') \<in> {delivered (calls c), delivered (calls c) @ [Entry LM_EVENT_TRANS_DONE (Some p)]} \<and>
    (\<not> conn_freed c' \<longrightarrow> delivered (calls c') = delivered (calls c) @ [Entry LM_EVENT_TRANS_DONE (Some p)])"
proof -
  have core: "core_inv L (entered c)" using mstd_rand_api.entered_core [OF assms(1-4)] by (simp add: core_at_def)
  have inv: "core_inv L c \<and> ping_inv c"
    using assms(2,4) by (auto simp: client_inv_def freed_at_def inv_at_def lm_inv_def)
  then have ping: "pingtxn (entered c) = None" using assms(6) by (simp add: ping_inv_def)
  have "calls (entered c) = Mutex_lock Conn_lock # calls c"
    using assms(4) by (simp add: lock_conn_def touch_def ext_def)
  then have rd: "M_io_read_into_parser L (calls (entered c)) (inbuf (entered c)) = (True, ib)"
    using assms(9) by simp
  have up: "conn_status (entered c) = LM_CONN_STATUS_CONNECTED" "txns (entered c) p = Some t"
    using assms(6,7) by simp_all
  obtain d where d: "handle_event L M_EVENT_TYPE_READ None (entered c) =
      Some ([Entry LM_EVENT_TRANS_DONE (Some p)], d)"
    "txns d = (txns (entered c))(p \<mapsto> (complete_trans L data t)\<lparr>timeout_timer := None\<rparr>)"
    "trans_pending d = remove1 p (trans_pending (entered c))" "trans_done d = trans_done (entered c) @ [p]"
    by (rule mstd_rand_api.response_handled
        [OF assms(1) core up(1) ping up(2) assms(8) rd assms(10-12)]) blast
  have "event_ok c M_EVENT_TYPE_READ None"
    using inv assms(4,6) by (simp add: event_ok_def core_inv_def io_inv_def)
  then obtain es e n c' where "handle_event L M_EVENT_TYPE_READ None (entered c) = Some (es, e)"
    and c': "LM_conntrans_event_handler L cb M_EVENT_TYPE_READ None c = Some c'"
    and told: "delivered (calls c') = delivered (calls c) @ take n es" "n < length es \<longrightarrow> conn_freed c'"
    by (rule mstd_rand_api.handler_runs [OF assms(1-3) _ assms(5)]) blast
  with d(1) have es: "es = [Entry LM_EVENT_TRANS_DONE (Some p)]" by simp
  have "delivered (calls c') = delivered (calls c) @ [Entry LM_EVENT_TRANS_DONE (Some p)] \<or>
      delivered (calls c') = delivered (calls c) \<and> conn_freed c'"
    using told by (cases n) (simp_all add: es)
  with d c' show ?thesis by auto
qed

lemma response_delivered_witness:
  "\<exists>d. handle_event (mstd_ref (frame 7 ''code=AUTH'')) M_EVENT_TYPE_READ None (entered (sample_pending [])) =
     Some ([Entry LM_EVENT_TRANS_DONE (Some 1)], d) \<and> trans_done d = [1]"
proof -
  let ?L = "mstd_ref (frame 7 ''code=AUTH'')"
  let ?t = "zero_trans\<lparr>trans_id := 7, status := LM_TRANS_STATUS_PENDING\<rparr>"
  have "M_io_read_into_parser ?L cs (inbuf (sample_pending [])) =
      (True, \<lparr>p_mark = None, p_rest = frame (trans_id ?t) ''code=AUTH''\<rparr>)" for cs
    by (simp add: mstd_ref_def sample_pending_def)
  from response_delivered [OF ref_rand.mstd_rand_api_axioms pending_client _ _ no_calls_ok _
      sample_pending_sel(1) _ this, of "''code=AUTH''"] show ?thesis
    by (auto simp: ETX_def)
qed

end
