(* ===== verification/LM_Legacy.thy ===== *)
theory LM_Legacy
  imports LM_World "HOL-Library.Signed_Division"
begin

text \<open>
  The legacy interface (\<open>src/monetra_legacy.c\<close>): transactions named by numbers instead of
  pointers, integer results instead of enumerations, and blocking calls that run the event loop
  until something has happened.

  C's \<open>int\<close> and \<open>long\<close> are words of 32 and 64 bits, read signed where the code compares them.
  The two pointers behind a \<open>M_CONN *\<close> argument are \<open>CONN_NULL\<close> (the argument is NULL),
  \<open>CONN_UNSET\<close> (it points to NULL) and \<open>CONN_SET\<close>.
\<close>

type_synonym i32 = "32 word"
type_synonym i64 = "64 word"

definition int_of_bool :: "bool \<Rightarrow> i32" where
  "int_of_bool b = (if b then 1 else 0)"

section \<open>Constants\<close>

abbreviation M_UNUSED :: i32 where "M_UNUSED \<equiv> 0"
abbreviation M_NEW :: i32 where "M_NEW \<equiv> 100"
abbreviation M_PENDING :: i32 where "M_PENDING \<equiv> 1"
abbreviation M_DONE :: i32 where "M_DONE \<equiv> 2"
abbreviation M_ERROR :: i32 where "M_ERROR \<equiv> - 1"
abbreviation M_FAIL :: i32 where "M_FAIL \<equiv> 0"
abbreviation M_SUCCESS :: i32 where "M_SUCCESS \<equiv> 1"

datatype m_ssllock_style = M_SSLLOCK_NONE | M_SSLLOCK_EXTERNAL | M_SSLLOCK_INTERNAL

section \<open>The library around it\<close>

text \<open>
  What the legacy interface calls besides the functions of \<open>Mstdlib\<close>: the TLS context, whose
  answers come from the file system, the formatting of floating point numbers (a \<open>double\<close> is its
  64 bits), turning a buffer into a string, and the clean-up of the library, which runs the
  registered handlers.
\<close>

record mstd_legacy =
  M_tls_clientctx_set_trust_ca_file :: "call list \<Rightarrow> handle \<Rightarrow> cstr \<Rightarrow> bool"
  M_tls_clientctx_set_trust_ca_dir :: "call list \<Rightarrow> handle \<Rightarrow> cstr \<Rightarrow> bool"
  M_tls_clientctx_set_default_trust :: "call list \<Rightarrow> handle \<Rightarrow> bool"
  M_format_double_2f :: "u64 \<Rightarrow> string"
  M_buf_finish_str :: "string \<Rightarrow> cstr"
  M_library_cleanup :: "(lm_globals \<Rightarrow> lm_globals) \<Rightarrow> lm_globals \<Rightarrow> lm_globals"

section \<open>State\<close>

datatype M_CONN_ptr = CONN_NULL | CONN_UNSET | CONN_SET

text \<open>
  The event loop of the connection delivers what the outside world brings: \<open>Arrives e\<close>, an
  event of the socket, a timer or the write trigger, or \<open>Elapsed\<close>, the time the loop was told
  to run is over. \<open>ticks\<close> is what is still to come, \<open>event_running\<close> whether another thread is
  already running the loop, \<open>slept\<close> the sleeps, newest first.
\<close>

datatype tick = Arrives world_event | Elapsed

record M_CONN =
  conn_obj :: conn_ptr
  lconn :: LM_conn
  legacy_tlsctx :: "handle option"
  trust_loaded :: bool
  blocking :: bool
  txntimeout :: u64
  is_monitor_previously_successful :: bool
  \<comment> \<open>not fields of the struct: the outside world\<close>
  ticks :: "tick list"
  event_running :: bool
  slept :: "u64 list"

record legacy_globals =
  lm :: lm_globals
  M_global_capath :: cstr

section \<open>The engine\<close>

definition M_InitEngine_ex :: "mstd \<Rightarrow> m_ssllock_style \<Rightarrow> legacy_globals \<Rightarrow> i32 \<times> legacy_globals" where
  "M_InitEngine_ex L lockstyle g =
     (let (ok, h) = LM_init L (if lockstyle = M_SSLLOCK_EXTERNAL then LM_INIT_SSLLOCK_EXTERNAL
                               else LM_INIT_NORMAL) (lm g)
      in (int_of_bool ok, g\<lparr>lm := h\<rparr>))"

definition M_InitEngine :: "mstd \<Rightarrow> cstr \<Rightarrow> legacy_globals \<Rightarrow> i32 \<times> legacy_globals" where
  "M_InitEngine L location g =
     (let (r, g) = M_InitEngine_ex L M_SSLLOCK_INTERNAL g
      in if r \<noteq> 0 \<and> \<not> M_str_isempty L location then (1, g\<lparr>M_global_capath := location\<rparr>)
         else (0, g))"

definition M_DestroyEngine :: "mstd_legacy \<Rightarrow> legacy_globals \<Rightarrow> legacy_globals" where
  "M_DestroyEngine X g =
     g\<lparr>lm := M_library_cleanup X LM_init_destructor (lm g), M_global_capath := None\<rparr>"

section \<open>Events\<close>

text \<open>Which events make the callback leave the event loop (\<open>M_event_return\<close>).\<close>

fun M_legacy_event_callback :: "LM_event_type \<Rightarrow> bool" where
  "M_legacy_event_callback LM_EVENT_CONN_DISCONNECT = True"
| "M_legacy_event_callback LM_EVENT_CONN_ERROR = True"
| "M_legacy_event_callback LM_EVENT_CONN_CONNECTED = True"
| "M_legacy_event_callback LM_EVENT_TRANS_DONE = True"
| "M_legacy_event_callback LM_EVENT_TRANS_ERROR = True"
| "M_legacy_event_callback LM_EVENT_TRANS_NOCONNECT = True"
| "M_legacy_event_callback LM_EVENT_TRANS_TIMEOUT = False"

text \<open>It makes no call of the library.\<close>

definition legacy_cb :: event_callback where
  "legacy_cb ev tp c = []"

text \<open>Whether it asked to leave the loop for one of the events delivered between two states.\<close>

definition loop_left :: "LM_conn \<Rightarrow> LM_conn \<Rightarrow> bool" where
  "loop_left c c' \<longleftrightarrow>
     list_ex (\<lambda>e. M_legacy_event_callback (ev_type e))
       (delivered (take (length (calls c') - length (calls c)) (calls c')))"

text \<open>
  \<open>M_event_loop\<close> of mstdlib with the handlers of this connection: it runs until its time is
  over or a handler has asked to leave it. \<open>None\<close>: it waits for ever.
\<close>

fun event_loop :: "mstd \<Rightarrow> bool \<Rightarrow> tick list \<Rightarrow> LM_conn \<Rightarrow> (tick list \<times> LM_conn) option" where
  "event_loop L forever [] c = (if forever then None else Some ([], c))"
| "event_loop L forever (Elapsed # ts) c = (if forever then event_loop L forever ts c else Some (ts, c))"
| "event_loop L forever (Arrives e # ts) c =
     (case run_event L legacy_cb e c of
        None \<Rightarrow> None
      | Some c' \<Rightarrow> if loop_left c c' then Some (ts, c') else event_loop L forever ts c')"

text \<open>The timeout in milliseconds, \<open>None\<close> for \<open>M_TIMEOUT_INF\<close>.\<close>

definition M_event_loop :: "mstd \<Rightarrow> u64 option \<Rightarrow> M_CONN \<Rightarrow> M_CONN option" where
  "M_event_loop L timeout s =
     map_option (\<lambda>(ts, c). s\<lparr>ticks := ts, lconn := c\<rparr>)
       (event_loop L (timeout = None) (ticks s) (lconn s))"

section \<open>The connection\<close>

text \<open>The fields that are not set are zero.\<close>

definition M_InitConn ::
  "mstd \<Rightarrow> mstd_legacy \<Rightarrow> M_CONN_ptr \<Rightarrow> tick list \<Rightarrow> legacy_globals \<Rightarrow>
   (M_CONN_ptr \<times> M_CONN option) \<times> legacy_globals" where
  "M_InitConn L X ptr world g =
     (if ptr = CONN_NULL then ((ptr, None), g)
      else
        let (lc, h) = LM_conn_init L False False (Some ''localhost'') 8665 (lm g);
            g = g\<lparr>lm := h\<rparr>;
            cn = (case lc of None \<Rightarrow> NULL | Some _ \<Rightarrow> CONN);
            c = (case lc of None \<Rightarrow> zero_conn | Some c \<Rightarrow> c);
            (ctx, c) = new_handle c;
            c = ext (Tls_create ctx) c;
            c = ext (Tls_configure ''verify_none'') c;
            c = (if M_global_capath g \<noteq> None then ext (Tls_configure ''trust_ca_file'') c else c);
            (_, c) = LM_conn_set_tls_clientctx cn (Some ctx) c
        in ((CONN_SET,
             Some \<lparr>conn_obj = cn, lconn = c, legacy_tlsctx = Some ctx, trust_loaded = False,
                   blocking = False, txntimeout = 0, is_monitor_previously_successful = False,
                   ticks = world, event_running = False, slept = []\<rparr>), g))"

text \<open>The features that are gone.\<close>

definition M_SetProxyHost :: "M_CONN_ptr \<Rightarrow> cstr \<Rightarrow> u16 \<Rightarrow> cstr \<Rightarrow> i32" where
  "M_SetProxyHost ptr h p ty = 0"

definition M_SetProxyTimeout :: "M_CONN_ptr \<Rightarrow> i32 \<Rightarrow> i32" where
  "M_SetProxyTimeout ptr timeout = 0"

definition M_SetProxyUser :: "M_CONN_ptr \<Rightarrow> cstr \<Rightarrow> cstr \<Rightarrow> i32" where
  "M_SetProxyUser ptr username password = 0"

definition M_SetProxyLocalNets :: "M_CONN_ptr \<Rightarrow> cstr \<Rightarrow> cstr \<Rightarrow> i32 \<Rightarrow> i32" where
  "M_SetProxyLocalNets ptr localnets err errlen = 0"

definition M_SetLogging :: "M_CONN_ptr \<Rightarrow> i32 \<Rightarrow> i32" where
  "M_SetLogging ptr level = 0"

definition M_SetDropFile :: "M_CONN_ptr \<Rightarrow> cstr \<Rightarrow> i32" where
  "M_SetDropFile ptr df_location = 0"

definition M_SetBlocking :: "M_CONN_ptr \<Rightarrow> i32 \<Rightarrow> M_CONN \<Rightarrow> i32 \<times> M_CONN" where
  "M_SetBlocking ptr tf s =
     (if ptr \<noteq> CONN_SET then (0, s) else (1, s\<lparr>blocking := (tf \<noteq> 0)\<rparr>))"

definition M_SetTimeout :: "M_CONN_ptr \<Rightarrow> i64 \<Rightarrow> M_CONN \<Rightarrow> i32 \<times> M_CONN" where
  "M_SetTimeout ptr timeout s =
     (if ptr \<noteq> CONN_SET \<or> sint timeout < 0 then (0, s) else (1, s\<lparr>txntimeout := timeout\<rparr>))"

definition set_server :: "mstd \<Rightarrow> M_CONN_ptr \<Rightarrow> cstr \<Rightarrow> u16 \<Rightarrow> LM_mode \<Rightarrow> M_CONN \<Rightarrow> i32 \<times> M_CONN" where
  "set_server L ptr h p m s =
     (if ptr \<noteq> CONN_SET \<or> M_str_isempty L h \<or> p = 0 then (0, s)
      else
        let (ok, c) = LM_conn_change_server L (conn_obj s) h p (lconn s) in
        if \<not> ok then (0, s\<lparr>lconn := c\<rparr>)
        else
          let (ok, c) = LM_conn_change_mode (conn_obj s) m c
          in (int_of_bool ok, s\<lparr>lconn := c\<rparr>))"

definition M_SetIP :: "mstd \<Rightarrow> M_CONN_ptr \<Rightarrow> cstr \<Rightarrow> u16 \<Rightarrow> M_CONN \<Rightarrow> i32 \<times> M_CONN" where
  "M_SetIP L ptr h p s = set_server L ptr h p LM_MODE_IP s"

definition M_SetSSL :: "mstd \<Rightarrow> M_CONN_ptr \<Rightarrow> cstr \<Rightarrow> u16 \<Rightarrow> M_CONN \<Rightarrow> i32 \<times> M_CONN" where
  "M_SetSSL L ptr h p s = set_server L ptr h p LM_MODE_TLS s"

text \<open>Loading certificates to trust into the TLS context.\<close>

definition load_trust :: "string \<Rightarrow> (call list \<Rightarrow> handle \<Rightarrow> bool) \<Rightarrow> M_CONN \<Rightarrow> bool \<times> M_CONN" where
  "load_trust what answer s =
     (case legacy_tlsctx s of
        None \<Rightarrow> (False, s)
      | Some h \<Rightarrow> (answer (calls (lconn s)) h, s\<lparr>lconn := ext (Tls_configure what) (lconn s)\<rparr>))"

definition M_SetSSL_CAfile :: "mstd \<Rightarrow> mstd_legacy \<Rightarrow> M_CONN_ptr \<Rightarrow> cstr \<Rightarrow> M_CONN \<Rightarrow> i32 \<times> M_CONN" where
  "M_SetSSL_CAfile L X ptr path s =
     (if ptr \<noteq> CONN_SET \<or> M_str_isempty L path then (0, s)
      else
        let (ok, s) = load_trust ''trust_ca_file''
                        (\<lambda>cs h. M_tls_clientctx_set_trust_ca_file X cs h path) s
        in if ok then (1, s\<lparr>trust_loaded := True\<rparr>) else (0, s))"

definition M_SetSSL_CAdir :: "mstd \<Rightarrow> mstd_legacy \<Rightarrow> M_CONN_ptr \<Rightarrow> cstr \<Rightarrow> M_CONN \<Rightarrow> i32 \<times> M_CONN" where
  "M_SetSSL_CAdir L X ptr path s =
     (if ptr \<noteq> CONN_SET \<or> M_str_isempty L path then (0, s)
      else
        let (ok, s) = load_trust ''trust_ca_dir''
                        (\<lambda>cs h. M_tls_clientctx_set_trust_ca_dir X cs h path) s
        in if ok then (1, s\<lparr>trust_loaded := True\<rparr>) else (0, s))"

definition M_SetSSL_Files :: "mstd \<Rightarrow> M_CONN_ptr \<Rightarrow> cstr \<Rightarrow> cstr \<Rightarrow> M_CONN \<Rightarrow> i32 \<times> M_CONN" where
  "M_SetSSL_Files L ptr sslkeyfile sslcertfile s =
     (if ptr \<noteq> CONN_SET \<or> M_str_isempty L sslkeyfile \<or> M_str_isempty L sslcertfile then (0, s)
      else
        let (ok, c) = LM_conn_set_tls_cert_files L (conn_obj s) sslkeyfile sslcertfile (lconn s)
        in (int_of_bool ok, s\<lparr>lconn := c\<rparr>))"

text \<open>There is no check of the pointer here: reading through NULL is a fault.\<close>

definition M_VerifyConnection :: "M_CONN_ptr \<Rightarrow> i32 \<Rightarrow> M_CONN \<Rightarrow> M_CONN" where
  "M_VerifyConnection ptr tf s =
     (if tf \<noteq> 0 then s
      else if ptr \<noteq> CONN_SET then s\<lparr>lconn := (lconn s)\<lparr>fault := True\<rparr>\<rparr>
      else s\<lparr>lconn := LM_conn_disable_ping (conn_obj s) (lconn s)\<rparr>)"

definition verify_level :: "i32 \<Rightarrow> string" where
  "verify_level level =
     (if level = 0 then ''verify_none''
      else if level = 1 then ''verify_full''
      else if level = 2 then ''verify_cert_fuzzy''
      else if level = 3 then ''verify_cert_only''
      else ''verify_full'')"

definition M_VerifySSLCert :: "M_CONN_ptr \<Rightarrow> i32 \<Rightarrow> M_CONN \<Rightarrow> M_CONN" where
  "M_VerifySSLCert ptr level s =
     (if ptr \<noteq> CONN_SET \<or> sint level < 0 \<or> sint level > 3 then s
      else s\<lparr>lconn := ext (Tls_configure (verify_level level)) (lconn s)\<rparr>)"

definition M_ValidateIdentifier :: "M_CONN_ptr \<Rightarrow> i32 \<Rightarrow> i32" where
  "M_ValidateIdentifier ptr tf = (if ptr \<noteq> CONN_SET then 0 else 1)"

definition M_Connect :: "mstd \<Rightarrow> mstd_legacy \<Rightarrow> M_CONN_ptr \<Rightarrow> M_CONN \<Rightarrow> (i32 \<times> M_CONN) option" where
  "M_Connect L X ptr s =
     (if ptr \<noteq> CONN_SET then Some (0, s)
      else
        let s = (if \<not> trust_loaded s
                 then let (ok, s) = load_trust ''default_trust''
                                      (M_tls_clientctx_set_default_trust X) s
                      in s\<lparr>trust_loaded := ok\<rparr>
                 else s);
            (ok, c) = LM_conn_connect L (conn_obj s) (lconn s);
            s = s\<lparr>lconn := c\<rparr>
        in if \<not> ok then Some (0, s)
           else
             case M_event_loop L None s of
               None \<Rightarrow> None
             | Some s \<Rightarrow>
                 if LM_conn_status (conn_obj s) (lconn s) \<noteq> LM_CONN_STATUS_CONNECTED then Some (0, s)
                 else Some (1, s))"

text \<open>\<open>(size_t)maxtime\<close> extends the sign.\<close>

definition M_MaxConnTimeout :: "M_CONN_ptr \<Rightarrow> i32 \<Rightarrow> M_CONN \<Rightarrow> M_CONN" where
  "M_MaxConnTimeout ptr maxtime s =
     (if ptr \<noteq> CONN_SET then s
      else s\<lparr>lconn := snd (LM_conn_set_conn_timeout (conn_obj s) (word_of_int (sint maxtime)) (lconn s))\<rparr>)"

definition M_ConnectionError :: "M_CONN_ptr \<Rightarrow> M_CONN \<Rightarrow> cstr" where
  "M_ConnectionError ptr s = (if ptr \<noteq> CONN_SET then None else LM_conn_error (conn_obj s) (lconn s))"

partial_function (option) wait_disconnected :: "mstd \<Rightarrow> M_CONN \<Rightarrow> M_CONN option" where
  "wait_disconnected L s =
     (if LM_conn_status (conn_obj s) (lconn s) = LM_CONN_STATUS_DISCONNECTING
      then case M_event_loop L None s of None \<Rightarrow> None | Some s \<Rightarrow> wait_disconnected L s
      else Some s)"

definition M_Disconnect :: "mstd \<Rightarrow> M_CONN_ptr \<Rightarrow> M_CONN \<Rightarrow> (i32 \<times> M_CONN) option" where
  "M_Disconnect L ptr s =
     (if ptr \<noteq> CONN_SET then Some (0, s)
      else if LM_conn_status (conn_obj s) (lconn s) = LM_CONN_STATUS_CONNECTED then
        let (_, c) = LM_conn_disconnect (conn_obj s) (lconn s)
        in map_option (Pair 1) (wait_disconnected L (s\<lparr>lconn := c\<rparr>))
      else Some (1, s))"

definition M_DestroyConn :: "mstd \<Rightarrow> M_CONN_ptr \<Rightarrow> M_CONN \<Rightarrow> (M_CONN_ptr \<times> M_CONN) option" where
  "M_DestroyConn L ptr s =
     (if ptr \<noteq> CONN_SET then Some (ptr, s)
      else case M_Disconnect L ptr s of
        None \<Rightarrow> None
      | Some (_, s) \<Rightarrow>
          let c = LM_conn_destroy L (conn_obj s) (lconn s);
              c = (case legacy_tlsctx s of None \<Rightarrow> c | Some h \<Rightarrow> ext (Tls_destroy h) c)
          in Some (CONN_UNSET, s\<lparr>lconn := c\<rparr>))"

end
