(* ===== verification/LM_Legacy_Trans.thy ===== *)
theory LM_Legacy_Trans
  imports LM_Legacy
begin

text \<open>
  The second half of \<open>src/monetra_legacy.c\<close>: running the connection (\<open>M_Monitor\<close>) and the
  transactions, named by their internal id.
\<close>

section \<open>Monitoring\<close>

definition conn_alive :: "M_CONN \<Rightarrow> bool" where
  "conn_alive s \<longleftrightarrow>
     LM_conn_status (conn_obj s) (lconn s) = LM_CONN_STATUS_CONNECTED \<or>
     LM_conn_status (conn_obj s) (lconn s) = LM_CONN_STATUS_CONNECTING"

definition trans_count :: "mstd \<Rightarrow> LM_trans_status_t \<Rightarrow> M_CONN \<Rightarrow> nat \<times> M_CONN" where
  "trans_count L st s =
     (let (n, c) = LM_conn_trans_count L (conn_obj s) st (lconn s) in (n, s\<lparr>lconn := c\<rparr>))"

text \<open>
  When another thread runs the loop already, this one sleeps, at most 20 ms. Otherwise it runs
  the loop: \<open>-1\<close> is without limit, other values are microseconds.
\<close>

definition monitor_wait :: "mstd \<Rightarrow> i64 \<Rightarrow> M_CONN \<Rightarrow> M_CONN option" where
  "monitor_wait L wait_us s =
     (if event_running s then
        let wait_us = (if sint wait_us < 0 \<or> sint wait_us > 20000 then 20000 else wait_us)
        in Some (if wait_us \<noteq> 0 then s\<lparr>slept := wait_us # slept s\<rparr> else s)
      else M_event_loop L (if wait_us = - 1 then None else Some (word_of_int (sint wait_us sdiv 1000))) s)"

definition M_Monitor_ex :: "mstd \<Rightarrow> M_CONN_ptr \<Rightarrow> i64 \<Rightarrow> M_CONN \<Rightarrow> (i32 \<times> M_CONN) option" where
  "M_Monitor_ex L ptr wait_us s =
     (if ptr \<noteq> CONN_SET then Some (0, s)
      else
        let (pending, s) = trans_count L LM_TRANS_STATUS_PENDING s;
            (ready, s) = (if pending = 0 then trans_count L LM_TRANS_STATUS_READY s else (0, s))
        in if pending = 0 \<and> ready = 0 \<and> \<not> is_monitor_previously_successful s then Some (1, s)
           else if \<not> conn_alive s then Some (0, s)
           else case monitor_wait L wait_us s of
             None \<Rightarrow> None
           | Some s \<Rightarrow>
               if \<not> conn_alive s then Some (0, s)
               else Some (1, s\<lparr>is_monitor_previously_successful := True\<rparr>))"

definition M_Monitor :: "mstd \<Rightarrow> M_CONN_ptr \<Rightarrow> M_CONN \<Rightarrow> (i32 \<times> M_CONN) option" where
  "M_Monitor L ptr s = M_Monitor_ex L ptr 0 s"

definition M_TransactionsSent :: "mstd \<Rightarrow> M_CONN_ptr \<Rightarrow> M_CONN \<Rightarrow> i32 \<times> M_CONN" where
  "M_TransactionsSent L ptr s =
     (if ptr \<noteq> CONN_SET then (0, s)
      else
        let (pending, s) = trans_count L LM_TRANS_STATUS_PENDING s;
            (don, s) = trans_count L LM_TRANS_STATUS_DONE s
        in (of_nat pending + of_nat don, s))"

section \<open>Transactions by number\<close>

text \<open>
  The prologue most functions share: the guard on the pointers, which may return early, and
  the search for the transaction. The result \<open>r\<close> is what the function returns in both cases.
\<close>

definition with_trans ::
  "mstd \<Rightarrow> M_CONN_ptr \<Rightarrow> u64 \<Rightarrow> 'r \<Rightarrow> (ptr \<Rightarrow> LM_conn \<Rightarrow> 'r \<times> LM_conn) \<Rightarrow> M_CONN \<Rightarrow> 'r \<times> M_CONN" where
  "with_trans L ptr identifier r body s =
     (if ptr \<noteq> CONN_SET then (r, s)
      else
        let (tp, c) = LM_conn_get_trans_by_internal_id L (conn_obj s) identifier (lconn s) in
        case tp of
          None \<Rightarrow> (r, s\<lparr>lconn := c\<rparr>)
        | Some p \<Rightarrow> let (x, c) = body p c in (x, s\<lparr>lconn := c\<rparr>))"

definition M_DeleteTrans :: "mstd \<Rightarrow> M_CONN_ptr \<Rightarrow> u64 \<Rightarrow> M_CONN \<Rightarrow> M_CONN" where
  "M_DeleteTrans L ptr identifier s =
     snd (with_trans L ptr identifier () (\<lambda>p c. ((), LM_trans_delete L (Some p) c)) s)"

definition M_TransNew :: "mstd \<Rightarrow> M_CONN_ptr \<Rightarrow> M_CONN \<Rightarrow> (u64 \<times> M_CONN) option" where
  "M_TransNew L ptr s =
     (if ptr \<noteq> CONN_SET then Some (0, s)
      else case LM_trans_new L (conn_obj s) (lconn s) of
        None \<Rightarrow> None
      | Some (None, c) \<Rightarrow> Some (0, s\<lparr>lconn := c\<rparr>)
      | Some (Some p, c) \<Rightarrow>
          let (i, c) = LM_trans_internal_id (Some p) c in Some (i, s\<lparr>lconn := c\<rparr>))"

definition M_TransKeyVal ::
  "mstd \<Rightarrow> M_CONN_ptr \<Rightarrow> u64 \<Rightarrow> cstr \<Rightarrow> cstr \<Rightarrow> M_CONN \<Rightarrow> i32 \<times> M_CONN" where
  "M_TransKeyVal L ptr identifier key value s =
     with_trans L ptr identifier 0
       (\<lambda>p c. let (ok, c) = LM_trans_set_param L (Some p) key value c in (int_of_bool ok, c)) s"

text \<open>\<open>value\<close> is the buffer, of which the first \<open>value_len\<close> bytes are the value.\<close>

definition M_TransBinaryKeyVal ::
  "mstd \<Rightarrow> M_CONN_ptr \<Rightarrow> u64 \<Rightarrow> cstr \<Rightarrow> string \<Rightarrow> i32 \<Rightarrow> M_CONN \<Rightarrow> i32 \<times> M_CONN" where
  "M_TransBinaryKeyVal L ptr identifier key value value_len s =
     (if ptr \<noteq> CONN_SET \<or> M_str_isempty L key \<or> sint value_len < 0 then (0, s)
      else
        with_trans L ptr identifier 0
          (\<lambda>p c. let (ok, c) = LM_trans_set_param_binary L (Some p) key
                                 (take (nat (sint value_len)) value) c
                 in (int_of_bool ok, c)) s)"

text \<open>The loop of blocking mode; \<open>s\<close> is after the status has been read.\<close>

partial_function (option) wait_done :: "mstd \<Rightarrow> ptr \<Rightarrow> M_CONN \<Rightarrow> (i32 \<times> M_CONN) option" where
  "wait_done L p s =
     (let (st, c) = LM_trans_status (Some p) (lconn s);
          s = s\<lparr>lconn := c\<rparr>
      in if st = Some LM_TRANS_STATUS_DONE then Some (1, s)
         else case M_Monitor_ex L CONN_SET (- 1) s of
           None \<Rightarrow> None
         | Some (r, s) \<Rightarrow>
             if r \<noteq> 0 then wait_done L p s
             else
               let (st, c) = LM_trans_status (Some p) (lconn s);
                   s = s\<lparr>lconn := c\<rparr>
               in if st \<noteq> Some LM_TRANS_STATUS_DONE then Some (0, s) else wait_done L p s)"

definition M_TransSend ::
  "mstd \<Rightarrow> mstd_legacy \<Rightarrow> M_CONN_ptr \<Rightarrow> u64 \<Rightarrow> M_CONN \<Rightarrow> (i32 \<times> M_CONN) option" where
  "M_TransSend L X ptr identifier s =
     (if ptr \<noteq> CONN_SET then Some (0, s)
      else
        let (tp, c) = LM_conn_get_trans_by_internal_id L (conn_obj s) identifier (lconn s);
            s = s\<lparr>lconn := c\<rparr>
        in case tp of
          None \<Rightarrow> Some (0, s)
        | Some p \<Rightarrow> do {
            s \<leftarrow> M_event_loop L (Some 0) s;
            (r, s) \<leftarrow> (if LM_conn_status (conn_obj s) (lconn s) \<noteq> LM_CONN_STATUS_CONNECTED
                       then M_Connect L X ptr s else Some (1, s));
            if r = 0 then Some (0, s)
            else do {
              (ok, c) \<leftarrow> LM_trans_send L (Some p) (lconn s);
              let s = s\<lparr>lconn := c\<rparr>;
              if \<not> ok then Some (0, s)
              else if blocking s then wait_done L p s
              else Some (1, s)
            }
          })"

section \<open>Responses\<close>

definition M_ResponseParam :: "mstd \<Rightarrow> M_CONN_ptr \<Rightarrow> u64 \<Rightarrow> cstr \<Rightarrow> M_CONN \<Rightarrow> cstr \<times> M_CONN" where
  "M_ResponseParam L ptr identifier key s =
     (if ptr \<noteq> CONN_SET \<or> M_str_isempty L key then (None, s)
      else with_trans L ptr identifier None (\<lambda>p. LM_trans_response_param L (Some p) key) s)"

text \<open>
  \<open>None\<close> for the length: nothing is stored through \<open>out_length\<close>.
\<close>

definition M_ResponseBinaryParam ::
  "mstd \<Rightarrow> M_CONN_ptr \<Rightarrow> u64 \<Rightarrow> cstr \<Rightarrow> bool \<Rightarrow> M_CONN \<Rightarrow> (cstr \<times> i32 option) \<times> M_CONN" where
  "M_ResponseBinaryParam L ptr identifier key out_length_null s =
     (if ptr \<noteq> CONN_SET \<or> M_str_isempty L key \<or> out_length_null then ((None, None), s)
      else
        with_trans L ptr identifier (None, None)
          (\<lambda>p c. let (temp, c) = LM_trans_response_param_binary L (Some p) key False c
                 in (case temp of
                       None \<Rightarrow> ((None, Some 0), c)
                     | Some out \<Rightarrow> ((Some out, Some (of_nat (length out))), c))) s)"

text \<open>The array of keys (\<open>None\<close> for NULL) and the number stored through \<open>num_keys\<close>.\<close>

definition M_ResponseKeys ::
  "mstd \<Rightarrow> M_CONN_ptr \<Rightarrow> u64 \<Rightarrow> bool \<Rightarrow> M_CONN \<Rightarrow> (string list option \<times> i32 option) \<times> M_CONN" where
  "M_ResponseKeys L ptr identifier num_keys_null s =
     (if ptr \<noteq> CONN_SET \<or> num_keys_null then ((None, None), s)
      else
        with_trans L ptr identifier (None, Some 0)
          (\<lambda>p c. let (keys, c) = LM_trans_response_keys L (Some p) c
                 in (case keys of
                       None \<Rightarrow> ((None, Some 0), c)
                     | Some ks \<Rightarrow>
                         if ks = [] then ((None, Some 0), c)
                         else ((Some ks, Some (of_nat (length ks))), c))) s)"

text \<open>Reading an array: its member, or a read behind its end.\<close>

datatype 'a c_read = Member 'a | Behind_end

definition read_array :: "'a list \<Rightarrow> i32 \<Rightarrow> 'a c_read" where
  "read_array xs idx =
     (if nat (sint idx) < length xs then Member (xs ! nat (sint idx)) else Behind_end)"

definition M_ResponseKeys_index :: "string list option \<Rightarrow> i32 \<Rightarrow> i32 \<Rightarrow> cstr c_read" where
  "M_ResponseKeys_index keys num_keys idx =
     (case keys of
        None \<Rightarrow> Member None
      | Some ks \<Rightarrow>
          if sint num_keys \<le> 0 \<or> sint idx < 0 \<or> sint idx > sint num_keys then Member None
          else read_array (map Some ks) idx)"

text \<open>The members freed, then the array; a read behind the end is the result \<open>None\<close>.\<close>

definition M_FreeResponseKeys :: "string list option \<Rightarrow> i32 \<Rightarrow> (i32 \<times> nat) option" where
  "M_FreeResponseKeys keys num_keys =
     (case keys of
        None \<Rightarrow> Some (0, 0)
      | Some ks \<Rightarrow>
          if num_keys = 0 then Some (0, 0)
          else if nat (sint num_keys) \<le> length ks then Some (1, nat (sint num_keys) + 1)
          else None)"

section \<open>Status\<close>

definition M_TransInQueue :: "mstd \<Rightarrow> M_CONN_ptr \<Rightarrow> M_CONN \<Rightarrow> i64 \<times> M_CONN" where
  "M_TransInQueue L ptr s =
     (if ptr \<noteq> CONN_SET then (0, s)
      else let (n, s) = trans_count L LM_TRANS_STATUS_ALL s
           in (word_of_int (sint (of_nat n :: i32)), s))"

definition status_code :: "LM_trans_status_t option \<Rightarrow> i32" where
  "status_code st =
     (case st of
        Some LM_TRANS_STATUS_NEW \<Rightarrow> M_NEW
      | Some LM_TRANS_STATUS_READY \<Rightarrow> M_PENDING
      | Some LM_TRANS_STATUS_PENDING \<Rightarrow> M_PENDING
      | Some LM_TRANS_STATUS_DONE \<Rightarrow> M_DONE
      | _ \<Rightarrow> M_UNUSED)"

definition M_CheckStatus :: "mstd \<Rightarrow> M_CONN_ptr \<Rightarrow> u64 \<Rightarrow> M_CONN \<Rightarrow> i32 \<times> M_CONN" where
  "M_CheckStatus L ptr identifier s =
     with_trans L ptr identifier M_UNUSED
       (\<lambda>p c. let (st, c) = LM_trans_status (Some p) c in (status_code st, c)) s"

definition M_IsCommaDelimited :: "mstd \<Rightarrow> M_CONN_ptr \<Rightarrow> u64 \<Rightarrow> M_CONN \<Rightarrow> i32 \<times> M_CONN" where
  "M_IsCommaDelimited L ptr identifier s =
     with_trans L ptr identifier 0
       (\<lambda>p c. let (ty, c) = LM_trans_response_type (Some p) c
              in (if ty = LM_TRANS_RESPONSE_KV then 0 else 1, c)) s"

definition M_ReturnStatus :: "mstd \<Rightarrow> M_CONN_ptr \<Rightarrow> u64 \<Rightarrow> M_CONN \<Rightarrow> i32 \<times> M_CONN" where
  "M_ReturnStatus L ptr identifier s =
     (let (st, s) = M_CheckStatus L ptr identifier s in
      if st \<noteq> M_DONE then (M_ERROR, s)
      else
        let (comma, s) = M_IsCommaDelimited L ptr identifier s in
        if comma \<noteq> 0 then (M_SUCCESS, s)
        else
          let (code, s) = M_ResponseParam L ptr identifier (Some ''code'') s
          in if M_str_caseeq L code (Some ''SUCCESS'') \<or> M_str_caseeq L code (Some ''AUTH'')
             then (M_SUCCESS, s) else (M_FAIL, s))"

text \<open>The ids stored through \<open>listings\<close>, when it is not NULL.\<close>

definition M_CompleteAuthorizations ::
  "mstd \<Rightarrow> M_CONN_ptr \<Rightarrow> bool \<Rightarrow> M_CONN \<Rightarrow> (i64 \<times> u64 list option) \<times> M_CONN" where
  "M_CompleteAuthorizations L ptr listings_null s =
     (if ptr \<noteq> CONN_SET then ((0, None), s)
      else if listings_null then
        let (n, s) = trans_count L LM_TRANS_STATUS_DONE s in ((of_nat n, None), s)
      else
        let (lst, c) = LM_conn_trans_list L (conn_obj s) LM_TRANS_STATUS_DONE (lconn s) in
        case lst of
          None \<Rightarrow> ((0, None), s\<lparr>lconn := c\<rparr>)
        | Some ps \<Rightarrow>
            let ids = map (\<lambda>p. fst (LM_trans_internal_id (Some p) c)) ps;
                c = fold (\<lambda>p c. snd (LM_trans_internal_id (Some p) c)) ps c
            in ((of_nat (length ps), Some ids), s\<lparr>lconn := c\<rparr>))"

definition M_CompleteAuthorizations_index :: "u64 list option \<Rightarrow> i32 \<Rightarrow> i32 \<Rightarrow> u64 c_read" where
  "M_CompleteAuthorizations_index listings num_listings idx =
     (case listings of
        None \<Rightarrow> Member 0
      | Some ids \<Rightarrow>
          if sint num_listings \<le> 0 \<or> sint idx \<le> 0 \<or> sint idx \<ge> sint num_listings then Member 0
          else read_array ids idx)"

text \<open>The result and how many blocks are freed.\<close>

definition M_FreeCompleteAuthorizations :: "u64 list option \<Rightarrow> i32 \<Rightarrow> i32 \<times> nat" where
  "M_FreeCompleteAuthorizations listings num_listings =
     (1, case listings of None \<Rightarrow> 0 | Some _ \<Rightarrow> 1)"

section \<open>Tables\<close>

definition M_ParseCommaDelimited :: "mstd \<Rightarrow> M_CONN_ptr \<Rightarrow> u64 \<Rightarrow> M_CONN \<Rightarrow> i32 \<times> M_CONN" where
  "M_ParseCommaDelimited L ptr identifier s =
     (let (r, s) = M_IsCommaDelimited L ptr identifier s in (if r \<noteq> 0 then 1 else 0, s))"

definition M_GetCommaDelimited :: "mstd \<Rightarrow> M_CONN_ptr \<Rightarrow> u64 \<Rightarrow> M_CONN \<Rightarrow> cstr \<times> M_CONN" where
  "M_GetCommaDelimited L ptr identifier s =
     with_trans L ptr identifier None (\<lambda>p. LM_trans_response_raw (Some p)) s"

definition M_GetCSVHandle :: "mstd \<Rightarrow> M_CONN_ptr \<Rightarrow> u64 \<Rightarrow> M_CONN \<Rightarrow> csv option \<times> M_CONN" where
  "M_GetCSVHandle L ptr identifier s =
     with_trans L ptr identifier None (\<lambda>p. LM_trans_response_csv L (Some p)) s"

definition M_GetCell ::
  "mstd \<Rightarrow> M_CONN_ptr \<Rightarrow> u64 \<Rightarrow> cstr \<Rightarrow> i64 \<Rightarrow> M_CONN \<Rightarrow> cstr \<times> M_CONN" where
  "M_GetCell L ptr identifier column row s =
     (if M_str_isempty L column \<or> sint row < 0 then (None, s)
      else
        let (csv, s) = M_GetCSVHandle L ptr identifier s
        in (case csv of None \<Rightarrow> None | Some t \<Rightarrow> M_csv_get_cell L t row (the column), s))"

definition M_GetCellByNum ::
  "mstd \<Rightarrow> M_CONN_ptr \<Rightarrow> u64 \<Rightarrow> i32 \<Rightarrow> i64 \<Rightarrow> M_CONN \<Rightarrow> cstr \<times> M_CONN" where
  "M_GetCellByNum L ptr identifier column row s =
     (if sint column < 0 \<or> sint row < 0 then (None, s)
      else
        let (csv, s) = M_GetCSVHandle L ptr identifier s
        in (case csv of
              None \<Rightarrow> None
            | Some t \<Rightarrow> M_csv_get_cellbynum L t row (word_of_int (sint column)), s))"

text \<open>The bytes with a NUL after them, and the length stored through \<open>out_length\<close>.\<close>

definition M_GetBinaryCell ::
  "mstd \<Rightarrow> M_CONN_ptr \<Rightarrow> u64 \<Rightarrow> cstr \<Rightarrow> i64 \<Rightarrow> bool \<Rightarrow> M_CONN \<Rightarrow> (cstr \<times> i32 option) \<times> M_CONN" where
  "M_GetBinaryCell L ptr identifier column row out_length_null s =
     (if column = None \<or> sint row < 0 \<or> out_length_null then ((None, None), s)
      else
        let (cell, s) = M_GetCell L ptr identifier column row s
        in (case cell of
              None \<Rightarrow> (None, Some 0)
            | Some v \<Rightarrow>
                (case M_bincodec_decode L v of
                   None \<Rightarrow> (None, Some 0)
                 | Some data \<Rightarrow> (Some (data @ [CHR 0x00]), Some (of_nat (length data)))), s))"

definition M_FreeBinaryCell :: "cstr \<Rightarrow> nat" where
  "M_FreeBinaryCell cell = (if cell \<noteq> None then 1 else 0)"

definition M_NumColumns :: "mstd \<Rightarrow> M_CONN_ptr \<Rightarrow> u64 \<Rightarrow> M_CONN \<Rightarrow> i32 \<times> M_CONN" where
  "M_NumColumns L ptr identifier s =
     (let (csv, s) = M_GetCSVHandle L ptr identifier s
      in (case csv of None \<Rightarrow> 0 | Some t \<Rightarrow> word_of_int (uint (M_csv_get_numcols L t)), s))"

definition M_NumRows :: "mstd \<Rightarrow> M_CONN_ptr \<Rightarrow> u64 \<Rightarrow> M_CONN \<Rightarrow> i64 \<times> M_CONN" where
  "M_NumRows L ptr identifier s =
     (let (csv, s) = M_GetCSVHandle L ptr identifier s
      in (case csv of None \<Rightarrow> 0 | Some t \<Rightarrow> M_csv_get_numrows L t, s))"

definition M_GetHeader :: "mstd \<Rightarrow> M_CONN_ptr \<Rightarrow> u64 \<Rightarrow> i32 \<Rightarrow> M_CONN \<Rightarrow> cstr \<times> M_CONN" where
  "M_GetHeader L ptr identifier column_num s =
     (if sint column_num < 0 then (None, s)
      else
        let (csv, s) = M_GetCSVHandle L ptr identifier s
        in (case csv of
              None \<Rightarrow> None
            | Some t \<Rightarrow> M_csv_get_header L t (word_of_int (sint column_num)), s))"

section \<open>What is left of the rest\<close>

definition M_uwait :: "u64 \<Rightarrow> M_CONN \<Rightarrow> i32 \<times> M_CONN" where
  "M_uwait len s = (1, s\<lparr>slept := len # slept s\<rparr>)"

definition M_SSLCert_gen_hash :: "cstr \<Rightarrow> cstr" where
  "M_SSLCert_gen_hash filename = None"

text \<open>Registering a mutex or thread function: nothing is done, always 1.\<close>

definition M_Register_mutexdestroy :: "M_CONN_ptr \<Rightarrow> nat \<Rightarrow> i32" where
  "M_Register_mutexdestroy ptr reg = 1"

definition M_Register_mutexinit :: "M_CONN_ptr \<Rightarrow> nat \<Rightarrow> i32" where
  "M_Register_mutexinit ptr reg = 1"

definition M_Register_mutexlock :: "M_CONN_ptr \<Rightarrow> nat \<Rightarrow> i32" where
  "M_Register_mutexlock ptr reg = 1"

definition M_Register_mutexunlock :: "M_CONN_ptr \<Rightarrow> nat \<Rightarrow> i32" where
  "M_Register_mutexunlock ptr reg = 1"

definition M_Register_threadid :: "M_CONN_ptr \<Rightarrow> nat \<Rightarrow> i32" where
  "M_Register_threadid ptr reg = 1"

definition M_EnableThreadSafety :: "M_CONN_ptr \<Rightarrow> i32" where
  "M_EnableThreadSafety ptr = 1"

text \<open>The loops compute.\<close>

declare wait_disconnected.simps [code] wait_done.simps [code]

end
