(* ===== verification/LM_Deprecated.thy ===== *)
theory LM_Deprecated
  imports LM_Legacy_Trans
begin

text \<open>
  The deprecated interface (\<open>src/monetra_deprecated.c\<close>, constants of
  \<open>include/libmonetra_deprecated.h\<close>): numeric return codes, and request parameters named by
  numbers, with values of several C types.
\<close>

section \<open>Constants\<close>

subsection \<open>Return codes\<close>

abbreviation M_AUTH :: i32 where "M_AUTH \<equiv> 2"
abbreviation M_DENY :: i32 where "M_DENY \<equiv> 3"
abbreviation M_CALL :: i32 where "M_CALL \<equiv> 4"
abbreviation M_DUPL :: i32 where "M_DUPL \<equiv> 5"
abbreviation M_PKUP :: i32 where "M_PKUP \<equiv> 6"
abbreviation M_RETRY :: i32 where "M_RETRY \<equiv> 7"
abbreviation M_SETUP :: i32 where "M_SETUP \<equiv> 8"
abbreviation M_TIMEOUT :: i32 where "M_TIMEOUT \<equiv> 9"
abbreviation M_GOOD :: i32 where "M_GOOD \<equiv> 1"
abbreviation M_BAD :: i32 where "M_BAD \<equiv> 0"
abbreviation M_STREET :: i32 where "M_STREET \<equiv> 2"
abbreviation M_ZIP :: i32 where "M_ZIP \<equiv> 3"
abbreviation M_UNKNOWN :: i32 where "M_UNKNOWN \<equiv> - 1"

subsection \<open>Parameters of a transaction\<close>

abbreviation MC_TRANTYPE :: i32 where "MC_TRANTYPE \<equiv> 1"
abbreviation MC_USERNAME :: i32 where "MC_USERNAME \<equiv> 2"
abbreviation MC_PASSWORD :: i32 where "MC_PASSWORD \<equiv> 3"
abbreviation MC_ACCOUNT :: i32 where "MC_ACCOUNT \<equiv> 4"
abbreviation MC_TRACKDATA :: i32 where "MC_TRACKDATA \<equiv> 5"
abbreviation MC_EXPDATE :: i32 where "MC_EXPDATE \<equiv> 6"
abbreviation MC_STREET :: i32 where "MC_STREET \<equiv> 7"
abbreviation MC_ZIP :: i32 where "MC_ZIP \<equiv> 8"
abbreviation MC_CV :: i32 where "MC_CV \<equiv> 9"
abbreviation MC_COMMENTS :: i32 where "MC_COMMENTS \<equiv> 10"
abbreviation MC_CLERKID :: i32 where "MC_CLERKID \<equiv> 11"
abbreviation MC_STATIONID :: i32 where "MC_STATIONID \<equiv> 12"
abbreviation MC_APPRCODE :: i32 where "MC_APPRCODE \<equiv> 13"
abbreviation MC_AMOUNT :: i32 where "MC_AMOUNT \<equiv> 14"
abbreviation MC_PTRANNUM :: i32 where "MC_PTRANNUM \<equiv> 15"
abbreviation MC_TTID :: i32 where "MC_TTID \<equiv> 16"
abbreviation MC_USER :: i32 where "MC_USER \<equiv> 17"
abbreviation MC_PWD :: i32 where "MC_PWD \<equiv> 18"
abbreviation MC_ACCT :: i32 where "MC_ACCT \<equiv> 19"
abbreviation MC_BDATE :: i32 where "MC_BDATE \<equiv> 20"
abbreviation MC_EDATE :: i32 where "MC_EDATE \<equiv> 21"
abbreviation MC_BATCH :: i32 where "MC_BATCH \<equiv> 22"
abbreviation MC_FILE :: i32 where "MC_FILE \<equiv> 23"
abbreviation MC_ADMIN :: i32 where "MC_ADMIN \<equiv> 24"
abbreviation MC_AUDITTYPE :: i32 where "MC_AUDITTYPE \<equiv> 25"
abbreviation MC_CUSTOM :: i32 where "MC_CUSTOM \<equiv> 26"
abbreviation MC_EXAMOUNT :: i32 where "MC_EXAMOUNT \<equiv> 27"
abbreviation MC_EXCHARGES :: i32 where "MC_EXCHARGES \<equiv> 28"
abbreviation MC_RATE :: i32 where "MC_RATE \<equiv> 29"
abbreviation MC_RENTERNAME :: i32 where "MC_RENTERNAME \<equiv> 30"
abbreviation MC_RETURNCITY :: i32 where "MC_RETURNCITY \<equiv> 31"
abbreviation MC_RETURNSTATE :: i32 where "MC_RETURNSTATE \<equiv> 32"
abbreviation MC_RETURNLOCATION :: i32 where "MC_RETURNLOCATION \<equiv> 33"
abbreviation MC_PRIORITY :: i32 where "MC_PRIORITY \<equiv> 34"
abbreviation MC_INQUIRY :: i32 where "MC_INQUIRY \<equiv> 35"
abbreviation MC_CARDTYPES :: i32 where "MC_CARDTYPES \<equiv> 36"
abbreviation MC_SUB :: i32 where "MC_SUB \<equiv> 37"
abbreviation MC_MARKER :: i32 where "MC_MARKER \<equiv> 38"
abbreviation MC_DEVICETYPE :: i32 where "MC_DEVICETYPE \<equiv> 39"
abbreviation MC_ERRORCODE :: i32 where "MC_ERRORCODE \<equiv> 40"
abbreviation MC_NEWBATCH :: i32 where "MC_NEWBATCH \<equiv> 41"
abbreviation MC_CURR :: i32 where "MC_CURR \<equiv> 42"
abbreviation MC_DESCMERCH :: i32 where "MC_DESCMERCH \<equiv> 43"
abbreviation MC_DESCLOC :: i32 where "MC_DESCLOC \<equiv> 44"
abbreviation MC_ORIGTYPE :: i32 where "MC_ORIGTYPE \<equiv> 45"
abbreviation MC_PIN :: i32 where "MC_PIN \<equiv> 46"
abbreviation MC_VOIDORIGTYPE :: i32 where "MC_VOIDORIGTYPE \<equiv> 47"
abbreviation MC_TIMESTAMP :: i32 where "MC_TIMESTAMP \<equiv> 48"

subsection \<open>Priorities, extra charges\<close>

abbreviation MC_PRIO_HIGH :: i32 where "MC_PRIO_HIGH \<equiv> 1"
abbreviation MC_PRIO_NORMAL :: i32 where "MC_PRIO_NORMAL \<equiv> 2"
abbreviation MC_PRIO_LOW :: i32 where "MC_PRIO_LOW \<equiv> 3"
abbreviation MC_EXCHARGES_REST :: i32 where "MC_EXCHARGES_REST \<equiv> 1"
abbreviation MC_EXCHARGES_GIFT :: i32 where "MC_EXCHARGES_GIFT \<equiv> 2"
abbreviation MC_EXCHARGES_MINI :: i32 where "MC_EXCHARGES_MINI \<equiv> 3"
abbreviation MC_EXCHARGES_TELE :: i32 where "MC_EXCHARGES_TELE \<equiv> 4"
abbreviation MC_EXCHARGES_OTHER :: i32 where "MC_EXCHARGES_OTHER \<equiv> 5"
abbreviation MC_EXCHARGES_LAUND :: i32 where "MC_EXCHARGES_LAUND \<equiv> 6"
abbreviation MC_EXCHARGES_NONE :: i32 where "MC_EXCHARGES_NONE \<equiv> 7"
abbreviation MC_EXCHARGES_GAS :: i32 where "MC_EXCHARGES_GAS \<equiv> 8"
abbreviation MC_EXCHARGES_MILE :: i32 where "MC_EXCHARGES_MILE \<equiv> 9"
abbreviation MC_EXCHARGES_LATE :: i32 where "MC_EXCHARGES_LATE \<equiv> 10"
abbreviation MC_EXCHARGES_1WAY :: i32 where "MC_EXCHARGES_1WAY \<equiv> 11"
abbreviation MC_EXCHARGES_VIOL :: i32 where "MC_EXCHARGES_VIOL \<equiv> 12"

subsection \<open>Arguments of a user\<close>

abbreviation MC_USER_PROC :: i32 where "MC_USER_PROC \<equiv> 2000"
abbreviation MC_USER_USER :: i32 where "MC_USER_USER \<equiv> 2001"
abbreviation MC_USER_PWD :: i32 where "MC_USER_PWD \<equiv> 2002"
abbreviation MC_USER_INDCODE :: i32 where "MC_USER_INDCODE \<equiv> 2003"
abbreviation MC_USER_MERCHID :: i32 where "MC_USER_MERCHID \<equiv> 2004"
abbreviation MC_USER_BANKID :: i32 where "MC_USER_BANKID \<equiv> 2005"
abbreviation MC_USER_TERMID :: i32 where "MC_USER_TERMID \<equiv> 2006"
abbreviation MC_USER_CLIENTNUM :: i32 where "MC_USER_CLIENTNUM \<equiv> 2007"
abbreviation MC_USER_STOREID :: i32 where "MC_USER_STOREID \<equiv> 2008"
abbreviation MC_USER_AGENTID :: i32 where "MC_USER_AGENTID \<equiv> 2009"
abbreviation MC_USER_CHAINID :: i32 where "MC_USER_CHAINID \<equiv> 2010"
abbreviation MC_USER_ZIPCODE :: i32 where "MC_USER_ZIPCODE \<equiv> 2011"
abbreviation MC_USER_TIMEZONE :: i32 where "MC_USER_TIMEZONE \<equiv> 2012"
abbreviation MC_USER_MERCHCAT :: i32 where "MC_USER_MERCHCAT \<equiv> 2013"
abbreviation MC_USER_MERNAME :: i32 where "MC_USER_MERNAME \<equiv> 2014"
abbreviation MC_USER_MERCHLOC :: i32 where "MC_USER_MERCHLOC \<equiv> 2015"
abbreviation MC_USER_STATECODE :: i32 where "MC_USER_STATECODE \<equiv> 2016"
abbreviation MC_USER_PHONE :: i32 where "MC_USER_PHONE \<equiv> 2017"
abbreviation MC_USER_SUB :: i32 where "MC_USER_SUB \<equiv> 2018"
abbreviation MC_USER_CARDTYPES :: i32 where "MC_USER_CARDTYPES \<equiv> 2019"
abbreviation MC_USER_MODE :: i32 where "MC_USER_MODE \<equiv> 2020"
abbreviation MC_USER_VNUMBER :: i32 where "MC_USER_VNUMBER \<equiv> 2021"
abbreviation MC_USER_ROUTINGID :: i32 where "MC_USER_ROUTINGID \<equiv> 2022"
abbreviation MC_USER_PPROPERTY :: i32 where "MC_USER_PPROPERTY \<equiv> 2023"
abbreviation MC_USER_PID :: i32 where "MC_USER_PID \<equiv> 2024"
abbreviation MC_USER_PIDPWD :: i32 where "MC_USER_PIDPWD \<equiv> 2025"
abbreviation MC_USER_SMID :: i32 where "MC_USER_SMID \<equiv> 2026"
abbreviation MC_USER_SMIDPWD :: i32 where "MC_USER_SMIDPWD \<equiv> 2027"
abbreviation MC_USER_USDDIV :: i32 where "MC_USER_USDDIV \<equiv> 2028"
abbreviation MC_USER_AUDDIV :: i32 where "MC_USER_AUDDIV \<equiv> 2029"
abbreviation MC_USER_DKKDIV :: i32 where "MC_USER_DKKDIV \<equiv> 2030"
abbreviation MC_USER_GBPDIV :: i32 where "MC_USER_GBPDIV \<equiv> 2031"
abbreviation MC_USER_HKDDIV :: i32 where "MC_USER_HKDDIV \<equiv> 2032"
abbreviation MC_USER_JPYDIV :: i32 where "MC_USER_JPYDIV \<equiv> 2033"
abbreviation MC_USER_NZDDIV :: i32 where "MC_USER_NZDDIV \<equiv> 2034"
abbreviation MC_USER_NOKDIV :: i32 where "MC_USER_NOKDIV \<equiv> 2035"
abbreviation MC_USER_SGDDIV :: i32 where "MC_USER_SGDDIV \<equiv> 2036"
abbreviation MC_USER_ZARDIV :: i32 where "MC_USER_ZARDIV \<equiv> 2037"
abbreviation MC_USER_SEKDIV :: i32 where "MC_USER_SEKDIV \<equiv> 2038"
abbreviation MC_USER_CHFDIV :: i32 where "MC_USER_CHFDIV \<equiv> 2039"
abbreviation MC_USER_CADDIV :: i32 where "MC_USER_CADDIV \<equiv> 2040"
abbreviation MC_USER_DIVNUM :: i32 where "MC_USER_DIVNUM \<equiv> 2041"

subsection \<open>Card types and modes\<close>

abbreviation MC_CARD_VISA :: i32 where "MC_CARD_VISA \<equiv> 2"
abbreviation MC_CARD_MC :: i32 where "MC_CARD_MC \<equiv> 4"
abbreviation MC_CARD_AMEX :: i32 where "MC_CARD_AMEX \<equiv> 8"
abbreviation MC_CARD_DISC :: i32 where "MC_CARD_DISC \<equiv> 16"
abbreviation MC_CARD_JCB :: i32 where "MC_CARD_JCB \<equiv> 32"
abbreviation MC_CARD_CB :: i32 where "MC_CARD_CB \<equiv> 64"
abbreviation MC_CARD_DC :: i32 where "MC_CARD_DC \<equiv> 128"
abbreviation MC_CARD_GIFT :: i32 where "MC_CARD_GIFT \<equiv> 256"
abbreviation MC_CARD_OTHER :: i32 where "MC_CARD_OTHER \<equiv> 512"
abbreviation MC_MODE_AUTH :: i32 where "MC_MODE_AUTH \<equiv> 2"
abbreviation MC_MODE_SETTLE :: i32 where "MC_MODE_SETTLE \<equiv> 4"

definition MC_CARD_ALL :: i32 where
  "MC_CARD_ALL = MC_CARD_VISA OR MC_CARD_MC OR MC_CARD_AMEX OR MC_CARD_DISC OR MC_CARD_JCB OR
     MC_CARD_CB OR MC_CARD_DC OR MC_CARD_GIFT OR MC_CARD_OTHER"

definition MC_MODE_BOTH :: i32 where
  "MC_MODE_BOTH = MC_MODE_AUTH OR MC_MODE_SETTLE"

subsection \<open>Transaction types\<close>

abbreviation MC_TRAN_SALE :: i32 where "MC_TRAN_SALE \<equiv> 1"
abbreviation MC_TRAN_PREAUTH :: i32 where "MC_TRAN_PREAUTH \<equiv> 2"
abbreviation MC_TRAN_VOID :: i32 where "MC_TRAN_VOID \<equiv> 3"
abbreviation MC_TRAN_PREAUTHCOMPLETE :: i32 where "MC_TRAN_PREAUTHCOMPLETE \<equiv> 4"
abbreviation MC_TRAN_FORCE :: i32 where "MC_TRAN_FORCE \<equiv> 5"
abbreviation MC_TRAN_OVERRIDE :: i32 where "MC_TRAN_OVERRIDE \<equiv> 6"
abbreviation MC_TRAN_RETURN :: i32 where "MC_TRAN_RETURN \<equiv> 7"
abbreviation MC_TRAN_SETTLE :: i32 where "MC_TRAN_SETTLE \<equiv> 8"
abbreviation MC_TRAN_INCREMENTAL :: i32 where "MC_TRAN_INCREMENTAL \<equiv> 9"
abbreviation MC_TRAN_REVERSAL :: i32 where "MC_TRAN_REVERSAL \<equiv> 10"
abbreviation MC_TRAN_ACTIVATE :: i32 where "MC_TRAN_ACTIVATE \<equiv> 11"
abbreviation MC_TRAN_BALANCEINQ :: i32 where "MC_TRAN_BALANCEINQ \<equiv> 12"
abbreviation MC_TRAN_CASHOUT :: i32 where "MC_TRAN_CASHOUT \<equiv> 13"
abbreviation MC_TRAN_TOREVERSAL :: i32 where "MC_TRAN_TOREVERSAL \<equiv> 14"
abbreviation MC_TRAN_SETTLERFR :: i32 where "MC_TRAN_SETTLERFR \<equiv> 15"
abbreviation MC_TRAN_ISSUE :: i32 where "MC_TRAN_ISSUE \<equiv> 16"
abbreviation MC_TRAN_TIP :: i32 where "MC_TRAN_TIP \<equiv> 17"
abbreviation MC_TRAN_MERCHRETURN :: i32 where "MC_TRAN_MERCHRETURN \<equiv> 18"
abbreviation MC_TRAN_IVRREQ :: i32 where "MC_TRAN_IVRREQ \<equiv> 19"
abbreviation MC_TRAN_IVRRESP :: i32 where "MC_TRAN_IVRRESP \<equiv> 20"
abbreviation MC_TRAN_ADMIN :: i32 where "MC_TRAN_ADMIN \<equiv> 50"
abbreviation MC_TRAN_CHKPWD :: i32 where "MC_TRAN_CHKPWD \<equiv> 200"
abbreviation MC_TRAN_CHNGPWD :: i32 where "MC_TRAN_CHNGPWD \<equiv> 1001"
abbreviation MC_TRAN_LISTSTATS :: i32 where "MC_TRAN_LISTSTATS \<equiv> 1002"
abbreviation MC_TRAN_LISTUSERS :: i32 where "MC_TRAN_LISTUSERS \<equiv> 1003"
abbreviation MC_TRAN_GETUSERINFO :: i32 where "MC_TRAN_GETUSERINFO \<equiv> 1004"
abbreviation MC_TRAN_ADDUSER :: i32 where "MC_TRAN_ADDUSER \<equiv> 1005"
abbreviation MC_TRAN_EDITUSER :: i32 where "MC_TRAN_EDITUSER \<equiv> 1006"
abbreviation MC_TRAN_DELUSER :: i32 where "MC_TRAN_DELUSER \<equiv> 1007"
abbreviation MC_TRAN_ENABLEUSER :: i32 where "MC_TRAN_ENABLEUSER \<equiv> 1008"
abbreviation MC_TRAN_DISABLEUSER :: i32 where "MC_TRAN_DISABLEUSER \<equiv> 1009"
abbreviation MC_TRAN_IMPORT :: i32 where "MC_TRAN_IMPORT \<equiv> 1010"
abbreviation MC_TRAN_EXPORT :: i32 where "MC_TRAN_EXPORT \<equiv> 1011"
abbreviation MC_TRAN_ERRORLOG :: i32 where "MC_TRAN_ERRORLOG \<equiv> 1012"
abbreviation MC_TRAN_CLEARERRORLOG :: i32 where "MC_TRAN_CLEARERRORLOG \<equiv> 1013"
abbreviation MC_TRAN_GETSUBACCTS :: i32 where "MC_TRAN_GETSUBACCTS \<equiv> 1014"

subsection \<open>Administration types\<close>

abbreviation MC_ADMIN_GUT :: i32 where "MC_ADMIN_GUT \<equiv> 1"
abbreviation MC_ADMIN_GL :: i32 where "MC_ADMIN_GL \<equiv> 2"
abbreviation MC_ADMIN_GFT :: i32 where "MC_ADMIN_GFT \<equiv> 3"
abbreviation MC_ADMIN_BT :: i32 where "MC_ADMIN_BT \<equiv> 4"
abbreviation MC_ADMIN_QC :: i32 where "MC_ADMIN_QC \<equiv> 5"
abbreviation MC_ADMIN_RS :: i32 where "MC_ADMIN_RS \<equiv> 6"
abbreviation MC_ADMIN_CTH :: i32 where "MC_ADMIN_CTH \<equiv> 7"
abbreviation MC_ADMIN_CFH :: i32 where "MC_ADMIN_CFH \<equiv> 8"
abbreviation MC_ADMIN_FORCESETTLE :: i32 where "MC_ADMIN_FORCESETTLE \<equiv> 9"
abbreviation MC_ADMIN_SETBATCHNUM :: i32 where "MC_ADMIN_SETBATCHNUM \<equiv> 10"
abbreviation MC_ADMIN_RENUMBERBATCH :: i32 where "MC_ADMIN_RENUMBERBATCH \<equiv> 11"
abbreviation MC_ADMIN_FIELDEDIT :: i32 where "MC_ADMIN_FIELDEDIT \<equiv> 12"
abbreviation MC_ADMIN_CLOSEBATCH :: i32 where "MC_ADMIN_CLOSEBATCH \<equiv> 13"

section \<open>What a response says, as a number\<close>

text \<open>The comparisons of \<open>M_ReturnCode\<close> after the NULL check.\<close>

definition return_code :: "mstd \<Rightarrow> cstr \<Rightarrow> i32" where
  "return_code L v =
     (if M_str_eq L v (Some ''AUTH'') then M_AUTH
      else if M_str_eq L v (Some ''DENY'') then M_DENY
      else if M_str_eq L v (Some ''DUPL'') then M_DUPL
      else if M_str_eq L v (Some ''CALL'') then M_CALL
      else if M_str_eq L v (Some ''PKUP'') then M_PKUP
      else if M_str_eq L v (Some ''RETRY'') then M_RETRY
      else if M_str_eq L v (Some ''SETUP'') then M_SETUP
      else if M_str_eq L v (Some ''SUCCESS'') then M_SUCCESS
      else if M_str_eq L v (Some ''FAIL'') then M_FAIL
      else if M_str_eq L v (Some ''TIMEOUT'') then M_TIMEOUT
      else M_DENY)"

definition M_ReturnCode :: "mstd \<Rightarrow> M_CONN_ptr \<Rightarrow> u64 \<Rightarrow> M_CONN \<Rightarrow> i32 \<times> M_CONN" where
  "M_ReturnCode L ptr identifier s =
     (let (comma, s) = M_IsCommaDelimited L ptr identifier s in
      if comma \<noteq> 0 then (M_SUCCESS, s)
      else
        let (v, s) = M_ResponseParam L ptr identifier (Some ''code'') s
        in (if v = None then M_ERROR else return_code L v, s))"

definition M_TransactionItem :: "mstd \<Rightarrow> M_CONN_ptr \<Rightarrow> u64 \<Rightarrow> M_CONN \<Rightarrow> i64 \<times> M_CONN" where
  "M_TransactionItem L ptr identifier s =
     (let (v, s) = M_ResponseParam L ptr identifier (Some ''item'') s
      in (case v of None \<Rightarrow> - 1 | Some t \<Rightarrow> word_of_int (M_str_to_int32 L t), s))"

definition M_TransactionBatch :: "mstd \<Rightarrow> M_CONN_ptr \<Rightarrow> u64 \<Rightarrow> M_CONN \<Rightarrow> i64 \<times> M_CONN" where
  "M_TransactionBatch L ptr identifier s =
     (let (v, s) = M_ResponseParam L ptr identifier (Some ''batch'') s
      in (case v of None \<Rightarrow> - 1 | Some t \<Rightarrow> word_of_int (M_str_to_int32 L t), s))"

definition M_TransactionID :: "mstd \<Rightarrow> M_CONN_ptr \<Rightarrow> u64 \<Rightarrow> M_CONN \<Rightarrow> i64 \<times> M_CONN" where
  "M_TransactionID L ptr identifier s =
     (let (v, s) = M_ResponseParam L ptr identifier (Some ''ttid'') s
      in (case v of None \<Rightarrow> - 1 | Some t \<Rightarrow> word_of_int (M_str_to_int64 L t), s))"

definition M_TransactionAuth :: "mstd \<Rightarrow> M_CONN_ptr \<Rightarrow> u64 \<Rightarrow> M_CONN \<Rightarrow> cstr \<times> M_CONN" where
  "M_TransactionAuth L ptr identifier s = M_ResponseParam L ptr identifier (Some ''auth'') s"

definition M_TransactionText :: "mstd \<Rightarrow> M_CONN_ptr \<Rightarrow> u64 \<Rightarrow> M_CONN \<Rightarrow> cstr \<times> M_CONN" where
  "M_TransactionText L ptr identifier s = M_ResponseParam L ptr identifier (Some ''verbiage'') s"

definition M_TransactionAVS :: "mstd \<Rightarrow> M_CONN_ptr \<Rightarrow> u64 \<Rightarrow> M_CONN \<Rightarrow> i32 \<times> M_CONN" where
  "M_TransactionAVS L ptr identifier s =
     (let (v, s) = M_ResponseParam L ptr identifier (Some ''avs'') s
      in (if v = None then - 1
          else if M_str_eq L v (Some ''GOOD'') then M_GOOD
          else if M_str_eq L v (Some ''BAD'') then M_BAD
          else if M_str_eq L v (Some ''STREET'') then M_STREET
          else if M_str_eq L v (Some ''ZIP'') then M_ZIP
          else M_UNKNOWN, s))"

definition M_TransactionCV :: "mstd \<Rightarrow> M_CONN_ptr \<Rightarrow> u64 \<Rightarrow> M_CONN \<Rightarrow> i32 \<times> M_CONN" where
  "M_TransactionCV L ptr identifier s =
     (let (v, s) = M_ResponseParam L ptr identifier (Some ''cv'') s
      in (if v = None then - 1
          else if M_str_eq L v (Some ''GOOD'') then M_GOOD
          else if M_str_eq L v (Some ''BAD'') then M_BAD
          else M_UNKNOWN, s))"

section \<open>Texts of the codes\<close>

text \<open>A switch is the list of its cases and the default.\<close>

definition switch :: "(i32 \<times> 'a) list \<Rightarrow> 'a \<Rightarrow> i32 \<Rightarrow> 'a" where
  "switch cases d k = (case map_of cases k of None \<Rightarrow> d | Some x \<Rightarrow> x)"

definition M_TEXT_Code :: "i32 \<Rightarrow> string" where
  "M_TEXT_Code code = switch
     [(M_AUTH, ''AUTH''),
      (M_DENY, ''DENY''),
      (M_DUPL, ''DUPLICATE TRANS''),
      (M_CALL, ''CALL PROCESSOR''),
      (M_PKUP, ''PICKUP CARD''),
      (M_RETRY, ''RETRY''),
      (M_SETUP, ''SETUP''),
      (M_TIMEOUT, ''TIMEOUT''),
      (M_SUCCESS, ''SUCCESS''),
      (M_FAIL, ''FAIL''),
      (M_ERROR, ''ERROR'')]
     ''UNKNOWN'' code"

definition M_TEXT_AVS :: "i32 \<Rightarrow> string" where
  "M_TEXT_AVS code = switch
     [(M_STREET, ''STREET FAILED''),
      (M_ZIP, ''ZIP FAILED''),
      (M_GOOD, ''GOOD''),
      (M_BAD, ''BAD''),
      (M_UNKNOWN, ''UNKNOWN'')]
     ''UNKNOWN'' code"

definition M_TEXT_CV :: "i32 \<Rightarrow> string" where
  "M_TEXT_CV code = M_TEXT_AVS code"

section \<open>Values of request parameters\<close>

definition M_tp_transform_action :: "i32 \<Rightarrow> cstr" where
  "M_tp_transform_action k = switch
     [(MC_TRAN_SALE, Some ''SALE''),
      (MC_TRAN_PREAUTH, Some ''PREAUTH''),
      (MC_TRAN_VOID, Some ''VOID''),
      (MC_TRAN_PREAUTHCOMPLETE, Some ''FORCE''),
      (MC_TRAN_FORCE, Some ''FORCE''),
      (MC_TRAN_OVERRIDE, Some ''OVERRIDE''),
      (MC_TRAN_RETURN, Some ''RETURN''),
      (MC_TRAN_SETTLE, Some ''SETTLE''),
      (MC_TRAN_ADMIN, Some ''ADMIN''),
      (MC_TRAN_CHKPWD, Some ''CHKPWD''),
      (MC_TRAN_INCREMENTAL, Some ''INCREMENTAL''),
      (MC_TRAN_REVERSAL, Some ''REVERSAL''),
      (MC_TRAN_ACTIVATE, Some ''ACTIVATE''),
      (MC_TRAN_BALANCEINQ, Some ''BALANCEINQ''),
      (MC_TRAN_CASHOUT, Some ''CASHOUT''),
      (MC_TRAN_TOREVERSAL, Some ''TOREVERSAL''),
      (MC_TRAN_SETTLERFR, Some ''SETTLERFR''),
      (MC_TRAN_ISSUE, Some ''ISSUE''),
      (MC_TRAN_TIP, Some ''TIP''),
      (MC_TRAN_MERCHRETURN, Some ''MERCHRETURN''),
      (MC_TRAN_IVRREQ, Some ''IVRREQ''),
      (MC_TRAN_IVRRESP, Some ''IVRRESP''),
      (MC_TRAN_CHNGPWD, Some ''CHNGPWD''),
      (MC_TRAN_LISTSTATS, Some ''LISTSTATS''),
      (MC_TRAN_LISTUSERS, Some ''LISTUSERS''),
      (MC_TRAN_GETUSERINFO, Some ''GETUSERINFO''),
      (MC_TRAN_ADDUSER, Some ''ADDUSER''),
      (MC_TRAN_EDITUSER, Some ''EDITUSER''),
      (MC_TRAN_DELUSER, Some ''DELUSER''),
      (MC_TRAN_ENABLEUSER, Some ''ENABLEUSER''),
      (MC_TRAN_DISABLEUSER, Some ''DISABLEUSER''),
      (MC_TRAN_IMPORT, Some ''IMPORT''),
      (MC_TRAN_EXPORT, Some ''EXPORT''),
      (MC_TRAN_ERRORLOG, Some ''ERRORLOG''),
      (MC_TRAN_CLEARERRORLOG, Some ''CLEARERRORLOG''),
      (MC_TRAN_GETSUBACCTS, Some ''GETSUBACCTS'')]
     None k"

definition M_tp_transform_admin :: "i32 \<Rightarrow> cstr" where
  "M_tp_transform_admin k = switch
     [(MC_ADMIN_GUT, Some ''GUT''),
      (MC_ADMIN_GL, Some ''GL''),
      (MC_ADMIN_GFT, Some ''GFT''),
      (MC_ADMIN_QC, Some ''QC''),
      (MC_ADMIN_RS, Some ''RS''),
      (MC_ADMIN_BT, Some ''BT''),
      (MC_ADMIN_CTH, Some ''CTH''),
      (MC_ADMIN_CFH, Some ''CFH''),
      (MC_ADMIN_FORCESETTLE, Some ''FORCESETTLE''),
      (MC_ADMIN_SETBATCHNUM, Some ''SETBATCHNUM''),
      (MC_ADMIN_RENUMBERBATCH, Some ''RENUMBERBATCH''),
      (MC_ADMIN_FIELDEDIT, Some ''FIELDEDIT''),
      (MC_ADMIN_CLOSEBATCH, Some ''CLOSEBATCH'')]
     None k"

definition M_tp_transform_excharges :: "i32 \<Rightarrow> cstr" where
  "M_tp_transform_excharges k = switch
     [(MC_EXCHARGES_REST, Some ''REST''),
      (MC_EXCHARGES_GIFT, Some ''GIFT''),
      (MC_EXCHARGES_MINI, Some ''MINI''),
      (MC_EXCHARGES_TELE, Some ''TELE''),
      (MC_EXCHARGES_OTHER, Some ''OTHER''),
      (MC_EXCHARGES_LAUND, Some ''LAUND''),
      (MC_EXCHARGES_NONE, Some ''NONE''),
      (MC_EXCHARGES_GAS, Some ''GAS''),
      (MC_EXCHARGES_MILE, Some ''MILE''),
      (MC_EXCHARGES_LATE, Some ''LATE''),
      (MC_EXCHARGES_1WAY, Some ''1WAY''),
      (MC_EXCHARGES_VIOL, Some ''VIOL'')]
     None k"

definition M_tp_transform_priority :: "i32 \<Rightarrow> cstr" where
  "M_tp_transform_priority k = switch
     [(MC_PRIO_HIGH, Some ''HIGH''),
      (MC_PRIO_NORMAL, Some ''NORMAL''),
      (MC_PRIO_LOW, Some ''LOW'')]
     None k"

text \<open>One \<open>if (v & flag) M_buf_add_str(buf, text)\<close>.\<close>

definition add_flag :: "mstd \<Rightarrow> i32 \<Rightarrow> i32 \<times> string \<Rightarrow> string \<Rightarrow> string" where
  "add_flag L v ft buf = (if v AND fst ft \<noteq> 0 then M_buf_add_str L buf (snd ft) else buf)"

definition M_tp_transform_cardtypes :: "mstd \<Rightarrow> mstd_legacy \<Rightarrow> i32 \<Rightarrow> cstr" where
  "M_tp_transform_cardtypes L X v =
     M_buf_finish_str X (if v = MC_CARD_ALL then M_buf_add_str L [] ''ALL''
           else fold (add_flag L v)
             [(MC_CARD_VISA, ''+VISA''),
              (MC_CARD_MC, ''+MC''),
              (MC_CARD_AMEX, ''+AMEX''),
              (MC_CARD_DISC, ''+DISC''),
              (MC_CARD_DC, ''+DC''),
              (MC_CARD_JCB, ''+JCB''),
              (MC_CARD_CB, ''+CB''),
              (MC_CARD_GIFT, ''+GIFT''),
              (MC_CARD_OTHER, ''+OTHER'')] [])"

definition M_tp_transform_mode :: "mstd \<Rightarrow> mstd_legacy \<Rightarrow> i32 \<Rightarrow> cstr" where
  "M_tp_transform_mode L X v =
     M_buf_finish_str X (if v = MC_MODE_BOTH then M_buf_add_str L [] ''BOTH''
           else fold (add_flag L v)
             [(MC_MODE_AUTH, ''+AUTH''),
              (MC_MODE_SETTLE, ''+SETTLE'')] [])"

datatype M_tp_type_t =
    M_TP_TYPE_STRING
  | M_TP_TYPE_INT
  | M_TP_TYPE_LONG
  | M_TP_TYPE_DOUBLE
  | M_TP_TYPE_INT64
  | M_TP_TYPE_CUSTOM

record M_tp_entry =
  tp_key :: i32
  strkey :: string
  valtype :: M_tp_type_t
  int_transform :: "(i32 \<Rightarrow> cstr) option"

definition tp :: "i32 \<Rightarrow> string \<Rightarrow> M_tp_type_t \<Rightarrow> (i32 \<Rightarrow> cstr) option \<Rightarrow> M_tp_entry" where
  "tp k t ty f = \<lparr>tp_key = k, strkey = t, valtype = ty, int_transform = f\<rparr>"

text \<open>The table, without the entry that ends it.\<close>

definition M_tp_list :: "mstd \<Rightarrow> mstd_legacy \<Rightarrow> M_tp_entry list" where
  "M_tp_list L X =
     [tp MC_TRANTYPE ''action'' M_TP_TYPE_INT (Some M_tp_transform_action),
      tp MC_ADMIN ''admin'' M_TP_TYPE_INT (Some M_tp_transform_admin),
      tp MC_USERNAME ''username'' M_TP_TYPE_STRING None,
      tp MC_PASSWORD ''password'' M_TP_TYPE_STRING None,
      tp MC_ACCOUNT ''account'' M_TP_TYPE_STRING None,
      tp MC_TRACKDATA ''trackdata'' M_TP_TYPE_STRING None,
      tp MC_EXPDATE ''expdate'' M_TP_TYPE_STRING None,
      tp MC_STREET ''street'' M_TP_TYPE_STRING None,
      tp MC_ZIP ''zip'' M_TP_TYPE_STRING None,
      tp MC_CV ''cv'' M_TP_TYPE_STRING None,
      tp MC_COMMENTS ''comments'' M_TP_TYPE_STRING None,
      tp MC_CLERKID ''clerkid'' M_TP_TYPE_STRING None,
      tp MC_STATIONID ''stationid'' M_TP_TYPE_STRING None,
      tp MC_APPRCODE ''apprcode'' M_TP_TYPE_STRING None,
      tp MC_AMOUNT ''amount'' M_TP_TYPE_DOUBLE None,
      tp MC_PTRANNUM ''ptrannum'' M_TP_TYPE_LONG None,
      tp MC_TIMESTAMP ''timestamp'' M_TP_TYPE_LONG None,
      tp MC_TTID ''ttid'' M_TP_TYPE_INT64 None,
      tp MC_ACCT ''acct'' M_TP_TYPE_STRING None,
      tp MC_BDATE ''bdate'' M_TP_TYPE_STRING None,
      tp MC_EDATE ''edate'' M_TP_TYPE_STRING None,
      tp MC_BATCH ''batch'' M_TP_TYPE_STRING None,
      tp MC_FILE ''file'' M_TP_TYPE_STRING None,
      tp MC_AUDITTYPE ''type'' M_TP_TYPE_INT (Some M_tp_transform_action),
      tp MC_CUSTOM '''' M_TP_TYPE_CUSTOM None,
      tp MC_EXAMOUNT ''examount'' M_TP_TYPE_DOUBLE None,
      tp MC_EXCHARGES ''excharges'' M_TP_TYPE_INT (Some M_tp_transform_excharges),
      tp MC_RATE ''rate'' M_TP_TYPE_DOUBLE None,
      tp MC_RENTERNAME ''rentername'' M_TP_TYPE_STRING None,
      tp MC_RETURNCITY ''returncity'' M_TP_TYPE_STRING None,
      tp MC_RETURNSTATE ''returnstate'' M_TP_TYPE_STRING None,
      tp MC_RETURNLOCATION ''returnlocation'' M_TP_TYPE_STRING None,
      tp MC_INQUIRY ''inquiry'' M_TP_TYPE_INT None,
      tp MC_PRIORITY ''priority'' M_TP_TYPE_INT (Some M_tp_transform_priority),
      tp MC_CARDTYPES ''cardtypes'' M_TP_TYPE_INT (Some (M_tp_transform_cardtypes L X)),
      tp MC_SUB ''sub'' M_TP_TYPE_INT None,
      tp MC_MARKER ''marker'' M_TP_TYPE_LONG None,
      tp MC_DEVICETYPE ''devicetype'' M_TP_TYPE_STRING None,
      tp MC_ERRORCODE ''errorcode'' M_TP_TYPE_STRING None,
      tp MC_NEWBATCH ''newbatch'' M_TP_TYPE_STRING None,
      tp MC_CURR ''curr'' M_TP_TYPE_STRING None,
      tp MC_DESCMERCH ''descmerch'' M_TP_TYPE_STRING None,
      tp MC_DESCLOC ''descloc'' M_TP_TYPE_STRING None,
      tp MC_ORIGTYPE ''origtype'' M_TP_TYPE_INT (Some M_tp_transform_action),
      tp MC_VOIDORIGTYPE ''voidorigtype'' M_TP_TYPE_INT (Some M_tp_transform_action),
      tp MC_PIN ''pin'' M_TP_TYPE_STRING None,
      tp MC_USER_PROC ''proc'' M_TP_TYPE_STRING None,
      tp MC_USER_USER ''user'' M_TP_TYPE_STRING None,
      tp MC_USER_PWD ''pwd'' M_TP_TYPE_STRING None,
      tp MC_USER_INDCODE ''indcode'' M_TP_TYPE_STRING None,
      tp MC_USER_MERCHID ''merchid'' M_TP_TYPE_STRING None,
      tp MC_USER_BANKID ''bankid'' M_TP_TYPE_STRING None,
      tp MC_USER_TERMID ''termid'' M_TP_TYPE_STRING None,
      tp MC_USER_CLIENTNUM ''clientnum'' M_TP_TYPE_STRING None,
      tp MC_USER_STOREID ''storeid'' M_TP_TYPE_STRING None,
      tp MC_USER_AGENTID ''agentid'' M_TP_TYPE_STRING None,
      tp MC_USER_CHAINID ''chainid'' M_TP_TYPE_STRING None,
      tp MC_USER_ZIPCODE ''zipcode'' M_TP_TYPE_STRING None,
      tp MC_USER_TIMEZONE ''timezone'' M_TP_TYPE_STRING None,
      tp MC_USER_MERCHCAT ''merchcat'' M_TP_TYPE_STRING None,
      tp MC_USER_MERNAME ''mername'' M_TP_TYPE_STRING None,
      tp MC_USER_MERCHLOC ''merchloc'' M_TP_TYPE_STRING None,
      tp MC_USER_STATECODE ''statecode'' M_TP_TYPE_STRING None,
      tp MC_USER_PHONE ''phone'' M_TP_TYPE_STRING None,
      tp MC_USER_SUB ''sub'' M_TP_TYPE_INT None,
      tp MC_USER_CARDTYPES ''cardtypes'' M_TP_TYPE_INT (Some (M_tp_transform_cardtypes L X)),
      tp MC_USER_MODE ''mode'' M_TP_TYPE_STRING (Some (M_tp_transform_mode L X)),
      tp MC_USER_VNUMBER ''vnumber'' M_TP_TYPE_STRING None,
      tp MC_USER_ROUTINGID ''routingid'' M_TP_TYPE_STRING None,
      tp MC_USER_PPROPERTY ''pproperty'' M_TP_TYPE_STRING None,
      tp MC_USER_PID ''pid'' M_TP_TYPE_STRING None,
      tp MC_USER_PIDPWD ''pidpwd'' M_TP_TYPE_STRING None,
      tp MC_USER_SMID ''smid'' M_TP_TYPE_STRING None,
      tp MC_USER_SMIDPWD ''smidpwd'' M_TP_TYPE_STRING None,
      tp MC_USER_USDDIV ''usddiv'' M_TP_TYPE_STRING None,
      tp MC_USER_AUDDIV ''auddiv'' M_TP_TYPE_STRING None,
      tp MC_USER_DKKDIV ''dkkdiv'' M_TP_TYPE_STRING None,
      tp MC_USER_GBPDIV ''gbpdiv'' M_TP_TYPE_STRING None,
      tp MC_USER_HKDDIV ''hkddiv'' M_TP_TYPE_STRING None,
      tp MC_USER_JPYDIV ''jpydiv'' M_TP_TYPE_STRING None,
      tp MC_USER_NZDDIV ''nzddiv'' M_TP_TYPE_STRING None,
      tp MC_USER_NOKDIV ''nokdiv'' M_TP_TYPE_STRING None,
      tp MC_USER_SGDDIV ''sgddiv'' M_TP_TYPE_STRING None,
      tp MC_USER_ZARDIV ''zardiv'' M_TP_TYPE_STRING None,
      tp MC_USER_SEKDIV ''sekdiv'' M_TP_TYPE_STRING None,
      tp MC_USER_CHFDIV ''chfdiv'' M_TP_TYPE_STRING None,
      tp MC_USER_CADDIV ''caddiv'' M_TP_TYPE_STRING None,
      tp MC_USER_DIVNUM ''divnum'' M_TP_TYPE_STRING None]"

text \<open>The variable arguments: reading one at another type than it was passed with is undefined.\<close>

datatype va_arg =
    Va_string cstr
  | Va_int i32
  | Va_long i64
  | Va_int64 i64
  | Va_double u64

text \<open>\<open>%d\<close>, \<open>%ld\<close> and \<open>%lld\<close>.\<close>

definition format_int :: "int \<Rightarrow> string" where
  "format_int n = (if n < 0 then CHR ''-'' # decimal (nat (- n)) else decimal (nat n))"

text \<open>The key and value the switch over the value type computes; \<open>None\<close> is undefined.\<close>

fun tp_value :: "mstd_legacy \<Rightarrow> M_tp_entry \<Rightarrow> va_arg list \<Rightarrow> (cstr \<times> cstr) option" where
  "tp_value X e args =
     (case (valtype e, args) of
        (M_TP_TYPE_STRING, Va_string v # _) \<Rightarrow> Some (Some (strkey e), v)
      | (M_TP_TYPE_INT, Va_int n # _) \<Rightarrow>
          Some (Some (strkey e),
                case int_transform e of
                  Some f \<Rightarrow> f n
                | None \<Rightarrow> Some (format_int (sint n)))
      | (M_TP_TYPE_LONG, Va_long n # _) \<Rightarrow> Some (Some (strkey e), Some (format_int (sint n)))
      | (M_TP_TYPE_DOUBLE, Va_double d # _) \<Rightarrow>
          Some (Some (strkey e), Some (M_format_double_2f X d))
      | (M_TP_TYPE_CUSTOM, Va_string k # Va_string v # _) \<Rightarrow> Some (k, v)
      | (M_TP_TYPE_INT64, Va_int64 n # _) \<Rightarrow> Some (Some (strkey e), Some (format_int (sint n)))
      | _ \<Rightarrow> None)"

definition M_TransParam ::
  "mstd \<Rightarrow> mstd_legacy \<Rightarrow> M_CONN_ptr \<Rightarrow> u64 \<Rightarrow> i32 \<Rightarrow> va_arg list \<Rightarrow> M_CONN \<Rightarrow> (i32 \<times> M_CONN) option" where
  "M_TransParam L X ptr identifier key args s =
     (if ptr \<noteq> CONN_SET \<or> identifier = 0 then Some (0, s)
      else case find (\<lambda>e. tp_key e = key) (M_tp_list L X) of
        None \<Rightarrow> Some (0, s)
      | Some e \<Rightarrow>
          map_option (\<lambda>(k, v). M_TransKeyVal L ptr identifier k v s) (tp_value X e args))"

end
