(* ===== verification/LM_Legacy_Spec.thy ===== *)
theory LM_Legacy_Spec
  imports LM_Deprecated LM_Trans_Spec
begin

text \<open>
  The legacy interface keeps what it promises: seen from outside, a connection is a table of
  transactions by number. Each function reads or changes that table; the pointers, the queues
  and the locks behind it never show.
\<close>

section \<open>The contract\<close>

text \<open>
  A table of requests: \<open>new\<close> makes an empty one under a number nobody has, \<open>put\<close> sets a parameter
  of one that is still open, \<open>del\<close> removes one.
\<close>

locale request_table =
  fixes inv :: "'s \<Rightarrow> bool" and room :: "'s \<Rightarrow> bool" and view :: "'s \<Rightarrow> 'i \<Rightarrow> 't option"
    and new :: "'s \<Rightarrow> ('i \<times> 's) option" and put :: "'i \<Rightarrow> 'k \<Rightarrow> 'v \<Rightarrow> 's \<Rightarrow> bool \<times> 's"
    and del :: "'i \<Rightarrow> 's \<Rightarrow> 's"
    and fresh :: "'i \<Rightarrow> 't \<Rightarrow> bool" and opened :: "'t \<Rightarrow> bool" and removable :: "'s \<Rightarrow> 't \<Rightarrow> bool" and good_key :: "'k \<Rightarrow> bool"
    and setp :: "'k \<Rightarrow> 'v \<Rightarrow> 't \<Rightarrow> 't"
  assumes new: "inv s \<Longrightarrow> room s \<Longrightarrow>
      \<exists>i s' t. new s = Some (i, s') \<and> inv s' \<and> view s i = None \<and> view s' = (view s)(i \<mapsto> t) \<and> fresh i t"
    and fresh_open: "fresh i t \<Longrightarrow> opened t"
    and open_removable: "opened t \<Longrightarrow> removable s t"
    and put: "inv s \<Longrightarrow> put i k v s = (ok, s') \<Longrightarrow> inv s' \<and>
      (case view s i of
         Some t \<Rightarrow> if opened t \<and> good_key k then ok \<and> view s' = (view s)(i \<mapsto> setp k v t)
                   else \<not> ok \<and> view s' = view s
       | None \<Rightarrow> \<not> ok \<and> view s' = view s)"
    and set_opened: "opened t \<Longrightarrow> opened (setp k v t)"
    and del: "inv s \<Longrightarrow> (\<And>t. view s i = Some t \<Longrightarrow> removable s t) \<Longrightarrow>
      inv (del i s) \<and> view (del i s) = (view s)(i := None)"
begin

text \<open>Setting the parameters of a request one after the other.\<close>

definition put_all :: "'i \<Rightarrow> ('k \<times> 'v) list \<Rightarrow> 's \<Rightarrow> 's" where
  "put_all i kvs s = fold (\<lambda>(k, v) s. snd (put i k v s)) kvs s"

definition set_all :: "('k \<times> 'v) list \<Rightarrow> 't \<Rightarrow> 't" where
  "set_all kvs t = fold (\<lambda>(k, v) t. setp k v t) kvs t"

lemma put_all:
  assumes "inv s" "view s i = Some t" "opened t" "\<forall>(k, v) \<in> set kvs. good_key k"
  shows "inv (put_all i kvs s) \<and> view (put_all i kvs s) = (view s)(i \<mapsto> set_all kvs t) \<and>
    opened (set_all kvs t)"
  using assms
proof (induction kvs arbitrary: s t)
  case Nil
  then show ?case by (auto simp: put_all_def set_all_def)
next
  case (Cons kv kvs)
  obtain k v where kv: "kv = (k, v)" by fastforce
  obtain ok s' where p: "put i k v s = (ok, s')" by fastforce
  have "inv s' \<and> view s' = (view s)(i \<mapsto> setp k v t)"
    using put [OF Cons.prems(1) p] Cons.prems(2-4) kv by simp
  with Cons.IH [of s' "setp k v t"] Cons.prems set_opened kv p show ?case
    by (simp add: put_all_def set_all_def fun_upd_def fun_eq_iff)
qed

text \<open>A request made from a list of parameters, and removed again: nothing is left of it.\<close>

lemma build:
  assumes "inv s" "room s" "\<forall>(k, v) \<in> set kvs. good_key k"
  obtains i s1 t where "new s = Some (i, s1)" and "fresh i t" and "view s i = None"
    and "view (put_all i kvs s1) = (view s)(i \<mapsto> set_all kvs t)"
    and "view (del i (put_all i kvs s1)) = view s"
proof -
  obtain i s1 t where n: "new s = Some (i, s1)" "inv s1" "view s i = None"
    "view s1 = (view s)(i \<mapsto> t)" "fresh i t"
    using new [OF assms(1,2)] by blast
  have a: "inv (put_all i kvs s1) \<and> view (put_all i kvs s1) = (view s)(i \<mapsto> set_all kvs t) \<and>
      opened (set_all kvs t)"
    using put_all [OF n(2), of i t kvs] n(4) fresh_open [OF n(5)] assms(3) by simp
  moreover have "view (del i (put_all i kvs s1)) = view s"
    using del [of "put_all i kvs s1" i] a n(3) open_removable by auto
  ultimately show ?thesis using n by (intro that) auto
qed

end

section \<open>The legacy functions provide it\<close>

definition legacy_inv :: "mstd \<Rightarrow> M_CONN \<Rightarrow> bool" where
  "legacy_inv L s \<longleftrightarrow> conn_obj s = CONN \<and> inv_at L [] (lconn s) \<and> \<not> in_use (lconn s)"

text \<open>The table: the transaction with a number.\<close>

definition table :: "mstd \<Rightarrow> M_CONN \<Rightarrow> u64 \<Rightarrow> LM_trans option" where
  "table L s i = Option.bind (M_hash_u64vp_get L (trans_id_map (lconn s)) i) (txns (lconn s))"

text \<open>What the transactions are, with the connection in a state it can be in.\<close>

lemma table_iff:
  assumes "core_inv L (lconn s)"
  shows "table L s i = Some t \<longleftrightarrow> (\<exists>p. txns (lconn s) p = Some t \<and> trans_id t = i)"
  using core_inv_map [OF assms, of i] by (auto simp: table_def bind_eq_Some_conv)

lemma bind_upd:
  assumes "\<And>j. m j = Some p \<longleftrightarrow> j = i"
  shows "(\<lambda>j. Option.bind (m j) (f(p := x))) = (\<lambda>j. Option.bind (m j) f)(i := x)"
proof
  fix j
  show "Option.bind (m j) (f(p := x)) = ((\<lambda>j. Option.bind (m j) f)(i := x)) j"
    using assms [of j] by (cases "m j") auto
qed

lemma table_fun: "table L s = (\<lambda>i. Option.bind (M_hash_u64vp_get L (trans_id_map (lconn s)) i) (txns (lconn s)))"
  by (simp add: fun_eq_iff table_def)

lemma legacy_core: "legacy_inv L s \<Longrightarrow> core_inv L (lconn s)"
  by (simp add: legacy_inv_def inv_at_def lm_inv_def)

lemma lookup_lock:
  assumes "legacy_inv L s"
  shows "LM_conn_get_trans_by_internal_id L (conn_obj s) i (lconn s) =
    (M_hash_u64vp_get L (trans_id_map (lconn s)) i, unlock_conn (lock_conn (lconn s)))"
  using assms by (simp add: LM_conn_get_trans_by_internal_id_def legacy_inv_def)

lemma lookup_inv:
  assumes "legacy_inv L s"
  shows "legacy_inv L (s\<lparr>lconn := unlock_conn (lock_conn (lconn s))\<rparr>)"
    and "table L (s\<lparr>lconn := unlock_conn (lock_conn (lconn s))\<rparr>) = table L s"
  using assms inv_at_lock(2) [OF inv_at_lock(1), of L "lconn s"]
  by (auto simp: legacy_inv_def table_def fun_eq_iff)

text \<open>The number is found, and the function goes on with the transaction, or it is not.\<close>

lemma with_trans_cases:
  assumes "legacy_inv L s" "with_trans L CONN_SET i r body s = (x, s')"
  defines "c \<equiv> unlock_conn (lock_conn (lconn s))"
  obtains (missing) "table L s i = None" "x = r" "s' = s\<lparr>lconn := c\<rparr>"
    | (found) p t where "table L s i = Some t" "txns (lconn s) p = Some t" "trans_id t = i" "txns c p = Some t"
        "inv_at L [] c" "\<not> in_use c" "x = fst (body p c)" "s' = s\<lparr>lconn := snd (body p c)\<rparr>"
proof (cases "M_hash_u64vp_get L (trans_id_map (lconn s)) i")
  case None
  then have "table L s i = None" by (simp add: table_def)
  with None assms(2) lookup_lock [OF assms(1)] missing show ?thesis
    by (simp add: with_trans_def c_def)
next
  case (Some p)
  obtain t where t: "txns (lconn s) p = Some t" "trans_id t = i"
    using core_inv_map [OF legacy_core [OF assms(1)], of i p] Some by auto
  moreover have "table L s i = Some t" using Some t by (simp add: table_def)
  moreover have "inv_at L [] c" "\<not> in_use c"
    using lookup_inv(1) [OF assms(1)] by (simp_all add: legacy_inv_def c_def)
  ultimately show ?thesis
    using Some assms(2) lookup_lock [OF assms(1)] found [of t p]
    by (simp add: with_trans_def c_def split_beta)
qed

text \<open>The parameter as the transaction stores it.\<close>

definition with_param :: "mstd \<Rightarrow> cstr \<Rightarrow> cstr \<Rightarrow> LM_trans \<Rightarrow> LM_trans" where
  "with_param L k v t = t\<lparr>request_params := Some (M_hash_dict_insert L
     (case request_params t of None \<Rightarrow> [] | Some d \<Rightarrow> d) (the k) v)\<rparr>"

definition good_key :: "cstr \<Rightarrow> bool" where
  "good_key k \<longleftrightarrow> k \<noteq> None \<and> k \<noteq> Some []"

text \<open>Everything but the ping that is being sent may be deleted.\<close>

definition may_delete :: "M_CONN \<Rightarrow> LM_trans \<Rightarrow> bool" where
  "may_delete s t \<longleftrightarrow> pingtxn (lconn s) = None \<or> status t \<noteq> LM_TRANS_STATUS_PENDING"

context mstd_rand_api
begin

lemma legacy_new:
  assumes "legacy_inv L s" "ids_left (lconn s)"
  obtains i s' where "M_TransNew L CONN_SET s = Some (i, s')" and "legacy_inv L s'"
    and "table L s i = None" and "table L s' = (table L s)(i \<mapsto> new_trans i)"
proof -
  let ?c = "lconn s"
  have inv: "inv_at L [] ?c" "conn_obj s = CONN" "\<not> in_use ?c" using assms(1) by (simp_all add: legacy_inv_def)
  obtain k cs where r: "LM_trans_new L CONN ?c =
      Some (Some (next_ptr ?c),
            ?c\<lparr>next_ptr := Suc (next_ptr ?c), txns := (txns ?c)(next_ptr ?c \<mapsto> new_trans k),
              trans_new := trans_new ?c @ [next_ptr ?c],
              trans_id_map := M_hash_u64vp_insert L (trans_id_map ?c) k (next_ptr ?c),
              calls := cs\<rparr>)"
    and k: "M_hash_u64vp_get L (trans_id_map ?c) k = None"
    by (rule trans_new_total [OF inv(1) assms(2)]) blast
  let ?s = "s\<lparr>lconn := ?c\<lparr>next_ptr := Suc (next_ptr ?c), txns := (txns ?c)(next_ptr ?c \<mapsto> new_trans k),
              trans_new := trans_new ?c @ [next_ptr ?c],
              trans_id_map := M_hash_u64vp_insert L (trans_id_map ?c) k (next_ptr ?c), calls := cs\<rparr>\<rparr>"
  have "M_TransNew L CONN_SET s = Some (k, ?s)"
    using r inv(2) by (simp add: M_TransNew_def LM_trans_internal_id_def live_def)
  moreover have "legacy_inv L ?s"
    using trans_new_inv [OF inv(1) assms(2) r] inv by (simp add: legacy_inv_def)
  moreover have "table L s k = None" using k by (simp add: table_def)
  moreover have "next_ptr ?c \<noteq> p" if "M_hash_u64vp_get L (trans_id_map ?c) i = Some p" for i p
    using that core_inv_map [OF legacy_core [OF assms(1)], of i p] core_inv_below [OF legacy_core [OF assms(1)], of p]
    by auto
  then have "table L ?s = (table L s)(k \<mapsto> new_trans k)"
    by (auto simp: table_def fun_eq_iff split: bind_splits)
  ultimately show ?thesis by (rule that)
qed

lemma legacy_put:
  assumes "legacy_inv L s" "M_TransKeyVal L CONN_SET i k v s = (r, s')"
  shows "legacy_inv L s' \<and>
    (case table L s i of
       Some t \<Rightarrow> if status t = LM_TRANS_STATUS_NEW \<and> good_key k
                 then r = 1 \<and> table L s' = (table L s)(i \<mapsto> with_param L k v t)
                 else r = 0 \<and> table L s' = table L s
     | None \<Rightarrow> r = 0 \<and> table L s' = table L s)"
  using assms(1) assms(2) [unfolded M_TransKeyVal_def]
proof (cases rule: with_trans_cases)
  case missing
  with lookup_inv [OF assms(1)] show ?thesis by simp
next
  case (found p t)
  let ?c = "unlock_conn (lock_conn (lconn s))"
  let ?d = "snd (LM_trans_set_param L (Some p) k v ?c)"
  have inv: "inv_at L [] ?d" "grows ?c ?d"
    using trans_set_param_inv [OF found(5), of "Some p" k v] found(4) by (simp_all add: live_def)
  have s': "s' = s\<lparr>lconn := ?d\<rparr>" using found(8) by (simp add: split_beta)
  have d: "txns ?d = (if fst (LM_trans_set_param L (Some p) k v ?c)
      then (txns (lconn s))(p \<mapsto> with_param L k v t) else txns (lconn s))"
    "fst (LM_trans_set_param L (Some p) k v ?c) \<longleftrightarrow> status t = LM_TRANS_STATUS_NEW \<and> good_key k"
    "trans_id_map ?d = trans_id_map (lconn s)"
    using found(2,4)
    by (auto simp: LM_trans_set_param_def with_param_def good_key_def live_def trans_at_def Let_def)
  have "legacy_inv L s'"
    using assms(1) inv found(6) by (simp add: s' legacy_inv_def grows_def)
  moreover have "table L s' = (if status t = LM_TRANS_STATUS_NEW \<and> good_key k
      then (table L s)(i \<mapsto> with_param L k v t) else table L s)"
  proof -
    have "M_hash_u64vp_get L (trans_id_map (lconn s)) j = Some p \<longleftrightarrow> j = i" for j
      using core_inv_map [OF legacy_core [OF assms(1)], of j p] found(2,3) by auto
    from bind_upd [OF this, of "txns (lconn s)" "Some (with_param L k v t)"] show ?thesis
      using d by (simp add: table_fun s')
  qed
  moreover have "r = int_of_bool (fst (LM_trans_set_param L (Some p) k v ?c))"
    using found(7) by (simp add: split_beta)
  ultimately show ?thesis using found(1) d(2) by (simp add: int_of_bool_def)
qed

lemma legacy_del:
  assumes "legacy_inv L s" "\<And>t. table L s i = Some t \<Longrightarrow> may_delete s t"
  shows "legacy_inv L (M_DeleteTrans L CONN_SET i s) \<and>
    table L (M_DeleteTrans L CONN_SET i s) = (table L s)(i := None)"
proof -
  define s' where "s' = M_DeleteTrans L CONN_SET i s"
  have w: "with_trans L CONN_SET i () (\<lambda>p c. ((), LM_trans_delete L (Some p) c)) s = ((), s')"
    by (simp add: s'_def M_DeleteTrans_def prod_eq_iff)
  note eq = s'_def [symmetric]
  from assms(1) w show ?thesis
  proof (cases rule: with_trans_cases)
    case missing
    then show ?thesis using lookup_inv [OF assms(1)] by (auto simp: eq)
  next
    case (found p t)
    let ?c = "unlock_conn (lock_conn (lconn s))"
    have ping: "pingtxn ?c = Some p \<longrightarrow> p \<notin> set (trans_pending ?c)"
      using assms(2) [OF found(1)] core_inv_notin(3) [OF legacy_core [OF assms(1)] found(2)]
      by (auto simp: may_delete_def)
    have "trans_delay_rm ?c = []"
      using found(5,6) by (simp add: inv_at_def lm_inv_def core_inv_def delay_inv_def)
    then have "inv_at L [] (LM_trans_delete L (Some p) ?c) \<and> grows ?c (LM_trans_delete L (Some p) ?c)"
      using trans_delete_inv [OF found(5), of "Some p"] found(4) ping by (simp add: live_def)
    then have "legacy_inv L s'"
      using assms(1) found(6,8) by (simp add: legacy_inv_def grows_def)
    moreover obtain cs where del: "LM_trans_delete L (Some p) ?c = ?c\<lparr>
        trans_new := remove1 p (trans_new ?c), trans_ready := remove1 p (trans_ready ?c),
        trans_pending := remove1 p (trans_pending ?c), trans_done := remove1 p (trans_done ?c),
        trans_id_map := M_hash_u64vp_remove L (trans_id_map ?c) (trans_id t),
        txns := (txns ?c)(p := None), calls := cs\<rparr>"
      by (rule delete_idle [OF found(5,6,4)])
    have only: "M_hash_u64vp_get L (trans_id_map (lconn s)) j = Some p \<longleftrightarrow> j = i" for j
      using core_inv_map [OF legacy_core [OF assms(1)], of j p] found(2,3) by auto
    have "table L s' = (table L s)(i := None)"
      using bind_upd [OF only, of "txns (lconn s)" None] del found(3,8)
      by (simp add: table_fun fun_eq_iff id_get_remove)
    ultimately show ?thesis by (simp add: eq)
  qed
qed

end

sublocale mstd_rand_api \<subseteq> legacy: request_table "legacy_inv L" "\<lambda>s. ids_left (lconn s)" "table L"
  "M_TransNew L CONN_SET" "\<lambda>i k v s. map_prod (\<lambda>r. r \<noteq> 0) id (M_TransKeyVal L CONN_SET i k v s)"
  "M_DeleteTrans L CONN_SET" "\<lambda>i t. t = new_trans i" "\<lambda>t. status t = LM_TRANS_STATUS_NEW"
  may_delete good_key "with_param L"
proof
  show "\<exists>i s' t. M_TransNew L CONN_SET s = Some (i, s') \<and> legacy_inv L s' \<and> table L s i = None \<and>
      table L s' = (table L s)(i \<mapsto> t) \<and> t = new_trans i"
    if "legacy_inv L s" "ids_left (lconn s)" for s
    by (rule legacy_new [OF that]) blast
  show "legacy_inv L s' \<and> (case table L s i of
      Some t \<Rightarrow> if status t = LM_TRANS_STATUS_NEW \<and> good_key k
                then ok \<and> table L s' = (table L s)(i \<mapsto> with_param L k v t)
                else \<not> ok \<and> table L s' = table L s
    | None \<Rightarrow> \<not> ok \<and> table L s' = table L s)"
    if inv: "legacy_inv L s" and res: "map_prod (\<lambda>r. r \<noteq> 0) id (M_TransKeyVal L CONN_SET i k v s) = (ok, s')"
    for s i k v ok s'
  proof -
    obtain r where r: "M_TransKeyVal L CONN_SET i k v s = (r, s')" "ok = (r \<noteq> 0)"
      using res by (cases "M_TransKeyVal L CONN_SET i k v s") auto
    from legacy_put [OF inv r(1)] r(2) show ?thesis
      by (auto split: option.splits if_splits)
  qed
  show "legacy_inv L (M_DeleteTrans L CONN_SET i s) \<and>
      table L (M_DeleteTrans L CONN_SET i s) = (table L s)(i := None)"
    if "legacy_inv L s" "\<And>t. table L s i = Some t \<Longrightarrow> may_delete s t" for s i
    using legacy_del that by blast
qed (auto simp: may_delete_def with_param_def)

context mstd_rand_api
begin

lemma request_built:
  assumes "legacy_inv L s" "ids_left (lconn s)" "\<forall>(k, v) \<in> set kvs. good_key k"
  obtains i s1 where "M_TransNew L CONN_SET s = Some (i, s1)" and "table L s i = None"
    and "table L (fold (\<lambda>(k, v) s. snd (M_TransKeyVal L CONN_SET i k v s)) kvs s1) =
       (table L s)(i \<mapsto> fold (\<lambda>(k, v). with_param L k v) kvs (new_trans i))"
    and "table L (M_DeleteTrans L CONN_SET i (fold (\<lambda>(k, v) s. snd (M_TransKeyVal L CONN_SET i k v s)) kvs s1))
       = table L s"
proof -
  obtain i s1 t where b: "M_TransNew L CONN_SET s = Some (i, s1)" "t = new_trans i" "table L s i = None"
    "table L (legacy.put_all i kvs s1) = (table L s)(i \<mapsto> legacy.set_all kvs t)"
    "table L (M_DeleteTrans L CONN_SET i (legacy.put_all i kvs s1)) = table L s"
    by (rule legacy.build [OF assms])
  have "legacy.put_all i kvs s1 = fold (\<lambda>(k, v) s. snd (M_TransKeyVal L CONN_SET i k v s)) kvs s1" for i s1
    by (simp add: legacy.put_all_def)
  moreover have "legacy.set_all kvs t = fold (\<lambda>(k, v). with_param L k v) kvs t" for t
    by (simp add: legacy.set_all_def)
  ultimately show ?thesis using b that by simp
qed

end

section \<open>The table\<close>

text \<open>
  C21. Refinement: on the table of transactions by number that the connection stands for, a
  new transaction is an empty one under a number not 0 that nobody had; a parameter changes the
  transaction of its number, when there is one, it has not been sent and the key is not empty,
  and the result says which; a deletion removes one. Nothing else in the table changes, and the
  connection stays in a state it can be in.
\<close>

theorem legacy_refines:
  assumes "mstd_rand_api L" "legacy_inv L s"
  shows "(ids_left (lconn s) \<longrightarrow>
      (\<exists>i s'. M_TransNew L CONN_SET s = Some (i, s') \<and> legacy_inv L s' \<and> i \<noteq> 0 \<and> table L s i = None \<and>
         table L s' = (table L s)(i \<mapsto> zero_trans\<lparr>trans_id := i\<rparr>))) \<and>
    (\<forall>i k v. let (r, s') = M_TransKeyVal L CONN_SET i k v s;
         ok = (\<exists>t. table L s i = Some t \<and> status t = LM_TRANS_STATUS_NEW \<and> good_key k) in
       legacy_inv L s' \<and> r = (if ok then 1 else 0) \<and>
       table L s' = (if ok then (table L s)(i := map_option (with_param L k v) (table L s i)) else table L s)) \<and>
    (\<forall>i. (\<forall>t. table L s i = Some t \<longrightarrow> may_delete s t) \<longrightarrow>
       legacy_inv L (M_DeleteTrans L CONN_SET i s) \<and>
       table L (M_DeleteTrans L CONN_SET i s) = (table L s)(i := None))"
proof (intro conjI allI impI)
  assume room: "ids_left (lconn s)"
  obtain i s' where new: "M_TransNew L CONN_SET s = Some (i, s')" "legacy_inv L s'"
    "table L s i = None" "table L s' = (table L s)(i \<mapsto> new_trans i)"
    by (rule mstd_rand_api.legacy_new [OF assms room])
  then have "table L s' i = Some (new_trans i)" by simp
  then obtain p where "txns (lconn s') p = Some (new_trans i)"
    using table_iff [OF legacy_core [OF new(2)], of i] by auto
  then have "i \<noteq> 0" using core_inv_wf [OF legacy_core [OF new(2)]] by (fastforce simp: trans_wf_def)
  with new show "\<exists>i s'. M_TransNew L CONN_SET s = Some (i, s') \<and> legacy_inv L s' \<and> i \<noteq> 0 \<and>
      table L s i = None \<and> table L s' = (table L s)(i \<mapsto> zero_trans\<lparr>trans_id := i\<rparr>)"
    by (auto simp: new_trans_def)
next
  fix i k v
  obtain r s' where r: "M_TransKeyVal L CONN_SET i k v s = (r, s')" by fastforce
  from mstd_rand_api.legacy_put [OF assms r]
  show "let (r, s') = M_TransKeyVal L CONN_SET i k v s;
         ok = (\<exists>t. table L s i = Some t \<and> status t = LM_TRANS_STATUS_NEW \<and> good_key k) in
       legacy_inv L s' \<and> r = (if ok then 1 else 0) \<and>
       table L s' = (if ok then (table L s)(i := map_option (with_param L k v) (table L s i)) else table L s)"
    by (simp add: r split: option.splits if_splits)
next
  fix i
  assume "\<forall>t. table L s i = Some t \<longrightarrow> may_delete s t"
  then show "legacy_inv L (M_DeleteTrans L CONN_SET i s)"
    "table L (M_DeleteTrans L CONN_SET i s) = (table L s)(i := None)"
    using mstd_rand_api.legacy_del [OF assms, of i] by blast+
qed

text \<open>A legacy connection over the sample connection.\<close>

definition sample_legacy :: "LM_conn \<Rightarrow> M_CONN" where
  "sample_legacy c = \<lparr>conn_obj = CONN, lconn = c, legacy_tlsctx = None, trust_loaded = True,
     blocking = True, txntimeout = 0, is_monitor_previously_successful = False, ticks = [],
     event_running = False, slept = []\<rparr>"

lemma sample_legacy_inv: "legacy_inv (mstd_ref input) (sample_legacy (sample_conn st))"
  using sample_inv by (simp add: legacy_inv_def sample_legacy_def)

lemma legacy_refines_witness:
  "table (mstd_ref []) (M_DeleteTrans (mstd_ref []) CONN_SET 7 (sample_legacy (sample_conn LM_CONN_STATUS_CONNECTED))) 7
     = None"
proof -
  have "may_delete (sample_legacy (sample_conn LM_CONN_STATUS_CONNECTED)) t" for t
    by (simp add: may_delete_def sample_legacy_def)
  with legacy_refines [OF ref_rand.mstd_rand_api_axioms [of "[]"] sample_legacy_inv,
      THEN conjunct2, THEN conjunct2, rule_format, of LM_CONN_STATUS_CONNECTED 7]
  show ?thesis by simp
qed

text \<open>
  A request is built from nothing by its parameters: made, given a list of parameters with
  keys that are not empty, it stands in the table under its number with all of them, in that
  order, beside what was there; and deleted, it leaves the table as it was.
\<close>

theorem legacy_request_built:
  assumes "mstd_rand_api L" "legacy_inv L s" "ids_left (lconn s)" "\<forall>(k, v) \<in> set kvs. good_key k"
  shows "\<exists>i s1. M_TransNew L CONN_SET s = Some (i, s1) \<and> table L s i = None \<and>
    (let s2 = fold (\<lambda>(k, v) s. snd (M_TransKeyVal L CONN_SET i k v s)) kvs s1 in
     table L s2 = (table L s)(i \<mapsto> fold (\<lambda>(k, v). with_param L k v) kvs (zero_trans\<lparr>trans_id := i\<rparr>)) \<and>
     table L (M_DeleteTrans L CONN_SET i s2) = table L s)"
proof -
  obtain i s1 where b: "M_TransNew L CONN_SET s = Some (i, s1)" "table L s i = None"
    "table L (fold (\<lambda>(k, v) s. snd (M_TransKeyVal L CONN_SET i k v s)) kvs s1) =
       (table L s)(i \<mapsto> fold (\<lambda>(k, v). with_param L k v) kvs (new_trans i))"
    "table L (M_DeleteTrans L CONN_SET i (fold (\<lambda>(k, v) s. snd (M_TransKeyVal L CONN_SET i k v s)) kvs s1))
       = table L s"
    by (rule mstd_rand_api.request_built [OF assms])
  then show ?thesis by (auto simp: new_trans_def)
qed

lemma legacy_request_built_witness:
  "\<exists>i s1. M_TransNew (mstd_ref []) CONN_SET (sample_legacy (sample_conn LM_CONN_STATUS_CONNECTED)) = Some (i, s1)"
proof -
  have "ids_left (lconn (sample_legacy (sample_conn LM_CONN_STATUS_CONNECTED)))"
    by (simp add: sample_legacy_def ids_left_def queues_def)
  moreover have "\<forall>(k, v) \<in> set [(Some ''username'', Some ''u'')]. good_key k" by (simp add: good_key_def)
  ultimately show ?thesis
    using legacy_request_built [OF ref_rand.mstd_rand_api_axioms [of "[]"] sample_legacy_inv] by blast
qed

section \<open>Status and results\<close>













section \<open>Indices\<close>

text \<open>
  C23. The accessors of the arrays handed out, given the length of the array: no index below 0
  and none above the length reads memory. The index that equals the length does, in the keys of
  a response (one too far); in the list of completed transactions none does, but the first
  member cannot be read.
\<close>

theorem array_bounds:
  assumes "length ks < 2 ^ 31"
  shows "M_ResponseKeys_index (Some ks) (of_nat (length ks)) idx =
      (if 0 \<le> sint idx \<and> sint idx < int (length ks) then Member (Some (ks ! nat (sint idx)))
       else if 0 < sint idx \<and> sint idx = int (length ks) then Behind_end
       else Member None) \<and>
    (length ids = length ks \<longrightarrow>
     M_CompleteAuthorizations_index (Some ids) (of_nat (length ids)) idx =
      (if 0 < sint idx \<and> sint idx < int (length ids) then Member (ids ! nat (sint idx)) else Member 0))"
proof -
  have "sint (of_nat (length ks) :: i32) = int (length ks)"
    using assms by (simp add: signed_of_nat signed_take_bit_int_eq_self)
  then show ?thesis
    by (auto simp: M_ResponseKeys_index_def M_CompleteAuthorizations_index_def read_array_def)
qed

lemma array_bounds_witness:
  "M_ResponseKeys_index (Some [''code'']) 1 1 = Behind_end"
  using array_bounds [of "[''code'']" 1 "[]"] by simp

section \<open>Blocking\<close>

lemma event_loop_keeps:
  assumes "M_event_loop L timeout s = Some s'"
  shows "blocking s' = blocking s" "conn_obj s' = conn_obj s"
  using assms by (auto simp: M_event_loop_def)

lemma connect_keeps:
  assumes "M_Connect L X ptr s = Some (r, s')"
  shows "blocking s' = blocking s" "r = 0 \<or> r = 1"
  using assms
  by (auto simp: M_Connect_def load_trust_def Let_def split_beta split: if_splits option.splits
      dest: event_loop_keeps)

lemma status_read: "fst (LM_trans_status (Some p) c) = Some (status (trans_at c p))"
    "txns (snd (LM_trans_status (Some p) c)) = txns c"
  by (simp_all add: LM_trans_status_def Let_def trans_at_def)

definition is_done :: "M_CONN \<Rightarrow> ptr \<Rightarrow> bool" where
  "is_done s p \<longleftrightarrow> (\<exists>t. txns (lconn s) p = Some t \<and> status t = LM_TRANS_STATUS_DONE)"

lemma is_done_read: "status (trans_at (lconn s) p) = LM_TRANS_STATUS_DONE \<longleftrightarrow> is_done s p"
  by (auto simp: is_done_def trans_at_def zero_trans_def split: option.split)

text \<open>The loop only ends with the transaction done, or with 0.\<close>

lemma wait_done_result:
  "wait_done L p s = Some r \<Longrightarrow> (fst r = 0 \<or> fst r = 1) \<and> (fst r = 1 \<longrightarrow> is_done (snd r) p)"
proof (induction rule: wait_done.raw_induct [rotated, consumes 1])
  case (1 rec L p s r)
  define s1 where "s1 = s\<lparr>lconn := snd (LM_trans_status (Some p) (lconn s))\<rparr>"
  have d1: "is_done s1 p \<longleftrightarrow> status (trans_at (lconn s) p) = LM_TRANS_STATUS_DONE"
    unfolding is_done_read by (simp add: s1_def is_done_def status_read)
  show ?case
  proof (cases "is_done s1 p")
    case True
    with 1(2) d1 show ?thesis
      by (auto simp: status_read split_beta Let_def s1_def [symmetric])
  next
    case False
    with 1(2) d1 obtain x s2 where m: "M_Monitor_ex L CONN_SET (- 1) s1 = Some (x, s2)"
      by (auto simp: status_read split_beta Let_def s1_def [symmetric] split: option.splits)
    with 1 False d1 show ?thesis
      by (auto simp: status_read split_beta Let_def s1_def [symmetric] split: if_splits)
  qed
qed

text \<open>
  C24. Sending returns 1 or 0; in blocking mode 1 means that the transaction of that number is
  done, its response there to be read, whatever happened on the connection meanwhile.
\<close>

theorem blocking_send:
  assumes "M_TransSend L X CONN_SET i s = Some (r, s')"
  shows "(r = 0 \<or> r = 1) \<and>
    (r = 1 \<and> blocking s \<longrightarrow>
       (\<exists>p. fst (LM_conn_get_trans_by_internal_id L (conn_obj s) i (lconn s)) = Some p \<and> is_done s' p))"
proof -
  obtain tp c where l: "LM_conn_get_trans_by_internal_id L (conn_obj s) i (lconn s) = (tp, c)" by fastforce
  show ?thesis
  proof (cases tp)
    case None
    with assms l show ?thesis by (simp add: M_TransSend_def)
  next
    case (Some p)
    from assms l Some obtain s1 where s1: "M_event_loop L (Some 0) (s\<lparr>lconn := c\<rparr>) = Some s1"
      by (auto simp: M_TransSend_def Let_def split: Option.bind_splits)
    from assms l Some s1 obtain q s2 where s2: "(if LM_conn_status (conn_obj s1) (lconn s1) \<noteq> LM_CONN_STATUS_CONNECTED
        then M_Connect L X CONN_SET s1 else Some (1, s1)) = Some (q, s2)"
      by (auto simp: M_TransSend_def Let_def split: Option.bind_splits)
    have b: "blocking s2 = blocking s"
      using event_loop_keeps(1) [OF s1] s2 connect_keeps(1) by (auto split: if_splits)
    show ?thesis
    proof (cases "q = 0")
      case True
      with assms l Some s1 s2 show ?thesis by (simp add: M_TransSend_def Let_def)
    next
      case False
      with assms l Some s1 s2 obtain ok d where send: "LM_trans_send L (Some p) (lconn s2) = Some (ok, d)"
        by (auto simp: M_TransSend_def Let_def split: Option.bind_splits)
      have "(if \<not> ok then Some (0, s2\<lparr>lconn := d\<rparr>)
          else if blocking s2 then wait_done L p (s2\<lparr>lconn := d\<rparr>) else Some (1, s2\<lparr>lconn := d\<rparr>)) = Some (r, s')"
        using assms l Some s1 s2 False send by (auto simp: M_TransSend_def Let_def split: if_splits)
      with b l Some wait_done_result [of L p "s2\<lparr>lconn := d\<rparr>" "(r, s')"] show ?thesis
        by (auto split: if_splits)
    qed
  qed
qed


definition legacy_ref :: mstd_legacy where
  "legacy_ref = \<lparr>M_tls_clientctx_set_trust_ca_file = (\<lambda>_ _ _. True),
     M_tls_clientctx_set_trust_ca_dir = (\<lambda>_ _ _. True), M_tls_clientctx_set_default_trust = (\<lambda>_ _. True),
     M_format_double_2f = (\<lambda>_. ''0.00''), M_buf_finish_str = (\<lambda>b. if b = [] then None else Some b),
     M_library_cleanup = (\<lambda>f g. f g)\<rparr>"

text \<open>The sample transaction is sent, and the socket delivers its response.\<close>

definition sample_answered :: M_CONN where
  "sample_answered = (sample_legacy (sample_conn LM_CONN_STATUS_CONNECTED))
     \<lparr>ticks := [Elapsed, Arrives (Socket_event M_EVENT_TYPE_READ)]\<rparr>"

lemma sample_answered_sent:
  "map_option fst (M_TransSend (mstd_ref (frame 7 ''code=AUTH'')) legacy_ref CONN_SET 7 sample_answered) = Some 1"
  by code_simp

lemma blocking_send_witness:
  "\<exists>s'. M_TransSend (mstd_ref (frame 7 ''code=AUTH'')) legacy_ref CONN_SET 7 sample_answered = Some (1, s') \<and>
     is_done s' 1"
proof -
  obtain s' where s': "M_TransSend (mstd_ref (frame 7 ''code=AUTH'')) legacy_ref CONN_SET 7 sample_answered = Some (1, s')"
    using sample_answered_sent by auto
  from blocking_send [OF this] have "is_done s' 1"
    by (auto simp: sample_answered_def sample_legacy_def LM_conn_get_trans_by_internal_id_def ref_get_single)
  with s' show ?thesis by blast
qed

section \<open>Parameters by number\<close>







end
