(* ===== verification/App_Std.thy ===== *)
theory App_Std
  imports Mstdlib
begin

text \<open>
  What the command line programs under \<open>apps/\<close> use of mstdlib beyond what the library itself
  does: again a record of parameters, with locales for what its documentation promises. Lists
  of strings and of dictionaries are represented by their members, a decimal number by its
  digits and its number of decimal places. The generator of random numbers is the one of
  \<open>Mstdlib\<close>, drawn from with the log of the draws so far.

  The command line parser calls the program back for every option it finds. The program's
  callback and state are arguments of the parser, which is a parameter by itself because its
  type depends on the program.
\<close>

section \<open>Types\<close>

type_synonym M_decimal = "int \<times> nat"

datatype M_tls_verify_level_t =
    M_TLS_VERIFY_NONE
  | M_TLS_VERIFY_CERT_ONLY
  | M_TLS_VERIFY_CERT_FUZZY
  | M_TLS_VERIFY_FULL

datatype M_io_trace_type_t = M_IO_TRACE_TYPE_READ | M_IO_TRACE_TYPE_WRITE | M_IO_TRACE_TYPE_EVENT

datatype M_getopt_error_t =
    M_GETOPT_ERROR_SUCCESS
  | M_GETOPT_ERROR_INVALIDOPT
  | M_GETOPT_ERROR_INVALIDDATATYPE
  | M_GETOPT_ERROR_MISSINGVALUE
  | M_GETOPT_ERROR_NONOPTION
  | M_GETOPT_ERROR_OTHER

datatype getopt_kind = Getopt_string | Getopt_integer | Getopt_decimal | Getopt_boolean

text \<open>An option as it is registered: kind, short name, long name, whether a value is required, help.\<close>

datatype getopt_option = Getopt_option getopt_kind char cstr bool string

text \<open>What the parser finds on the command line and hands to the program's callbacks.\<close>

datatype getopt_item =
    Item_nonopt nat cstr
  | Item_string char cstr cstr
  | Item_integer char cstr "u64 option"
  | Item_decimal char cstr "M_decimal option"
  | Item_boolean char cstr bool

type_synonym 'o getopt_parse =
  "getopt_option list \<Rightarrow> (getopt_item \<Rightarrow> 'o \<Rightarrow> bool \<times> 'o) \<Rightarrow> string list \<Rightarrow> cstr \<Rightarrow> 'o
   \<Rightarrow> M_getopt_error_t \<times> cstr \<times> 'o"

record mstd_app =
  M_str_len :: "cstr \<Rightarrow> nat"
  M_str_safe :: "cstr \<Rightarrow> string"
  \<comment> \<open>what \<open>%s\<close> prints of a string that may be NULL\<close>
  M_printf_s :: "cstr \<Rightarrow> string"
  \<comment> \<open>into an array of that size which holds the first string\<close>
  M_str_cpy :: "nat \<Rightarrow> string \<Rightarrow> string \<Rightarrow> string"
  M_str_caseeq_max :: "cstr \<Rightarrow> cstr \<Rightarrow> nat \<Rightarrow> bool"
  M_str_explode_str :: "char \<Rightarrow> cstr \<Rightarrow> string list"
  M_str_explode_quoted_null :: "string list option"
  M_strdup_unquote :: "string \<Rightarrow> char \<Rightarrow> char \<Rightarrow> string"
  M_str_hexdump :: "string \<Rightarrow> string \<Rightarrow> cstr"
  M_fs_path_basename :: "string \<Rightarrow> string"
  \<comment> \<open>the number of members, and the list without one of its nodes\<close>
  M_llist_len :: "ptr list \<Rightarrow> nat"
  M_llist_take_node :: "ptr list \<Rightarrow> ptr \<Rightarrow> ptr list"
  M_list_str_insert :: "string list \<Rightarrow> string \<Rightarrow> string list"
  M_list_str_len :: "string list \<Rightarrow> nat"
  M_list_str_at :: "string list \<Rightarrow> nat \<Rightarrow> string"
  M_list_dict_insert :: "dict list \<Rightarrow> dict \<Rightarrow> dict list"
  M_list_dict_len :: "dict list \<Rightarrow> nat"
  M_list_dict_at :: "dict list \<Rightarrow> nat \<Rightarrow> dict"
  M_list_dict_take_first :: "dict list \<Rightarrow> dict option \<times> dict list"
  M_hash_dict_merge :: "dict \<Rightarrow> dict \<Rightarrow> dict"
  M_hash_dict_remove :: "dict \<Rightarrow> string \<Rightarrow> dict"
  \<comment> \<open>of a dictionary whose keys are kept in ascending order\<close>
  M_hash_dict_enumerate :: "dict \<Rightarrow> (string \<times> cstr) list"
  M_parser_read_decimal :: "parser \<Rightarrow> (M_decimal \<times> parser) option"
  M_decimal_to_int :: "M_decimal \<Rightarrow> nat \<Rightarrow> u64"
  M_getopt_help :: "getopt_option list \<Rightarrow> string"
  M_tls_clientctx_set_cert_files :: "string \<Rightarrow> string \<Rightarrow> bool"
  M_tls_clientctx_set_trust_ca_dir :: "string \<Rightarrow> bool"
  M_tls_clientctx_set_verify_level :: "M_tls_verify_level_t \<Rightarrow> bool"
  \<comment> \<open>milliseconds from the second reading of the clock to the first\<close>
  M_time_elapsed :: "u64 \<Rightarrow> u64 \<Rightarrow> u64"
  \<comment> \<open>\<open>%.2f\<close> of \<open>(double)n / 100.00\<close>, and of \<open>(double)n / ((double)ms / 1000.0)\<close>\<close>
  M_printf_cents :: "u64 \<Rightarrow> string"
  M_printf_rate :: "u64 \<Rightarrow> u64 \<Rightarrow> string"

section \<open>The C library\<close>

text \<open>\<open>%02llu\<close>, \<open>%010llu\<close>: padded with zeros; \<open>%*s\<close> of one blank: padded with blanks.\<close>

definition zero_pad :: "nat \<Rightarrow> string \<Rightarrow> string" where
  "zero_pad k s = replicate (k - length s) (CHR ''0'') @ s"

definition blank_pad :: "nat \<Rightarrow> string \<Rightarrow> string" where
  "blank_pad k s = replicate (k - length s) (CHR '' '') @ s"

definition LF :: string where "LF = [CHR 0x0A]"
definition CRLF :: string where "CRLF = [CHR 0x0D, CHR 0x0A]"

definition RAND_MAX :: u64 where "RAND_MAX = 0x7FFFFFFF"
definition M_UINT16_MAX :: u64 where "M_UINT16_MAX = 0xFFFF"
definition SIZE_MAX :: u64 where "SIZE_MAX = 0xFFFFFFFFFFFFFFFF"

text \<open>\<open>M_snprintf\<close> into an array of that size.\<close>

definition snprintf_n :: "nat \<Rightarrow> string \<Rightarrow> string" where
  "snprintf_n n s = take (n - 1) s"

text \<open>An amount in cents, \<open>%llu.%02llu\<close> of \<open>n/100\<close> and \<open>n%100\<close>.\<close>

definition print_amount :: "u64 \<Rightarrow> string" where
  "print_amount n = decimal (unat (n div 100)) @ ''.'' @ zero_pad 2 (decimal (unat (n mod 100)))"

lemma length_decimal: "n < 10 ^ Suc k \<Longrightarrow> length (decimal n) \<le> Suc k"
proof (induction k arbitrary: n)
  case 0
  then show ?case by (simp add: decimal.simps [of n])
next
  case (Suc k)
  show ?case
  proof (cases "n < 10")
    case False
    with Suc.prems have "n div 10 < 10 ^ Suc k" by (simp add: less_mult_imp_div_less)
    from Suc.IH [OF this] False show ?thesis by (simp add: decimal.simps [of n])
  qed (simp add: decimal.simps [of n])
qed

lemma unat_u64: "unat (x :: u64) < 10 ^ 20"
  using unsigned_less [of x, where 'a = nat] by simp

section \<open>What the documentation promises\<close>

fun split_on :: "char \<Rightarrow> string \<Rightarrow> string list" where
  "split_on d [] = [[]]"
| "split_on d (b # bs) =
     (if b = d then [] # split_on d bs
      else case split_on d bs of [] \<Rightarrow> [[b]] | w # ws \<Rightarrow> (b # w) # ws)"

definition plain :: "string \<Rightarrow> bool" where
  "plain s \<longleftrightarrow> (\<forall>ch \<in> set s. ch \<noteq> CHR 0x22 \<and> ch \<noteq> CHR 0x5C \<and> ch \<noteq> CHR '' '' \<and> 32 < (of_char ch :: nat))"

locale app_string_api =
  fixes L :: mstd and A :: mstd_app
  assumes str_len [simp]: "M_str_len A (Some s) = length s" "M_str_len A None = 0"
    and str_safe [simp]: "M_str_safe A (Some s) = s" "M_str_safe A None = []"
    and printf_s [simp]: "M_printf_s A (Some s) = s"
    and str_cpy: "length s < n \<Longrightarrow> M_str_cpy A n old s = s"
    and caseeq_max: "M_str_caseeq_max A (Some a) (Some b) n \<longleftrightarrow> lowers (take n a) = lowers (take n b)"
    and explode_str: "s \<noteq> [] \<Longrightarrow> M_str_explode_str A d (Some s) = split_on d s"
    and explode_null [simp]: "M_str_explode_quoted_null A = None"
    and explode_plain: "plain s \<Longrightarrow> s \<noteq> [] \<Longrightarrow>
      M_str_explode_quoted L d s (CHR 0x22) (CHR 0x5C) 0 = Some (split_on d s)"
    and unquote_plain: "plain s \<Longrightarrow> M_strdup_unquote A s (CHR 0x22) (CHR 0x5C) = s"

locale app_list_api =
  fixes A :: mstd_app
  assumes llist_len [simp]: "M_llist_len A l = length l"
    and llist_take_node [simp]: "M_llist_take_node A l x = remove1 x l"
    and list_str [simp]: "M_list_str_insert A ks k = ks @ [k]" "M_list_str_len A ks = length ks"
      "i < length ks \<Longrightarrow> M_list_str_at A ks i = ks ! i"
    and list_dict [simp]: "M_list_dict_insert A ds d = ds @ [d]" "M_list_dict_len A ds = length ds"
      "i < length ds \<Longrightarrow> M_list_dict_at A ds i = ds ! i"
      "M_list_dict_take_first A [] = (None, [])"
      "M_list_dict_take_first A (d # ds) = (Some d, ds)"

text \<open>
  No two keys of a dictionary are equal up to case; every function keeps that. A merge takes
  every pair of the second dictionary over into the first. Enumerating an ordered dictionary
  gives each key once, with its value.
\<close>

definition dict_wf :: "mstd \<Rightarrow> dict \<Rightarrow> bool" where
  "dict_wf L d \<longleftrightarrow> distinct (map lowers (M_hash_dict_keys L (Some d)))"

definition has_key :: "mstd \<Rightarrow> dict \<Rightarrow> string \<Rightarrow> bool" where
  "has_key L d k \<longleftrightarrow> lowers k \<in> lowers ` set (M_hash_dict_keys L (Some d))"

locale app_dict_api =
  fixes L :: mstd and A :: mstd_app
  assumes wf_empty [simp]: "dict_wf L []"
    and wf_insert [simp]: "dict_wf L d \<Longrightarrow> dict_wf L (M_hash_dict_insert L d k v)"
    and wf_merge [simp]: "dict_wf L d \<Longrightarrow> dict_wf L e \<Longrightarrow> dict_wf L (M_hash_dict_merge A d e)"
    and wf_remove [simp]: "dict_wf L d \<Longrightarrow> dict_wf L (M_hash_dict_remove A d k)"
    and get_merge: "dict_wf L e \<Longrightarrow>
      M_hash_dict_get_direct L (Some (M_hash_dict_merge A d e)) k =
        (if has_key L e k then M_hash_dict_get_direct L (Some e) k
         else M_hash_dict_get_direct L (Some d) k)"
    and has_key_merge: "dict_wf L e \<Longrightarrow>
      has_key L (M_hash_dict_merge A d e) k \<longleftrightarrow> has_key L d k \<or> has_key L e k"
    and get_remove: "dict_wf L d \<Longrightarrow>
      M_hash_dict_get_direct L (Some (M_hash_dict_remove A d k)) k' =
        (if lowers k' = lowers k then None else M_hash_dict_get_direct L (Some d) k')"
    and has_key_remove: "dict_wf L d \<Longrightarrow>
      has_key L (M_hash_dict_remove A d k) k' \<longleftrightarrow> has_key L d k' \<and> lowers k' \<noteq> lowers k"
    and enum_get: "dict_wf L d \<Longrightarrow> (k, v) \<in> set (M_hash_dict_enumerate A d) \<Longrightarrow>
      M_hash_dict_get_direct L (Some d) k = v"
    and enum_keys: "set (map fst (M_hash_dict_enumerate A d)) = set (M_hash_dict_keys L (Some d))"
    and enum_distinct: "dict_wf L d \<Longrightarrow> distinct (map fst (M_hash_dict_enumerate A d))"
    and num_keys: "M_hash_dict_num_keys L (Some d) = 0 \<longleftrightarrow> (\<forall>k. \<not> has_key L d k)"
    and get_none: "\<not> has_key L d k \<Longrightarrow> M_hash_dict_get_direct L (Some d) k = None"

locale app_api = mstd_rand_api L + app_string_api L A + app_list_api A + app_dict_api L A
  for L :: mstd and A :: mstd_app

text \<open>
  The parser hands the options to the callbacks one after the other, each with the state the
  ones before it left, and stops at the first that is refused. It succeeds only when all were
  accepted.
\<close>

fun handle_items :: "(getopt_item \<Rightarrow> 'o \<Rightarrow> bool \<times> 'o) \<Rightarrow> getopt_item list \<Rightarrow> 'o \<Rightarrow> bool \<times> 'o" where
  "handle_items h [] st = (True, st)"
| "handle_items h (i # is) st =
     (case h i st of (ok, st) \<Rightarrow> if ok then handle_items h is st else (False, st))"

locale getopt_api =
  fixes parse :: "'o getopt_parse"
  assumes parse_items: "parse specs h argv fail st = (err, fail', st') \<Longrightarrow>
    \<exists>is ok. handle_items h is st = (ok, st') \<and> (err = M_GETOPT_ERROR_SUCCESS \<longrightarrow> ok)"
begin

text \<open>What every accepted option keeps, holds after the whole command line.\<close>

lemma parse_invariant:
  assumes "parse specs h argv fail st = (M_GETOPT_ERROR_SUCCESS, fail', st')" "P st"
    and "\<And>i st st'. h i st = (True, st') \<Longrightarrow> P st \<Longrightarrow> P st'"
  shows "P st'"
proof -
  obtain "is" where "handle_items h is st = (True, st')" using parse_items [OF assms(1)] by auto
  then show ?thesis
    using assms(2)
    by (induction "is" arbitrary: st) (auto split: prod.splits if_splits intro: assms(3))
qed

end

end
