(* ===== verification/Cli_Tables.thy ===== *)
theory Cli_Tables
  imports LM_Prelude
begin

text \<open>
  The two tables of \<open>apps/monetra_cli/src/cli_opts.c\<close>, without their terminating entry: the
  test cards and the actions, each a name and the key/value pairs it stands for.
\<close>

definition CARDS :: "(string \<times> string) list" where
  \<open>CARDS =
    [(''visa'', ''trackdata="%B4111111111111111^TEST CARD/VI^25121015432112345678?;4111111111111111=25121015432112345678?"''),
     (''visa_keyed'', ''account=4111111111111111,expdate=1220''),
     (''visa_icc'', ''icc=4F07A0000000031010500B564953412043524544495457134761739001010010D22122011143804400000F5A0847617390010100105F201A554154205553412F5465737420436172642030342020202020205F24032212315F280208405F2A0208405F2D02656E5F300202015F34010182021C008407A0000000031010950580800080009A031701059B0268009C01009F02060000000100009F03060000000000009F0607A00000000310109F0702FF009F0902008C9F100706010A03A020009F1101019F120B56697361204372656469749F1A0208409F1B04000000009F1E0838303338383535389F1F183131343338303434383930303030303030303030303030309F21030933379F2608D737017E33C786929F2701809F3303E0F8C89F34031F00029F3501229F360200E09F3704526F34219F3901059F4005F000F0F0019F4104000000039F530152''),
     (''mc'', ''trackdata=";5454545454545454=25021015432112345678?"''),
     (''mc_keyed'', ''account=5454545454545454,expdate=1120''),
     (''mc_icc'', ''icc=4F07A0000000041010500A4D41535445524341524457135413330089604111D22122010123409172029F5A0854133300896041115F201A554154205553412F5465737420436172642030362020202020205F24032212315F280208405F2A0208405F2D02656E5F300202015F340101820218008407A0000000041010950580000080009A031701059B0268009C01009F02060000000110009F03060000000000009F0607A00000000410109F0702FF009F090200029F10120110A00003220000000000000000000000FF9F1101019F120A4D6173746572436172649F1A0208409F1B04000000009F1E0838303338383535389F1F183031323334303931373230303030303030303030303030309F21030937149F2608EEC06DB6F736A06B9F2701809F3303E0F8C89F34035E03009F3501229F360200229F37048DFE9D539F3901059F4005F000F0F0019F4104000000049F420208409F530152''),
     (''mc2'', ''trackdata="%B2222333344445553^TEST CARD/MC2^25021015432112345678?;2222333344445553=25021015432112345678?"''),
     (''mc2_keyed'', ''account=2222333344445553,expdate=1020''),
     (''amex'', ''trackdata="%B371449635398431^TEST CARD/AX^25021015432112345678?;371449635398431=25021015432112345678?"''),
     (''amex_keyed'', ''account=371449635398431,expdate=0920''),
     (''amex_icc'', ''icc=4F08A0000000250104025010414D45524943414E20455850524553535713374245001751006D200120115021234500000F5A08374245001751006F5F201A554154205553412F5465737420436172642031322020202020205F24032001315F280208405F2A0208405F2D02656E5F300202015F34010082021C008408A0000000250104029505800004800099244141443242423133313845453943393246464646303030303030303030303030303034429A031701059B0268009C01009F02060000000130009F03060000000000009F0608A0000000250104029F0702FF009F090200019F100706020103A0B8009F1101019F1210416D65726963616E20457870726573739F1A0208409F1B04000000009F1E0838303338383535389F21030952059F2608A872B84AA7D893319F2701809F3303E0F8C89F34034203009F3501229F360200049F3704F51F1E669F3901059F4005F000F0F0019F4104000000089F420208409F530152''),
     (''disc'', ''trackdata="%B6011000995500000^TEST CARD/DI^25021015432112345678?;6011000995500000=25021015432112345678?"''),
     (''disc_keyed'', ''account=6011000995500000,expdate=0820''),
     (''disc_icc'', ''icc=4F07A00000015230105008444953434F56455257136510000000000216D19122011000074900000F5A0865100000000002165F201A554154205553412F5465737420436172642031362020202020205F24031912315F280208405F2A0208405F2D02656E5F300202015F340101820218008407A0000001523010950580000080009A031701059B0268009C01009F02060000000120009F03060000000000009F0607A00000015230109F0702FF009F090200019F10080106A014090000009F1101019F12064372656469749F1A0208409F1B04000000009F1E0838303338383535389F21030941049F260878FD76F778D1613C9F2701809F3303E0F8C89F34034103029F3501229F360200089F37046B673ECF9F3901059F4005F000F0F0019F4104000000059F530152''),
     (''jcb'', ''trackdata="%B3566002020140006^TEST CARD/JC^18021015432112345678?;3566002020140006=18021015432112345678?"''),
     (''jcb_keyed'', ''account=3566002020140006,expdate=0720''),
     (''gift'', ''trackdata="%B6035710110009768^GIFT CARD^240512000000457000?;6035710110009768=240512000000457?"''),
     (''gift_keyed'', ''account=6035710110009768,expdate=0620''),
     (''generic'', ''trackdata="%B9999999800009919^TESTCARD/GENERIC^49127990000000000101?;9999999800009919=49127990000000000101?"''),
     (''generic_keyed'', ''account=9999999800009919,expdate=0520'')]\<close>

definition ACTIONS :: "(string \<times> string) list" where
  \<open>ACTIONS =
    [(''bt'', ''action=admin,admin=bt''),
     (''gl'', ''action=admin,admin=gl''),
     (''gut'', ''action=admin,admin=gut''),
     (''gft'', ''action=admin,admin=gft''),
     (''recurringlist'', ''action=admin,admin=recurringlist''),
     (''sale'', ''action=sale,trackdata="%B4111111111111111^TEST CARD/VI^25121015432112345678?;4111111111111111=25121015432112345678?",amount=1.00,nsf=yes''),
     (''sale_partial'', ''action=sale,trackdata="%B5454545454545454^TEST CARD/MC^25121015432112345678?;5454545454545454=25121015432112345678?",amount=6.75,nsf=yes''),
     (''sale_corp'', ''action=sale,trackdata="%B4055011111111111^TEST CARD/VI^25101015432112345678?;4055011111111111=25101015432112345678?",amount=2.00''),
     (''sale_gift'', ''action=sale,trackdata="%B6035710110009768^GIFT CARD^240512000000457000?;6035710110009768=240512000000457?",amount=99.00''),
     (''sale_debit'', ''action=sale,pin=1234567891123456,ksn=6543210987654321,trackdata=";4788250000028291=25121015432112345601?",amount=3.00,nsf=yes''),
     (''sale_debit_partial'', ''action=sale,pin=1234567891123456,ksn=6543210987654321,trackdata=";4788250000028291=25121015432112345601?",amount=6.76,nsf=yes''),
     (''sale_keyed'', ''action=sale,account=4111111111111111,expdate=1225,amount=1.00,zip=99999,nsf=yes''),
     (''sale_keyed_partial'', ''action=sale,account=5454545454545454,expdate=1225,amount=6.75,zip=32606,cvv=123,nsf=yes''),
     (''sale_keyed_gift'', ''action=sale,account=6035710110009768,amount=40.00,nsf=yes''),
     (''return'', ''action=return,trackdata=%B4111111111111111^TEST CARD/VI^25121015432112345678?,amount=4.00''),
     (''return_keyed'', ''action=return,account=5454545454545454,amount=4.50,expdate=1225,zip=32606''),
     (''sale_emv_visa'', ''action=sale,amount=100.00,nsf=yes,serialnum=80388558,device_kernver=0526,icc=4F07A0000000031010500B564953412043524544495457134761739001010010D22122011143804400000F5A0847617390010100105F201A554154205553412F5465737420436172642030342020202020205F24032212315F280208405F2A0208405F2D02656E5F300202015F34010182021C008407A0000000031010950580800080009A031701059B0268009C01009F02060000000100009F03060000000000009F0607A00000000310109F0702FF009F0902008C9F100706010A03A020009F1101019F120B56697361204372656469749F1A0208409F1B04000000009F1E0838303338383535389F1F183131343338303434383930303030303030303030303030309F21030933379F2608D737017E33C786929F2701809F3303E0F8C89F34031F00029F3501229F360200E09F3704526F34219F3901059F4005F000F0F0019F4104000000039F530152''),
     (''sale_emv_visa_complete'', ''action=emvcomplete,icc=4F07A0000000031010500B564953412043524544495457134761739001010010D22122011143804400000F5F280208405F2A0208405F34010182021C008407A00000000310108A0230308E0A00000000000000001F00910A31601013A1374EE13030950580800080009A031701059B0278009C01009F02060000000100009F03060000000000009F0607A00000000310109F0702FF009F080200969F0902008C9F0D05B0508088009F0E0500000000009F0F05B0508098009F100706010A036020009F1101019F120B56697361204372656469749F1A0208409F1B04000000009F1E0838303338383535389F1F183131343338303434383930303030303030303030303030309F21030933379F26080805208B71AF91CB9F2701409F3303E0F8C89F34031F00029F3501229F360200E09F3704526F34219F3901059F4005F000F0F0019F4104000000039F530152''),
     (''sale_emv_mc'', ''action=sale,amount=110.00,nsf=yes,serialnum=80388558,device_kernver=0526,icc=4F07A0000000041010500A4D41535445524341524457135413330089604111D22122010123409172029F5A0854133300896041115F201A554154205553412F5465737420436172642030362020202020205F24032212315F280208405F2A0208405F2D02656E5F300202015F340101820218008407A0000000041010950580000080009A031701059B0268009C01009F02060000000110009F03060000000000009F0607A00000000410109F0702FF009F090200029F10120110A00003220000000000000000000000FF9F1101019F120A4D6173746572436172649F1A0208409F1B04000000009F1E0838303338383535389F1F183031323334303931373230303030303030303030303030309F21030937149F2608EEC06DB6F736A06B9F2701809F3303E0F8C89F34035E03009F3501229F360200229F37048DFE9D539F3901059F4005F000F0F0019F4104000000049F420208409F530152''),
     (''sale_emv_mc_complete'', ''action=emvcomplete,icc=4F07A0000000041010500A4D41535445524341524457135413330089604111D22122010123409172029F5F280208405F2A0208405F340101820218008407A00000000410108A0230308E0E000000000000000042015E031F03950580000080009A031701059B0268009C01009F02060000000110009F03060000000000009F0607A00000000410109F0702FF009F080200029F090200029F0D05B0509C80009F0E0500000000009F0F05B0709C98009F10120110600003220000000000000000000000FF9F1101019F120A4D6173746572436172649F1A0208409F1B04000000009F1E0838303338383535389F1F183031323334303931373230303030303030303030303030309F21030937149F2608936A5847ED6CEA6B9F2701409F3303E0F8C89F34035E03009F3501229F360200229F37048DFE9D539F3901059F4005F000F0F0019F4104000000049F420208409F530152''),
     (''sale_emv_disc'', ''action=sale,amount=120.00,nsf=yes,serialnum=80388558,device_kernver=0526,icc=4F07A00000015230105008444953434F56455257136510000000000216D19122011000074900000F5A0865100000000002165F201A554154205553412F5465737420436172642031362020202020205F24031912315F280208405F2A0208405F2D02656E5F300202015F340101820218008407A0000001523010950580000080009A031701059B0268009C01009F02060000000120009F03060000000000009F0607A00000015230109F0702FF009F090200019F10080106A014090000009F1101019F12064372656469749F1A0208409F1B04000000009F1E0838303338383535389F21030941049F260878FD76F778D1613C9F2701809F3303E0F8C89F34034103029F3501229F360200089F37046B673ECF9F3901059F4005F000F0F0019F4104000000059F530152''),
     (''sale_emv_disc_complete'', ''action=emvcomplete,icc=4F07A00000015230105008444953434F56455257136510000000000216D19122011000074900000F5F280208405F2A0208405F340101820218008407A00000015230108A0230308E0E0000000000000000420141031F03950580000080009A031701059B0268009C01009F02060000000120009F03060000000000009F0607A00000015230109F0702FF009F080200019F090200019F0D053040E428009F0E0500100000409F0F053068C4F8009F100801066014090000009F1101019F12064372656469749F1701099F1A0208409F1B04000000009F1E0838303338383535389F21030941049F26085A1AB89B5346A7B39F2701409F3303E0F8C89F34034103029F3501229F360200089F37046B673ECF9F3901059F4005F000F0F0019F4104000000059F530152''),
     (''sale_emv_disc_reversal'', ''action=reversal,reversal_reason=CARDDECLINE,serialnum=80388558,device_kernver=0526,icc=4F07A00000015230105008444953434F56455257136510000000000216D19122011000074900000F5F280208405F2A0208405F340101820218008407A00000015230108A0230308E0E0000000000000000420141031F03910AFFFFFFFFFFFFFFFFFFFF950580000080009A031701059B0268009C01009F02060000000009059F03060000000000009F0607A00000015230109F0702FF009F080200019F090200019F0D053040E428009F0E0500100000409F0F053068C4F8009F100801062014096000009F1101019F12064372656469749F1701099F1A0208409F1B04000000009F1E0838303338383535389F21030943569F260886EC57E7357319F19F2701009F3303E0F8C89F34034103029F3501229F3602000A9F3704CC85E77D9F3901059F4005F000F0F0019F4104000000079F530152''),
     (''sale_emv_amex'', ''action=sale,amount=130.00,nsf=yes,ordernum=2011,serialnum=80388558,device_kernver=0526,icc=4F08A0000000250104025010414D45524943414E20455850524553535713374245001751006D200120115021234500000F5A08374245001751006F5F201A554154205553412F5465737420436172642031322020202020205F24032001315F280208405F2A0208405F2D02656E5F300202015F34010082021C008408A0000000250104029505800004800099244141443242423133313845453943393246464646303030303030303030303030303034429A031701059B0268009C01009F02060000000130009F03060000000000009F0608A0000000250104029F0702FF009F090200019F100706020103A0B8009F1101019F1210416D65726963616E20457870726573739F1A0208409F1B04000000009F1E0838303338383535389F21030952059F2608A872B84AA7D893319F2701809F3303E0F8C89F34034203009F3501229F360200049F3704F51F1E669F3901059F4005F000F0F0019F4104000000089F420208409F530152''),
     (''sale_emv_amex_complete'', ''action=emvcomplete,icc=4F08A0000000250104025010414D45524943414E20455850524553535713374245001751006D200120115021234500000F5F280208405F2A0208405F34010082021C008408A0000000250104028A0230308E100000000000000000420142035E035F03910A232730100C0571103030950580000480009A031701059B0278009C01009F02060000000130009F03060000000000009F0608A0000000250104029F0702FF009F080200019F090200019F0D05B050DC98009F0E0500000000009F0F05B078DC98009F10070602010360B8009F1101019F1210416D65726963616E20457870726573739F1A0208409F1B04000000009F1E0838303338383535389F21030952059F2608F5DBEF1AEE749CD69F2701409F3303E0F8C89F34034203009F3501229F360200049F3704F51F1E669F3901059F4005F000F0F0019F4104000000089F420208409F530152''),
     (''sale_emv_dna'', ''action=sale,amount=140.00,nsf=yes,serialnum=80388558,device_kernver=0526,icc=4F07A00000062006205003444E4157134000000000000002D19122011000074900000F5A0840000000000000025F201A554154205553412F5445535420434152442031382020202020205F24031912315F280208405F2A0208405F2D02656E5F300202015F340101820218008407A00000062006209505800004800099244442444132314236453246423933434546464646303030303030303030303030303034439A031701059B0268009C01009F02060000000140009F03060000000000009F0607A00000062006209F0702FF009F090200019F10080106A000034000009F1101019F120544656269749F1A0208409F1B04000000009F1E0838303338383535389F21030953399F26081661E82FC5351B719F2701809F3303E0F8C89F34030203009F3501229F360200599F3704A44C049C9F3901059F4005F000F0F0019F4104000000099F530152''),
     (''sale_emv_dna_complete'', ''action=emvcomplete,icc=4F07A00000062006205003444E4157134000000000000002D19122011000074900000F5F280208405F2A0208405F340101820218008407A00000062006208A0230308E1000000000000000000201020402031F03950580000480009A031701059B0268009C01009F02060000000140009F03060000000000009F0607A00000062006209F0702FF009F080200019F090200019F0D05F040E428009F0E0500100000409F0F05F068FCF8009F100801066000034000009F1101019F120544656269749F1A0208409F1B04000000009F1E0838303338383535389F21030953399F2608F832980FCB3358A19F2701409F3303E0F8C89F34030203009F3501229F360200599F3704A44C049C9F3901059F4005F000F0F0019F4104000000099F530152''),
     (''return_emv_visa'', ''action=return,amount=200.00,serialnum=80388558,device_kernver=0526,icc=4F07A0000000031010500B564953412043524544495457134761739001010119D22122011143804400000F5A0847617390010101195F201A554154205553412F5465737420436172642030332020202020205F24032212315F280208405F2D02656E5F300202015F3401018407A00000000310109F0702FF009F1101019F120B56697361204372656469749F1A0208409F1B04000000009F1E0838303338383535389F1F183131343338303434303030303030303030303030303030309F390105''),
     (''return_emv_dna'', ''action=return,amount=210.00,serialnum=80388558,device_kernver=0526,icc=4F07A00000062006205003444E4157134000000000000002D19122011000074900000F5A0840000000000000025F201A554154205553412F5445535420434152442031382020202020205F24031912315F280208405F2A0208405F2D02656E5F300202015F340101820218008407A00000062006209505800004800099243338423841373030433041343841413446464646303030303030303030303030303034449A031701059B0268009C01209F02060000000210009F03060000000000009F0607A00000062006209F0702FF009F090200019F10080106A000034000009F1101019F120544656269749F1A0208409F1B04000000009F1E0838303338383535389F21030954419F260806151098D7A9230A9F2701809F3303E0F8C89F34030203009F3501229F3602005A9F3704B5FD9A709F3901059F4005F000F0F0019F4104000000109F530152''),
     (''return_emv_dna_complete'', ''action=emvcomplete,icc=4F07A00000062006205003444E4157134000000000000002D19122011000074900000F5F280208405F2A0208405F340101820218008407A00000062006208A0230308E1000000000000000000201020402031F03950580000480009A031701059B0268009C01209F02060000000210009F03060000000000009F0607A00000062006209F0702FF009F080200019F090200019F0D05F040E428009F0E0500100000409F0F05F068FCF8009F100801066000034000009F1101019F120544656269749F1A0208409F1B04000000009F1E0838303338383535389F21030954419F2608FDE63CEFE17536BE9F2701409F3303E0F8C89F34030203009F3501229F3602005A9F3704B5FD9A709F3901059F4005F000F0F0019F4104000000109F530152''),
     (''sale_emv_cless_amex'', ''action=sale,amount=300.00,rfid=yes,nsf=yes,ordernum=7490000001,serialnum=80388558,device_kernver=0526,icc=5010414D45524943414E20455850524553535713374245001751006D200170215021234500000F5A08374245001751006F5F201A554154205553412F5465737420436172642031322020202020205F24032001315F2A0208405F2D02656E5F300202015F34010082021C808408A000000025010402950580000080009A031701059B0268009C01009F02060000000300009F03060000000000009F0606A000000025019F07023D009F090200019F100706020103A020009F1210416D65726963616E20457870726573739F1A0208409F1B04000000009F1E0838303338383535389F21030958019F2608A194047D43CC50CC9F2701809F3303E068C89F34035E03009F3501229F360200059F3704E25319DE9F3901079F4005F000F0F0019F4104000000059F6E04D8B04000''),
     (''sale_emv_cless_mc'', ''action=sale,amount=310.00,rfid=yes,nsf=yes,serialnum=80388558,device_kernver=0526,icc=500A4D41535445524341524457135413330089604111D22122010123409172029F5A0854133300896041115F24032212315F2A0208405F2D02656E5F340101820219808407A0000000041010950500000080009A031701059C01009F02060000000310009F03060000000000009F0702FF009F090200029F10120111A04009220000000000000000000000FF9F1101019F120A4D6173746572436172649F1A0208409F1E0838303338383535389F21030959299F2608C988F5EE999922D79F2701809F3303E060089F34035E03009F3501229F360200049F37044A7275FB9F3901079F4005F000F0F0019F4104000000069F5301529F6E200840000030300000000000000000000000000000000000000000000000000000''),
     (''sale_emv_cless_visa'', ''action=sale,amount=320.00,rfid=yes,nsf=yes,serialnum=80388558,device_kernver=0526,icc=500B564953412043524544495457134761739001010119D22122011143804400000F5A0847617390010101195F24032212315F2A0208405F2D02656E5F340101820220008407A0000000031010950500000000009A031705159C01009F02060000000320009F03060000000000009F0607A00000000310109F100706010A03A000009F1A0208409F1E0838303338383535389F21030814549F26089F40A8DEC8D343349F2701809F3303E0F8C89F34031E03009F3501229F360200369F3704F3619C609F3901079F4005F000F0F0019F4104000000029F6604B7C040009F6C0278009F6E0420700000''),
     (''return_emv_cless_disc'', ''action=return,amount=400.00,rfid=yes,serialnum=80388558,device_kernver=0526,icc=500B444953434F56455220434C57136510000000000216D19122011000074900000F5A0865100000000002165F24031912315F2A0208405F2D02656E5F300202015F340101820218008407A00000015230109505800004800099244333383937334342394330444646323546464646303030303030303030303030303034459A031701059B0248009C01209F02060000000400009F03060000000000009F0702FF009F090200019F100A010F20B080100000B8009F1101019F120B446973636F76657220434C9F1A0208409F1E0838303338383535389F21031000329F26089DA7FEF1B0C4A9E29F2701809F3303E068C89F34030203009F3501229F3602000B9F370434AB10EF9F3901079F4005F000F0F0019F410400000008'')]\<close>

end
