(* ===== verification/Cli_Opts.thy ===== *)
theory Cli_Opts
  imports App_Std Cli_Tables
begin

text \<open>
  The options of \<open>monetra_cli\<close> (\<open>apps/monetra_cli/src/cli_opts.c\<close> and \<open>monetra_cli.h\<close>): the
  collected options, the callbacks that take one option each, the key/value lists of the command
  line, and the help text. Memory is not modelled here: a string that is freed and replaced is
  replaced.
\<close>

section \<open>Data\<close>

definition DEFAULT_USERNAME :: string where "DEFAULT_USERNAME = ''loopback''"
definition DEFAULT_PASSWORD :: string where "DEFAULT_PASSWORD = ''test123''"
definition DEFAULT_HOST :: string where "DEFAULT_HOST = ''localhost''"
definition DEFAULT_PORT_USER :: u16 where "DEFAULT_PORT_USER = 8665"
definition DEFAULT_PORT_ADMIN :: u16 where "DEFAULT_PORT_ADMIN = 8666"

record cli_opts_t =
  o_username :: cstr
  o_password :: cstr
  o_host :: cstr
  o_port :: u16
  o_keyfile :: cstr
  o_certfile :: cstr
  o_cadir :: cstr
  o_certvalidation :: M_tls_verify_level_t
  o_action_kvs :: cstr
  o_send_pinksn :: bool
  o_card :: dict
  o_man_kvs :: dict
  o_remove_keys :: "string list"
  o_kvs :: dict
  o_dup :: u64
  o_min_amount :: u64
  o_max_amount :: u64
  o_send_serial :: bool
  o_help :: bool
  o_port_set :: bool
  o_enable_trace :: bool

definition cli_opts_create :: cli_opts_t where
  "cli_opts_create =
     \<lparr>o_username = Some DEFAULT_USERNAME, o_password = Some DEFAULT_PASSWORD,
      o_host = Some DEFAULT_HOST, o_port = DEFAULT_PORT_USER, o_keyfile = None,
      o_certfile = None, o_cadir = None, o_certvalidation = M_TLS_VERIFY_NONE,
      o_action_kvs = None, o_send_pinksn = False, o_card = [], o_man_kvs = [],
      o_remove_keys = [], o_kvs = [], o_dup = 1, o_min_amount = 0, o_max_amount = 0,
      o_send_serial = False, o_help = False, o_port_set = False, o_enable_trace = False\<rparr>"

section \<open>Key/value lists\<close>

definition QUOTE :: char where "QUOTE = CHR 0x22"
definition BACKSLASH :: char where "BACKSLASH = CHR 0x5C"

fun load_kvs_parts :: "mstd \<Rightarrow> mstd_app \<Rightarrow> dict \<Rightarrow> string list \<Rightarrow> dict" where
  "load_kvs_parts L A kvs [] = kvs"
| "load_kvs_parts L A kvs (part # parts) =
     (let temp1 = M_strdup_unquote A part QUOTE BACKSLASH in
      case M_str_explode_quoted L (CHR ''='') temp1 QUOTE BACKSLASH 0 of
        None \<Rightarrow> kvs
      | Some kv_parts \<Rightarrow>
          if length kv_parts \<noteq> 2 then load_kvs_parts L A kvs parts
          else
            let temp1 = M_strdup_unquote A (kv_parts ! 0) QUOTE BACKSLASH;
                temp2 = M_strdup_unquote A (kv_parts ! 1) QUOTE BACKSLASH
            in load_kvs_parts L A (M_hash_dict_insert L kvs temp1 (Some temp2)) parts)"

text \<open>Splitting a string that may be NULL.\<close>

definition explode_commas :: "mstd \<Rightarrow> mstd_app \<Rightarrow> cstr \<Rightarrow> string list option" where
  "explode_commas L A s =
     (case s of
        None \<Rightarrow> M_str_explode_quoted_null A
      | Some s \<Rightarrow> M_str_explode_quoted L (CHR '','') s QUOTE BACKSLASH 0)"

definition cli_opts_load_kvs :: "mstd \<Rightarrow> mstd_app \<Rightarrow> dict \<Rightarrow> cstr \<Rightarrow> dict" where
  "cli_opts_load_kvs L A kvs s =
     (case explode_commas L A s of
        None \<Rightarrow> kvs
      | Some kvs_parts \<Rightarrow> if kvs_parts = [] then kvs else load_kvs_parts L A kvs kvs_parts)"

definition cli_opts_load_rkeys :: "mstd \<Rightarrow> mstd_app \<Rightarrow> string list \<Rightarrow> cstr \<Rightarrow> string list" where
  "cli_opts_load_rkeys L A keys s =
     (case explode_commas L A s of
        None \<Rightarrow> keys
      | Some parts \<Rightarrow> if parts = [] then keys else foldl (M_list_str_insert A) keys parts)"

definition cli_opts_load_pinksn :: "mstd \<Rightarrow> dict \<Rightarrow> bool \<Rightarrow> dict" where
  "cli_opts_load_pinksn L kvs send =
     (if \<not> send then kvs
      else
        let kvs = M_hash_dict_insert L kvs ''pin'' (Some ''1234567890123456'')
        in M_hash_dict_insert L kvs ''ksn'' (Some ''6543210987654321''))"

definition cli_opts_merge_kvs :: "mstd \<Rightarrow> mstd_app \<Rightarrow> cli_opts_t \<Rightarrow> bool \<times> cli_opts_t" where
  "cli_opts_merge_kvs L A opts =
     (if M_str_isempty L (o_action_kvs opts) \<and> M_hash_dict_num_keys L (Some (o_man_kvs opts)) = 0
      then (False, opts)
      else
        let kvs = cli_opts_load_kvs L A (o_kvs opts) (o_action_kvs opts);
            kvs = cli_opts_load_pinksn L kvs (o_send_pinksn opts);
            kvs = M_hash_dict_merge A kvs (M_hash_dict_duplicate L (o_card opts));
            kvs = M_hash_dict_merge A kvs (M_hash_dict_duplicate L (o_man_kvs opts))
        in (True, opts\<lparr>o_kvs := kvs\<rparr>))"

section \<open>The range of random amounts\<close>

definition cli_parse_random_amount ::
  "mstd \<Rightarrow> mstd_app \<Rightarrow> cli_opts_t \<Rightarrow> string \<Rightarrow> bool \<times> cli_opts_t" where
  "cli_parse_random_amount L A opts s =
     (case M_parser_read_decimal A \<lparr>p_mark = None, p_rest = s\<rparr> of
        None \<Rightarrow> (False, opts)
      | Some (dmin, p) \<Rightarrow>
          if M_parser_len L p = 0
          then (True, opts\<lparr>o_min_amount := 1, o_max_amount := M_decimal_to_int A dmin 2\<rparr>)
          else
            (case M_parser_read_byte L p of
               None \<Rightarrow> (False, opts)
             | Some (byte, p) \<Rightarrow>
                 if byte \<noteq> CHR '':'' then (False, opts)
                 else
                   (case M_parser_read_decimal A p of
                      None \<Rightarrow> (False, opts)
                    | Some (dmax, p) \<Rightarrow>
                        let opts = opts\<lparr>o_min_amount := M_decimal_to_int A dmin 2\<rparr>;
                            opts = opts\<lparr>o_max_amount := M_decimal_to_int A dmax 2 + 1\<rparr>
                        in
                          if o_min_amount opts > o_max_amount opts then (False, opts)
                          else if o_min_amount opts \<ge> 800 \<and> o_max_amount opts \<le> 899 then (False, opts)
                          else
                            let opts = (if o_min_amount opts \<ge> 800 \<and> o_min_amount opts \<le> 899
                                        then opts\<lparr>o_min_amount := 900\<rparr> else opts);
                                opts = (if o_max_amount opts \<ge> 800 \<and> o_max_amount opts \<le> 899
                                        then opts\<lparr>o_max_amount := o_min_amount opts + 1\<rparr> else opts)
                            in (True, opts))))"

section \<open>The callbacks\<close>

fun find_entry :: "mstd \<Rightarrow> cstr \<Rightarrow> (string \<times> string) list \<Rightarrow> cstr" where
  "find_entry L name [] = None"
| "find_entry L name ((n, v) # es) =
     (if M_str_caseeq L name (Some n) then Some v else find_entry L name es)"

definition cli_nonopt_cb :: "mstd \<Rightarrow> cstr \<Rightarrow> cli_opts_t \<Rightarrow> bool \<times> cli_opts_t" where
  "cli_nonopt_cb L option opts =
     (case find_entry L option ACTIONS of
        Some action \<Rightarrow> (True, opts\<lparr>o_action_kvs := Some action\<rparr>)
      | None \<Rightarrow> (False, opts))"

definition cli_integer_cb :: "mstd \<Rightarrow> cstr \<Rightarrow> u64 option \<Rightarrow> cli_opts_t \<Rightarrow> bool \<times> cli_opts_t" where
  "cli_integer_cb L long_opt integer opts =
     (case integer of
        None \<Rightarrow> (False, opts)
      | Some i \<Rightarrow>
          if sint i < 0 then (False, opts)
          else
            let val = i in
            if M_str_caseeq L long_opt (Some ''port'')
            then (True, opts\<lparr>o_port := ucast val, o_port_set := True\<rparr>)
            else if M_str_caseeq L long_opt (Some ''dup'')
            then (True, opts\<lparr>o_dup := val\<rparr>)
            else (False, opts))"

definition cert_validation_of :: "mstd \<Rightarrow> cstr \<Rightarrow> M_tls_verify_level_t option" where
  "cert_validation_of L s =
     (if M_str_caseeq L s (Some ''none'') then Some M_TLS_VERIFY_NONE
      else if M_str_caseeq L s (Some ''cert_only'') \<or> M_str_caseeq L s (Some ''only'')
      then Some M_TLS_VERIFY_CERT_ONLY
      else if M_str_caseeq L s (Some ''cert_fuzzy'') \<or> M_str_caseeq L s (Some ''fuzzy'')
      then Some M_TLS_VERIFY_CERT_FUZZY
      else if M_str_caseeq L s (Some ''full'') then Some M_TLS_VERIFY_FULL
      else None)"

definition cli_string_cb ::
  "mstd \<Rightarrow> mstd_app \<Rightarrow> cstr \<Rightarrow> cstr \<Rightarrow> cli_opts_t \<Rightarrow> bool \<times> cli_opts_t" where
  "cli_string_cb L A long_opt s opts =
     (let is = (\<lambda>name. M_str_caseeq L long_opt (Some name)) in
      if is ''username'' then (True, opts\<lparr>o_username := s\<rparr>)
      else if is ''password'' then (True, opts\<lparr>o_password := s\<rparr>)
      else if M_str_isempty L s then (False, opts)
      else if is ''host'' then (True, opts\<lparr>o_host := s\<rparr>)
      else if is ''keyfile'' then (True, opts\<lparr>o_keyfile := s\<rparr>)
      else if is ''certfile'' then (True, opts\<lparr>o_certfile := s\<rparr>)
      else if is ''cadir'' then (True, opts\<lparr>o_cadir := s\<rparr>)
      else if is ''cert_validation'' then
        (case cert_validation_of L s of
           Some v \<Rightarrow> (True, opts\<lparr>o_certvalidation := v\<rparr>)
         | None \<Rightarrow> (False, opts))
      else if is ''kvs'' then
        (True, opts\<lparr>o_man_kvs := cli_opts_load_kvs L A (o_man_kvs opts) s\<rparr>)
      else if is ''rkeys'' then
        (True, opts\<lparr>o_remove_keys := cli_opts_load_rkeys L A (o_remove_keys opts) s\<rparr>)
      else if is ''card'' then
        (case find_entry L s CARDS of
           Some v \<Rightarrow> (True, opts\<lparr>o_card := cli_opts_load_kvs L A (o_card opts) (Some v)\<rparr>)
         | None \<Rightarrow> (False, opts))
      else if is ''actions'' then (True, opts\<lparr>o_help := True\<rparr>)
      else if is ''random_amount'' then
        cli_parse_random_amount L A opts (case s of None \<Rightarrow> [] | Some t \<Rightarrow> t)
      else (False, opts))"

definition cli_bool_cb :: "mstd \<Rightarrow> cstr \<Rightarrow> bool \<Rightarrow> cli_opts_t \<Rightarrow> bool \<times> cli_opts_t" where
  "cli_bool_cb L long_opt b opts =
     (if M_str_caseeq L long_opt (Some ''help'') then (True, opts\<lparr>o_help := b\<rparr>)
      else if M_str_caseeq L long_opt (Some ''serial'') then (True, opts\<lparr>o_send_serial := True\<rparr>)
      else if M_str_caseeq L long_opt (Some ''pin-ksn'') then (True, opts\<lparr>o_send_pinksn := True\<rparr>)
      else if M_str_caseeq L long_opt (Some ''trace'') then (True, opts\<lparr>o_enable_trace := True\<rparr>)
      else (False, opts))"

text \<open>Which callback an item goes to: each is registered for all options of its kind.\<close>

fun cli_item :: "mstd \<Rightarrow> mstd_app \<Rightarrow> getopt_item \<Rightarrow> cli_opts_t \<Rightarrow> bool \<times> cli_opts_t" where
  "cli_item L A (Item_nonopt n s) opts = cli_nonopt_cb L s opts"
| "cli_item L A (Item_string sh l s) opts = cli_string_cb L A l s opts"
| "cli_item L A (Item_integer sh l i) opts = cli_integer_cb L l i opts"
| "cli_item L A (Item_decimal sh l d) opts = (False, opts)"
| "cli_item L A (Item_boolean sh l b) opts = cli_bool_cb L l b opts"

section \<open>The options the program has\<close>

definition cli_getopt :: "getopt_option list" where
  "cli_getopt =
    [Getopt_option Getopt_string (CHR ''u'') (Some ''username'') True
       ''Username to run the transaction as.'',
     Getopt_option Getopt_string (CHR ''p'') (Some ''password'') True ''Password to use.'',
     Getopt_option Getopt_string (CHR ''a'') (Some ''host'') True ''Host name of the server.'',
     Getopt_option Getopt_integer (CHR ''t'') (Some ''port'') True ''Port to connet to.'',
     Getopt_option Getopt_string (CHR 0x00) (Some ''keyfile'') True
       ''Key file to use when certificate restrictions are in place.'',
     Getopt_option Getopt_string (CHR 0x00) (Some ''certfile'') True
       ''Cert file to use when certificate restrictions are in place.'',
     Getopt_option Getopt_string (CHR 0x00) (Some ''cadir'') True
       ''Directory with PEM encoded CA root certificates that will be loaded.'',
     Getopt_option Getopt_string (CHR 0x00) (Some ''cert_validation'') True
       ''Level of SSL certificate validation.'',
     Getopt_option Getopt_string (CHR ''k'') (Some ''kvs'') True
       ''Key vaule pairs separated by , to run. E.G. key=val,key=val.'',
     Getopt_option Getopt_string (CHR ''l'') (Some ''rkeys'') True
       ''Keys that should not be sent. May be present from an action. E.G. key,key.'',
     Getopt_option Getopt_string (CHR ''c'') (Some ''card'') True
       ''Test card to use. See help for choices'',
     Getopt_option Getopt_integer (CHR ''d'') (Some ''dup'') False
       ''Number of times the transaction should be duplicated and run in one request. Default is 1.'',
     Getopt_option Getopt_string (CHR ''r'') (Some ''random_amount'') True
       ''Use a random amount [min:]max (will never be $8.00 - $8.99 due to delay trigger). Default min if not specified is $0.01.'',
     Getopt_option Getopt_boolean (CHR ''s'') (Some ''serial'') False
       ''Send transaction one at a time. Default is to send them in parallel when using the dup option.'',
     Getopt_option Getopt_boolean (CHR 0x00) (Some ''pin-ksn'') False ''Insert generic PIN/KSN'',
     Getopt_option Getopt_boolean (CHR 0x00) (Some ''trace'') False ''Enable I/O connection tracing'',
     Getopt_option Getopt_boolean (CHR ''h'') (Some ''help'') False ''Help'']"

section \<open>The help text\<close>

definition NL :: char where "NL = CHR 0x0A"
definition TAB :: char where "TAB = CHR 0x09"

text \<open>Strings and bytes added to a buffer one after the other.\<close>

datatype buf_item = Str string | Byte char

definition buf_adds :: "mstd \<Rightarrow> buf_item list \<Rightarrow> string \<Rightarrow> string" where
  "buf_adds L ss b =
     foldl (\<lambda>b x. case x of Str s \<Rightarrow> M_buf_add_str L b s | Byte ch \<Rightarrow> M_buf_add_byte L b ch) b ss"

fun getopt_error_text :: "M_getopt_error_t \<Rightarrow> string" where
  "getopt_error_text M_GETOPT_ERROR_INVALIDOPT = ''Invalid option -- ''"
| "getopt_error_text M_GETOPT_ERROR_INVALIDDATATYPE = ''Invalid option value -- ''"
| "getopt_error_text M_GETOPT_ERROR_MISSINGVALUE = ''Invalid option value missing -- ''"
| "getopt_error_text M_GETOPT_ERROR_NONOPTION = ''Invalid action -- ''"
| "getopt_error_text _ = ''Error -- ''"

definition cli_opts_gen_help ::
  "mstd \<Rightarrow> mstd_app \<Rightarrow> getopt_option list \<Rightarrow> M_getopt_error_t \<Rightarrow> cstr \<Rightarrow> string \<Rightarrow> bool \<Rightarrow> string" where
  "cli_opts_gen_help L A g ret fail argv0 reqhelp =
     (let buf = [];
          buf = (if \<not> reqhelp then
                   buf_adds L [Str (getopt_error_text ret), Str (case fail of None \<Rightarrow> [] | Some f \<Rightarrow> f), Str ([NL, NL])] buf
                 else buf);
          buf = buf_adds L [Str ''Usage: '', Str argv0, Str '' [OPTIONS] [ACTION]'', Byte NL,
            Str ''Run transactions against a Monetra server.'', Str ([NL, NL]),
            Str (''KVS can be specified and used in place of or to augment ACTIONS.'' @ [NL]),
            Str (''KVS values will be used instead of ACTION values when a key appears in both.'' @ [NL]),
            Str (''The -r, --random_amount option will override an amount value if provided as a KVS.'' @ [NL]),
            Str (''If multiple -k, --kvs options are specified they will be merged with later values overriding earlier ones.'' @ [NL]),
            Byte NL,
            Str (''If -t, --port is not provided the port used will be based on the provided user name. '' @ [NL]),
            Str (''MADMIN or MADMIN sub user names will use the admin port. Otherwise the user port will be used.'' @ [NL]),
            Str ([NL, NL]), Str ''OPTIONS:'', Byte NL, Str (M_getopt_help A g), Byte NL, Str ''ACTIONS:'', Byte NL] buf;
          buf = foldl (\<lambda>buf (name, action). buf_adds L [Byte TAB, Str name, Byte NL] buf) buf ACTIONS;
          buf = buf_adds L [Str ''TEST CARDS:'', Byte NL] buf;
          buf = foldl (\<lambda>buf (name, val). buf_adds L [Byte TAB, Str name, Byte NL] buf) buf CARDS;
          buf = buf_adds L [Byte NL, Str ''DEFAULTS:'', Byte NL,
            Str ([TAB] @ ''Username:   ''), Str DEFAULT_USERNAME, Byte NL,
            Str ([TAB] @ ''Password:   ''), Str DEFAULT_PASSWORD, Byte NL,
            Str ([TAB] @ ''Host:       ''), Str DEFAULT_HOST, Byte NL, Str ([TAB] @ ''User port:  '')] buf;
          buf = M_buf_add_uint L buf (ucast DEFAULT_PORT_USER);
          buf = buf_adds L [Byte NL, Str ([TAB] @ ''Admin port: '')] buf;
          buf = M_buf_add_uint L buf (ucast DEFAULT_PORT_ADMIN)
      in buf_adds L [Byte NL, Str ([TAB] @ ''Cert validation: ''), Str (''none'' @ [NL]),
            Str ([TAB, TAB] @ ''Choices: none, cert_only, cert_fuzzy, full''), Str ([NL, NL]),
            Str ''EXAMPLE:'', Byte NL, Byte TAB, Str argv0, Str '' -d 3 -r 4.50:10.03 sale'', Byte NL,
            Byte TAB, Str argv0, Str '' --username MADMIN --password password --kvs action=chngpwd,pwd=test123'',
            Byte NL] buf)"

end
