(* ===== verification/Cli_Trans.thy ===== *)
theory Cli_Trans
  imports Cli_Opts
begin

text \<open>
  The transactions \<open>monetra_cli\<close> is asked to run (\<open>apps/monetra_cli/src/cli_trans.c\<close>): the
  requests, one dictionary each, made from the options; and the command line as a whole
  (\<open>cli_parse_args\<close> of \<open>cli_opts.c\<close>).
\<close>

record cli_trans_t =
  t_host :: cstr
  t_port :: u16
  t_keyfile :: cstr
  t_certfile :: cstr
  t_cadir :: cstr
  t_certvalidation :: M_tls_verify_level_t
  t_kvs :: "dict list"
  t_send_serial :: bool
  t_outstanding_cnt :: u64
  t_enable_trace :: bool

definition zero_cli_trans :: cli_trans_t where
  "zero_cli_trans =
     \<lparr>t_host = None, t_port = 0, t_keyfile = None, t_certfile = None, t_cadir = None,
      t_certvalidation = M_TLS_VERIFY_NONE, t_kvs = [], t_send_serial = False,
      t_outstanding_cnt = 0, t_enable_trace = False\<rparr>"

text \<open>
  Amounts of 8.00 to 8.99 are never used: they make the server wait. The log is the one of the
  draws made so far.
\<close>

partial_function (option) random_amount ::
  "mstd \<Rightarrow> u64 \<Rightarrow> u64 \<Rightarrow> call list \<Rightarrow> (u64 \<times> call list) option" where
  "random_amount L lo hi cs =
     (let ramount = M_rand_range L cs lo hi;
          cs = Rand_range lo hi # cs
      in if ramount \<ge> 800 \<and> ramount \<le> 899 then random_amount L lo hi cs
         else Some (ramount, cs))"

text \<open>One request: the turn of the loop for the index \<open>i\<close>.\<close>

definition remove_keys :: "mstd_app \<Rightarrow> string list \<Rightarrow> dict \<Rightarrow> dict" where
  "remove_keys A ks kvs =
     foldl (\<lambda>kvs j. M_hash_dict_remove A kvs (M_list_str_at A ks j)) kvs [0..<M_list_str_len A ks]"

definition request_kvs :: "mstd \<Rightarrow> mstd_app \<Rightarrow> cli_opts_t \<Rightarrow> dict" where
  "request_kvs L A opts =
     (let kvs = [];
          kvs = (if \<not> M_str_isempty L (o_username opts)
                 then M_hash_dict_insert L kvs ''username'' (o_username opts) else kvs);
          kvs = (if \<not> M_str_isempty L (o_password opts)
                 then M_hash_dict_insert L kvs ''password'' (o_password opts) else kvs);
          kvs = M_hash_dict_merge A kvs (M_hash_dict_duplicate L (o_kvs opts))
      in remove_keys A (o_remove_keys opts) kvs)"

definition create_request ::
  "mstd \<Rightarrow> mstd_app \<Rightarrow> cli_opts_t \<Rightarrow> u64 \<Rightarrow> call list \<Rightarrow> (dict \<times> call list) option" where
  "create_request L A opts i cs = do {
     let kvs = request_kvs L A opts;
     (kvs, cs) \<leftarrow>
       (if o_min_amount opts \<noteq> 0 \<and> o_max_amount opts \<noteq> 0 then do {
          (ramount, cs) \<leftarrow> random_amount L (o_min_amount opts) (o_max_amount opts) cs;
          Some (M_hash_dict_insert L kvs ''amount'' (Some (snprintf_n 32 (print_amount ramount))), cs)
        }
        else Some (kvs, cs));
     Some (M_hash_dict_insert L kvs ''identifier''
             (Some (snprintf_n 32 (decimal (unat (i + 1))))), cs)
   }"

fun create_requests ::
  "mstd \<Rightarrow> mstd_app \<Rightarrow> cli_opts_t \<Rightarrow> nat \<Rightarrow> u64 \<Rightarrow> dict list \<Rightarrow> call list \<Rightarrow> dict list option" where
  "create_requests L A opts 0 i ds cs = Some ds"
| "create_requests L A opts (Suc n) i ds cs = do {
     (kvs, cs) \<leftarrow> create_request L A opts i cs;
     create_requests L A opts n (i + 1) (M_list_dict_insert A ds kvs) cs
   }"

text \<open>The result is the reason why there is none (\<open>Inl\<close>), or the transactions.\<close>

definition madmin_user :: "mstd \<Rightarrow> mstd_app \<Rightarrow> cstr \<Rightarrow> bool" where
  "madmin_user L A user \<longleftrightarrow>
     M_str_caseeq L user (Some ''madmin'') \<or> M_str_caseeq_max A user (Some ''madmin:'') 7"

definition cli_trans_create ::
  "mstd \<Rightarrow> mstd_app \<Rightarrow> cli_opts_t \<Rightarrow> (string + cli_trans_t) option" where
  "cli_trans_create L A opts =
     (if M_hash_dict_num_keys L (Some (o_kvs opts)) = 0
      then Some (Inl ''An ACTION and/or kvs must be specified'')
      else
        let tr = zero_cli_trans\<lparr>t_host := o_host opts, t_port := o_port opts\<rparr>;
            tr = (if \<not> o_port_set opts \<and> madmin_user L A (o_username opts)
                     then tr\<lparr>t_port := DEFAULT_PORT_ADMIN\<rparr> else tr)
        in
          if (M_str_isempty L (o_keyfile opts) \<and> \<not> M_str_isempty L (o_certfile opts)) \<or>
             (\<not> M_str_isempty L (o_keyfile opts) \<and> M_str_isempty L (o_certfile opts))
          then Some (Inl ''Key and cert paths must be specified together'')
          else
            let tr = (if \<not> M_str_isempty L (o_keyfile opts)
                         then tr\<lparr>t_keyfile := o_keyfile opts, t_certfile := o_certfile opts\<rparr>
                         else tr);
                tr = (if \<not> M_str_isempty L (o_cadir opts)
                         then tr\<lparr>t_cadir := o_cadir opts\<rparr> else tr);
                tr = tr\<lparr>t_certvalidation := o_certvalidation opts\<rparr>;
                tr = tr\<lparr>t_kvs := [], t_send_serial := o_send_serial opts,
                              t_enable_trace := o_enable_trace opts\<rparr>;
                num = (if o_dup opts = 0 then 1 else o_dup opts)
            in do {
              ds \<leftarrow> create_requests L A opts (unat num) 0 (t_kvs tr) [];
              Some (Inr (tr\<lparr>t_kvs := ds\<rparr>))
            })"

section \<open>The command line\<close>

text \<open>
  What is printed, and the transactions to run. \<open>argv\<close> is not empty: its first string is the
  name of the program.
\<close>

definition cli_parse_args ::
  "mstd \<Rightarrow> mstd_app \<Rightarrow> cli_opts_t getopt_parse \<Rightarrow> string list \<Rightarrow> (string \<times> cli_trans_t option) option" where
  "cli_parse_args L A M_getopt_parse argv = do {
     let opts = cli_opts_create;
     let (ret, fail, opts) = M_getopt_parse cli_getopt (cli_item L A) argv (Some ''?'') opts;
     (ret, fail, tr, opts) \<leftarrow>
       (if ret = M_GETOPT_ERROR_SUCCESS \<and> \<not> o_help opts then do {
          let opts = snd (cli_opts_merge_kvs L A opts);
          r \<leftarrow> cli_trans_create L A opts;
          Some (case r of
                  Inl f \<Rightarrow> (M_GETOPT_ERROR_INVALIDOPT, Some f, None, opts)
                | Inr tr \<Rightarrow> (ret, fail, Some tr, opts))
        }
        else Some (ret, fail, None, opts));
     Some (if ret \<noteq> M_GETOPT_ERROR_SUCCESS \<or> o_help opts
           then (cli_opts_gen_help L A cli_getopt ret fail (hd argv) (o_help opts) @ [NL], None)
           else ([], tr))
   }"

declare random_amount.simps [code]

end
