(* ===== verification/App_Std_Ref.thy ===== *)
theory App_Std_Ref
  imports App_Std Mstdlib_Ref
begin

text \<open>
  An executable instance of the parameters of \<open>App_Std\<close>, and a small command line parser: the
  contracts can be met, and the theorems about the programs apply to concrete runs.
\<close>

definition ref_merge :: "dict \<Rightarrow> dict \<Rightarrow> dict" where
  "ref_merge d e = foldl (\<lambda>d (k, v). dict_insert d k v) d e"

definition ref_remove :: "dict \<Rightarrow> string \<Rightarrow> dict" where
  "ref_remove d k = filter (\<lambda>(k', _). lowers k' \<noteq> lowers k) d"

definition ref_unquote :: "string \<Rightarrow> char \<Rightarrow> char \<Rightarrow> string" where
  "ref_unquote s q e =
     (case s of b # bs \<Rightarrow> if b = q \<and> bs \<noteq> [] \<and> last bs = q then butlast bs else s | [] \<Rightarrow> [])"

definition ref_read_decimal :: "parser \<Rightarrow> (M_decimal \<times> parser) option" where
  "ref_read_decimal p =
     (let ds = takeWhile is_digit (p_rest p); rest = dropWhile is_digit (p_rest p) in
      if ds = [] then None
      else case rest of
          b # bs \<Rightarrow>
            if b = CHR ''.'' then
              let fs = takeWhile is_digit bs in
              Some ((int (undecimal (ds @ fs)), length fs), p\<lparr>p_rest := dropWhile is_digit bs\<rparr>)
            else Some ((int (undecimal ds), 0), p\<lparr>p_rest := rest\<rparr>)
        | [] \<Rightarrow> Some ((int (undecimal ds), 0), p\<lparr>p_rest := []\<rparr>))"

definition app_ref :: mstd_app where
  "app_ref =
     \<lparr>M_str_len = (\<lambda>s. length (str_of s)),
      M_str_safe = str_of,
      M_printf_s = str_of,
      M_str_cpy = (\<lambda>n d s. take (n - 1) s),
      M_str_caseeq_max = (\<lambda>a b n. lowers (take n (str_of a)) = lowers (take n (str_of b))),
      M_str_explode_str = (\<lambda>d s. split_on d (str_of s)),
      M_str_explode_quoted_null = None,
      M_strdup_unquote = ref_unquote,
      M_str_hexdump = (\<lambda>sep data. Some data),
      M_fs_path_basename = (\<lambda>s. s),
      M_llist_len = length,
      M_llist_take_node = (\<lambda>l x. remove1 x l),
      M_list_str_insert = (\<lambda>ks k. ks @ [k]),
      M_list_str_len = length,
      M_list_str_at = (!),
      M_list_dict_insert = (\<lambda>ds d. ds @ [d]),
      M_list_dict_len = length,
      M_list_dict_at = (!),
      M_list_dict_take_first = (\<lambda>ds. case ds of [] \<Rightarrow> (None, []) | e # es \<Rightarrow> (Some e, es)),
      M_hash_dict_merge = ref_merge,
      M_hash_dict_remove = ref_remove,
      M_hash_dict_enumerate = (\<lambda>d. d),
      M_parser_read_decimal = ref_read_decimal,
      M_decimal_to_int = (\<lambda>(n, p) k. of_int (n * 10 ^ k div 10 ^ p)),
      M_getopt_help = (\<lambda>_. ''options''),
      M_tls_clientctx_set_cert_files = (\<lambda>_ _. True),
      M_tls_clientctx_set_trust_ca_dir = (\<lambda>_. True),
      M_tls_clientctx_set_verify_level = (\<lambda>_. True),
      M_time_elapsed = (-),
      M_printf_cents = print_amount,
      M_printf_rate = (\<lambda>n ms. decimal (unat (n * 1000 div ms)))\<rparr>"

section \<open>Strings and lists\<close>

lemma split_on_not_Nil [simp]: "split_on d s \<noteq> []"
  by (induction d s rule: split_on.induct) (auto split: list.split)

lemma split_quoted_plain:
  "CHR 0x22 \<notin> set s \<Longrightarrow>
   split_quoted d (CHR 0x22) 0 False acc s =
     (case split_on d s of [] \<Rightarrow> [acc] | w # ws \<Rightarrow> (acc @ w) # ws)"
proof (induction s arbitrary: acc)
  case (Cons b bs)
  obtain w ws where "split_on d bs = w # ws" by (cases "split_on d bs") simp_all
  with Cons show ?case by (auto split: list.split)
qed simp

interpretation ref_app_string: app_string_api "mstd_ref input" app_ref for input
proof unfold_locales
  fix s d
  assume "plain s" "s \<noteq> []"
  then have "CHR 0x22 \<notin> set s" by (auto simp: plain_def)
  from split_quoted_plain [OF this, of d "[]"]
  show "M_str_explode_quoted (mstd_ref input) d s (CHR 0x22) (CHR 0x5C) 0 = Some (split_on d s)"
    by (cases "split_on d s") (simp_all add: mstd_ref_def)
next
  fix s
  assume "plain s"
  then show "M_strdup_unquote app_ref s (CHR 0x22) (CHR 0x5C) = s"
    by (cases s) (auto simp: app_ref_def ref_unquote_def plain_def)
qed (simp_all add: app_ref_def str_of_def)

interpretation ref_app_list: app_list_api app_ref
  by unfold_locales (simp_all add: app_ref_def)

section \<open>Dictionaries\<close>

text \<open>What keys are compared by.\<close>

fun lkey :: "string \<times> cstr \<Rightarrow> string" where
  "lkey (k, v) = lowers k"

lemma lkey_image: "lowers ` fst ` set d = lkey ` set d"
  by force

lemma has_key_ref: "has_key (mstd_ref input) d k \<longleftrightarrow> lowers k \<in> lkey ` set d"
  by (simp add: has_key_def mstd_ref_def dict_of_def flip: lkey_image)

lemma dict_wf_ref: "dict_wf (mstd_ref input) d \<longleftrightarrow> distinct (map lkey d)"
proof -
  have "map lowers (map fst d) = map lkey d" by (auto simp: map_eq_conv)
  then show ?thesis by (simp add: dict_wf_def mstd_ref_def dict_of_def del: map_map)
qed

lemma get_ref: "M_hash_dict_get_direct (mstd_ref input) (Some d) k = dict_get d k"
  by (simp add: mstd_ref_def dict_of_def)

lemma app_dict_insert_keys: "lkey ` set (dict_insert d k v) = insert (lowers k) (lkey ` set d)"
  by (induction d k v rule: dict_insert.induct) auto

lemma dict_insert_wf:
  "distinct (map lkey d) \<Longrightarrow> distinct (map lkey (dict_insert d k v))"
proof (induction d k v rule: dict_insert.induct)
  case (2 k' v' d k v)
  then show ?case by (cases "lowers k' = lowers k") (simp_all add: app_dict_insert_keys)
qed simp

lemma app_dict_get_insert:
  "dict_get (dict_insert d k v) k' = (if lowers k' = lowers k then v else dict_get d k')"
  by (induction d k v rule: dict_insert.induct) auto

lemma dict_get_notin: "lowers k \<notin> lkey ` set d \<Longrightarrow> dict_get d k = None"
  by (induction d k rule: dict_get.induct) auto

lemma distinct_fst: "distinct (map lkey d) \<Longrightarrow> distinct (map fst d)"
proof (induction d)
  case (Cons e d)
  then show ?case by (cases e) (force simp: image_iff)
qed simp

lemma dict_get_mem: "distinct (map lkey d) \<Longrightarrow> (k, v) \<in> set d \<Longrightarrow> dict_get d k = v"
proof (induction d)
  case (Cons e d)
  then show ?case by (cases e) (force simp: image_iff)
qed simp

lemma merge_props:
  "distinct (map lkey e) \<Longrightarrow>
   (distinct (map lkey d) \<longrightarrow> distinct (map lkey (ref_merge d e))) \<and>
   lkey ` set (ref_merge d e) = lkey ` set d \<union> lkey ` set e \<and>
   dict_get (ref_merge d e) k =
     (if lowers k \<in> lkey ` set e then dict_get e k else dict_get d k)"
proof (induction e arbitrary: d)
  case (Cons x e)
  obtain l v where x: "x = (l, v)" by fastforce
  have IH: "ref_merge d (x # e) = ref_merge (dict_insert d l v) e" by (simp add: ref_merge_def x)
  from Cons.prems have e: "distinct (map lkey e)" "lowers l \<notin> lkey ` set e"
    by (auto simp: x)
  show ?case
    unfolding IH using Cons.IH [OF e(1), of "dict_insert d l v"] dict_insert_wf [of d l v] e(2)
    by (cases "lowers k = lowers l") (simp_all add: x app_dict_insert_keys app_dict_get_insert)
qed (simp add: ref_merge_def)

interpretation ref_app_dict: app_dict_api "mstd_ref input" app_ref for input
proof unfold_locales
  fix d e k v k'
  let ?L = "mstd_ref input"
  show "dict_wf ?L []" by (simp add: dict_wf_ref)
  show "dict_wf ?L (M_hash_dict_insert ?L d k v)" if "dict_wf ?L d"
    using dict_insert_wf that by (simp add: dict_wf_ref) (simp add: mstd_ref_def)
  show "dict_wf ?L (M_hash_dict_merge app_ref d e)" if "dict_wf ?L d" "dict_wf ?L e"
    using merge_props [of e d] that by (simp add: dict_wf_ref app_ref_def)
  show "dict_wf ?L (M_hash_dict_remove app_ref d k)" if "dict_wf ?L d"
    using that by (simp add: dict_wf_ref app_ref_def ref_remove_def distinct_map_filter)
  show "M_hash_dict_get_direct ?L (Some (M_hash_dict_merge app_ref d e)) k =
      (if has_key ?L e k then M_hash_dict_get_direct ?L (Some e) k
       else M_hash_dict_get_direct ?L (Some d) k)" if "dict_wf ?L e"
    using merge_props [of e d k] that
    by (simp add: dict_wf_ref has_key_ref get_ref app_ref_def)
  show "has_key ?L (M_hash_dict_merge app_ref d e) k \<longleftrightarrow> has_key ?L d k \<or> has_key ?L e k"
    if "dict_wf ?L e"
    using merge_props [of e d k] that
    by (simp add: dict_wf_ref has_key_ref app_ref_def)
  show "M_hash_dict_get_direct ?L (Some (M_hash_dict_remove app_ref d k)) k' =
      (if lowers k' = lowers k then None else M_hash_dict_get_direct ?L (Some d) k')"
    by (induction d) (auto simp: get_ref app_ref_def ref_remove_def)
  show "has_key ?L (M_hash_dict_remove app_ref d k) k' \<longleftrightarrow> has_key ?L d k' \<and> lowers k' \<noteq> lowers k"
    by (force simp: has_key_ref app_ref_def ref_remove_def)
  show "M_hash_dict_get_direct ?L (Some d) k = v"
    if "dict_wf ?L d" "(k, v) \<in> set (M_hash_dict_enumerate app_ref d)"
    using that dict_get_mem by (simp add: get_ref dict_wf_ref app_ref_def)
  show "set (map fst (M_hash_dict_enumerate app_ref d)) = set (M_hash_dict_keys ?L (Some d))"
    by (simp add: app_ref_def mstd_ref_def dict_of_def)
  show "distinct (map fst (M_hash_dict_enumerate app_ref d))" if "dict_wf ?L d"
    using that distinct_fst by (simp add: dict_wf_ref app_ref_def)
  show "M_hash_dict_num_keys ?L (Some d) = 0 \<longleftrightarrow> (\<forall>k. \<not> has_key ?L d k)"
  proof -
    have "M_hash_dict_num_keys ?L (Some d) = length d" by (simp add: mstd_ref_def dict_of_def)
    then show ?thesis by (cases d) (auto simp: has_key_ref)
  qed
  show "M_hash_dict_get_direct ?L (Some d) k = None" if "\<not> has_key ?L d k"
    using that dict_get_notin by (simp add: has_key_ref get_ref)
qed

interpretation ref_app: app_api "mstd_ref input" app_ref for input
  by unfold_locales

section \<open>A command line\<close>

text \<open>
  After the name of the program: \<open>--name=value\<close> or \<open>-xvalue\<close> for the options with a value, \<open>--name\<close>
  or \<open>-x\<close> for the flags; the rest is no option.
\<close>

definition ref_item :: "getopt_option list \<Rightarrow> nat \<Rightarrow> string \<Rightarrow> getopt_item" where
  "ref_item specs n arg =
     (let long = (take 2 arg = ''--'');
          name = takeWhile (\<lambda>b. b \<noteq> CHR ''='') (drop 2 arg);
          val = (if long then drop (3 + length name) arg else drop 2 arg)
      in if take 1 arg \<noteq> ''-'' then Item_nonopt n (Some arg)
         else
           (case find (\<lambda>spec. case spec of Getopt_option _ s l _ _ \<Rightarrow>
               if long then l = Some name else take 1 (drop 1 arg) = [s]) specs of
              Some (Getopt_option kind s l _ _) \<Rightarrow>
                (case kind of
                   Getopt_string \<Rightarrow> Item_string s l (Some val)
                 | Getopt_integer \<Rightarrow> Item_integer s l (Some (of_nat (undecimal val)))
                 | Getopt_decimal \<Rightarrow> Item_decimal s l (Some (int (undecimal val), 0))
                 | Getopt_boolean \<Rightarrow> Item_boolean s l True)
            | None \<Rightarrow> Item_nonopt n (Some arg)))"

definition ref_getopt :: "'o getopt_parse" where
  "ref_getopt specs h argv fail st =
     (case handle_items h (map2 (ref_item specs) [0..<length (tl argv)] (tl argv)) st of
        (True, st) \<Rightarrow> (M_GETOPT_ERROR_SUCCESS, fail, st)
      | (False, st) \<Rightarrow> (M_GETOPT_ERROR_NONOPTION, fail, st))"

interpretation ref_getopt: getopt_api "ref_getopt :: 'o getopt_parse"
proof
  fix specs and h :: "getopt_item \<Rightarrow> 'o \<Rightarrow> bool \<times> 'o" and argv fail st err fail' st'
  let ?is = "map2 (ref_item specs) [0..<length (tl argv)] (tl argv)"
  assume "ref_getopt specs h argv fail st = (err, fail', st')"
  then have "handle_items h ?is st = (fst (handle_items h ?is st), st') \<and>
      (err = M_GETOPT_ERROR_SUCCESS \<longrightarrow> fst (handle_items h ?is st))"
    by (auto simp: ref_getopt_def split: prod.splits bool.splits)
  then show "\<exists>is ok. handle_items h is st = (ok, st') \<and> (err = M_GETOPT_ERROR_SUCCESS \<longrightarrow> ok)"
    by blast
qed

end
