(* ===== verification/Cli_Spec.thy ===== *)
theory Cli_Spec
  imports Cli_Trans App_Std_Ref
begin

text \<open>
  What the command line of \<open>monetra_cli\<close> means: how key/value lists are read, which of several
  values for a key is used, which requests are made, and which amounts can be drawn.
\<close>

section \<open>Key/value lists\<close>

text \<open>A list of pairs as it is written on the command line.\<close>

definition render_pair :: "string \<times> string \<Rightarrow> string" where
  "render_pair kv = fst kv @ ''='' @ snd kv"

fun render_kvs :: "(string \<times> string) list \<Rightarrow> string" where
  "render_kvs [] = []"
| "render_kvs [kv] = render_pair kv"
| "render_kvs (kv # kvs) = render_pair kv @ '','' @ render_kvs kvs"

definition simple :: "string \<Rightarrow> bool" where
  "simple s \<longleftrightarrow> plain s \<and> CHR '','' \<notin> set s \<and> CHR ''='' \<notin> set s"

definition simple_kvs :: "(string \<times> string) list \<Rightarrow> bool" where
  "simple_kvs kvs \<longleftrightarrow> (\<forall>(k, v) \<in> set kvs. simple k \<and> simple v)"

lemma split_on_none: "d \<notin> set s \<Longrightarrow> split_on d s = [s]"
  by (induction s) auto

lemma split_on_append: "d \<notin> set s \<Longrightarrow> split_on d (s @ d # t) = s # split_on d t"
  by (induction s) auto

lemma plain_append [simp]: "plain (s @ t) \<longleftrightarrow> plain s \<and> plain t"
  by (auto simp: plain_def)

lemma plain_Nil [simp]: "plain []"
  by (simp add: plain_def)

lemma plain_Cons: "plain (ch # s) \<longleftrightarrow>
    ch \<noteq> CHR 0x22 \<and> ch \<noteq> CHR 0x5C \<and> ch \<noteq> CHR '' '' \<and> 32 < (of_char ch :: nat) \<and> plain s"
  by (auto simp: plain_def)

lemma plain_pair: "simple k \<Longrightarrow> simple v \<Longrightarrow> plain (render_pair (k, v))"
  by (simp add: render_pair_def simple_def plain_Cons)

lemma render_plain: "simple_kvs kvs \<Longrightarrow> plain (render_kvs kvs)"
proof (induction kvs rule: render_kvs.induct)
  case (3 kv kv' kvs)
  then have "plain (render_pair kv)" "plain (render_kvs (kv' # kvs))"
    using plain_pair by (cases kv; simp add: simple_kvs_def)+
  then show ?case by (simp add: plain_Cons)
qed (auto simp: simple_kvs_def plain_pair)

lemma render_pair_no_comma: "simple k \<Longrightarrow> simple v \<Longrightarrow> CHR '','' \<notin> set (render_pair (k, v))"
  by (auto simp: render_pair_def simple_def)

lemma split_render:
  "simple_kvs kvs \<Longrightarrow> kvs \<noteq> [] \<Longrightarrow> split_on (CHR '','') (render_kvs kvs) = map render_pair kvs"
proof (induction kvs rule: render_kvs.induct)
  case (2 kv)
  then show ?case
    using render_pair_no_comma by (cases kv) (auto simp: simple_kvs_def split_on_none)
next
  case (3 kv kv' kvs)
  then have "CHR '','' \<notin> set (render_pair kv)"
    using render_pair_no_comma by (cases kv) (auto simp: simple_kvs_def)
  with 3 show ?case by (simp add: split_on_append simple_kvs_def)
qed simp

lemma split_pair: "simple k \<Longrightarrow> simple v \<Longrightarrow> split_on (CHR ''='') (render_pair (k, v)) = [k, v]"
  by (simp add: render_pair_def split_on_append split_on_none simple_def)

context app_api
begin

lemma load_parts:
  "simple_kvs kvs \<Longrightarrow> load_kvs_parts L A d (map render_pair kvs) =
     foldl (\<lambda>d (k, v). M_hash_dict_insert L d k (Some v)) d kvs"
proof (induction kvs arbitrary: d)
  case (Cons kv kvs)
  obtain k v where kv: "kv = (k, v)" by fastforce
  with Cons.prems have kvs: "simple k" "simple v" "simple_kvs kvs" by (auto simp: simple_kvs_def)
  then have p: "plain (render_pair kv)" "plain k" "plain v"
    using plain_pair by (auto simp: kv simple_def)
  have "M_str_explode_quoted L (CHR ''='') (render_pair kv) (CHR 0x22) (CHR 0x5C) 0 = Some [k, v]"
    using explode_plain [OF p(1)] split_pair [OF kvs(1,2)] by (simp add: kv render_pair_def)
  then show ?case
    using Cons.IH [OF kvs(3)] p by (simp add: kv QUOTE_def BACKSLASH_def unquote_plain)
qed simp

lemma load_rendered:
  assumes "simple_kvs kvs" "kvs \<noteq> []"
  shows "cli_opts_load_kvs L A d (Some (render_kvs kvs)) =
    foldl (\<lambda>d (k, v). M_hash_dict_insert L d k (Some v)) d kvs"
proof -
  have "render_kvs kvs \<noteq> []" using assms(2) by (cases kvs rule: render_kvs.cases) (simp_all add: render_pair_def)
  then have "explode_commas L A (Some (render_kvs kvs)) = Some (map render_pair kvs)"
    using explode_plain [OF render_plain [OF assms(1)]] split_render [OF assms]
    by (simp add: explode_commas_def QUOTE_def BACKSLASH_def)
  then show ?thesis using assms(2) load_parts [OF assms(1)] by (simp add: cli_opts_load_kvs_def)
qed

end

text \<open>
  C27. Reading back: pairs written as \<open>key=val,key=val\<close> are read as exactly these pairs, in their
  order, a later one overriding an earlier one of the same key (up to case).
\<close>

theorem kvs_roundtrip:
  assumes "app_api L A" "simple_kvs kvs" "kvs \<noteq> []"
  shows "cli_opts_load_kvs L A d (Some (render_kvs kvs)) =
    foldl (\<lambda>d (k, v). M_hash_dict_insert L d k (Some v)) d kvs"
  by (rule app_api.load_rendered [OF assms])

lemma kvs_roundtrip_witness:
  "cli_opts_load_kvs (mstd_ref []) app_ref [] (Some ''action=sale,amount=1.00'') =
     [(''action'', Some ''sale''), (''amount'', Some ''1.00'')]"
proof -
  have "simple_kvs [(''action'', ''sale''), (''amount'', ''1.00'')]" by code_simp
  from kvs_roundtrip [OF ref_app.app_api_axioms [of "[]"] this, of "[]"]
  have "cli_opts_load_kvs (mstd_ref []) app_ref [] (Some ''action=sale,amount=1.00'') =
      foldl (\<lambda>d (k, v). M_hash_dict_insert (mstd_ref []) d k (Some v)) []
        [(''action'', ''sale''), (''amount'', ''1.00'')]"
    by (simp add: render_pair_def)
  also have "\<dots> = [(''action'', Some ''sale''), (''amount'', Some ''1.00'')]"
    by (simp add: mstd_ref_def lowers_def lower_def)
  finally show ?thesis .
qed

section \<open>Which value is used\<close>

definition opts_wf :: "mstd \<Rightarrow> cli_opts_t \<Rightarrow> bool" where
  "opts_wf L opts \<longleftrightarrow>
     dict_wf L (o_card opts) \<and> dict_wf L (o_man_kvs opts) \<and> dict_wf L (o_kvs opts)"

context app_api
begin

lemma has_key_insert:
  "k \<noteq> [] \<Longrightarrow> has_key L (M_hash_dict_insert L d k v) k' \<longleftrightarrow> lowers k' = lowers k \<or> has_key L d k'"
  using keys_insert [of k d v] by (simp add: has_key_def)

lemma load_parts_wf: "dict_wf L d \<Longrightarrow> dict_wf L (load_kvs_parts L A d parts)"
proof (induction parts arbitrary: d)
  case (Cons part parts)
  then show ?case by (auto simp: Let_def split: option.splits)
qed simp

lemma load_kvs_wf: "dict_wf L d \<Longrightarrow> dict_wf L (cli_opts_load_kvs L A d s)"
  by (simp add: cli_opts_load_kvs_def load_parts_wf split: option.split)

text \<open>Every option that is accepted keeps the dictionaries in order.\<close>

lemma random_amount_wf:
  "cli_parse_random_amount L A opts s = (ok, opts') \<Longrightarrow> opts_wf L opts' = opts_wf L opts"
  by (auto simp: cli_parse_random_amount_def opts_wf_def Let_def split: option.splits if_splits prod.splits)

lemma string_cb_wf:
  assumes "cli_string_cb L A l s opts = (ok, opts')" "opts_wf L opts"
  shows "opts_wf L opts'"
proof (cases "snd (cli_string_cb L A l s opts) = snd (cli_parse_random_amount L A opts (case s of None \<Rightarrow> [] | Some t \<Rightarrow> t))")
  case True
  then show ?thesis using random_amount_wf assms by (metis prod.collapse snd_conv)
next
  case False
  then show ?thesis
    using assms by (auto simp: cli_string_cb_def opts_wf_def load_kvs_wf Let_def split: if_splits option.splits)
qed

lemma cli_item_wf:
  assumes "cli_item L A i opts = (ok, opts')" "opts_wf L opts"
  shows "opts_wf L opts'"
proof (cases i)
  case (Item_string sh l s)
  with assms string_cb_wf show ?thesis by simp
qed (use assms in \<open>auto simp: opts_wf_def cli_nonopt_cb_def cli_integer_cb_def cli_bool_cb_def
       Let_def split: option.splits if_splits\<close>)

lemma merge_get:
  assumes "opts_wf L opts" "fst (cli_opts_merge_kvs L A opts)"
  shows "M_hash_dict_get_direct L (Some (o_kvs (snd (cli_opts_merge_kvs L A opts)))) k =
    (if has_key L (o_man_kvs opts) k then M_hash_dict_get_direct L (Some (o_man_kvs opts)) k
     else if has_key L (o_card opts) k then M_hash_dict_get_direct L (Some (o_card opts)) k
     else if o_send_pinksn opts \<and> lowers k = ''pin'' then Some ''1234567890123456''
     else if o_send_pinksn opts \<and> lowers k = ''ksn'' then Some ''6543210987654321''
     else M_hash_dict_get_direct L (Some (cli_opts_load_kvs L A (o_kvs opts) (o_action_kvs opts))) k)"
proof -
  have low: "lowers ''pin'' = ''pin''" "lowers ''ksn'' = ''ksn''" by code_simp+
  have "cli_opts_merge_kvs L A opts = (True, opts\<lparr>o_kvs := M_hash_dict_merge A (M_hash_dict_merge A
      (cli_opts_load_pinksn L (cli_opts_load_kvs L A (o_kvs opts) (o_action_kvs opts)) (o_send_pinksn opts))
      (o_card opts)) (o_man_kvs opts)\<rparr>)"
    using assms(2) by (auto simp: cli_opts_merge_kvs_def Let_def split: if_splits)
  then show ?thesis
    using assms(1) low by (auto simp: opts_wf_def get_merge cli_opts_load_pinksn_def Let_def)
qed

end

text \<open>
  C28. Precedence: a key given with \<open>--kvs\<close> has the value given there; otherwise the test card's;
  otherwise the generic PIN and KSN when they are asked for; otherwise the action's.
\<close>

theorem kvs_precedence:
  assumes "app_api L A" "opts_wf L opts" "fst (cli_opts_merge_kvs L A opts)"
  shows "M_hash_dict_get_direct L (Some (o_kvs (snd (cli_opts_merge_kvs L A opts)))) k =
    (if has_key L (o_man_kvs opts) k then M_hash_dict_get_direct L (Some (o_man_kvs opts)) k
     else if has_key L (o_card opts) k then M_hash_dict_get_direct L (Some (o_card opts)) k
     else if o_send_pinksn opts \<and> lowers k = ''pin'' then Some ''1234567890123456''
     else if o_send_pinksn opts \<and> lowers k = ''ksn'' then Some ''6543210987654321''
     else M_hash_dict_get_direct L (Some (cli_opts_load_kvs L A (o_kvs opts) (o_action_kvs opts))) k)"
  by (rule app_api.merge_get [OF assms])

text \<open>An action, a card, and a manual account number that replaces the card's.\<close>

definition sample_opts :: cli_opts_t where
  "sample_opts = cli_opts_create\<lparr>o_action_kvs := Some ''action=sale,amount=1.00'',
     o_card := [(''account'', Some ''4111111111111111''), (''expdate'', Some ''1220'')],
     o_man_kvs := [(''ACCOUNT'', Some ''5454545454545454'')]\<rparr>"

lemma kvs_precedence_witness:
  "M_hash_dict_get_direct (mstd_ref [])
     (Some (o_kvs (snd (cli_opts_merge_kvs (mstd_ref []) app_ref sample_opts)))) ''account'' =
     Some ''5454545454545454''"
proof -
  have "opts_wf (mstd_ref []) sample_opts" "fst (cli_opts_merge_kvs (mstd_ref []) app_ref sample_opts)"
    "has_key (mstd_ref []) (o_man_kvs sample_opts) ''account''"
    "M_hash_dict_get_direct (mstd_ref []) (Some (o_man_kvs sample_opts)) ''account'' =
       Some ''5454545454545454''"
    by code_simp+
  with kvs_precedence [OF ref_app.app_api_axioms [of "[]"] this(1,2), of "''account''"]
  show ?thesis by simp
qed

section \<open>Random amounts\<close>

context app_api
begin

lemma random_amount_ends:
  assumes "M_rand_range L (draws_log lo hi n cs) lo hi \<notin> {800..899}" "lo < hi"
  shows "\<exists>r cs'. random_amount L lo hi cs = Some (r, cs') \<and> lo \<le> r \<and> r < hi \<and> r \<notin> {800..899}"
  using assms(1)
proof (induction n arbitrary: cs)
  case 0
  then have "random_amount L lo hi cs = Some (M_rand_range L cs lo hi, Rand_range lo hi # cs)"
    by (subst random_amount.simps) (auto simp: Let_def)
  then show ?case using 0 rand_range [OF assms(2), of cs] by simp
next
  case (Suc n)
  show ?case
  proof (cases "M_rand_range L cs lo hi \<in> {800..899}")
    case True
    then have "random_amount L lo hi cs = random_amount L lo hi (Rand_range lo hi # cs)"
      by (subst random_amount.simps) (simp add: Let_def)
    then show ?thesis using Suc by simp
  next
    case False
    then have "random_amount L lo hi cs = Some (M_rand_range L cs lo hi, Rand_range lo hi # cs)"
      by (subst random_amount.simps) (auto simp: Let_def)
    then show ?thesis using False rand_range [OF assms(2), of cs] by simp
  qed
qed

lemma random_amount_total:
  assumes "lo \<le> x" "x < hi" "x \<notin> {800..899}"
  obtains r cs' where "random_amount L lo hi cs = Some (r, cs')" and "lo \<le> r" and "r < hi"
    and "r \<notin> {800..899}"
proof -
  have "lo < hi" using assms(1,2) by simp
  obtain n where "M_rand_range L (draws_log lo hi n cs) lo hi \<notin> {800..899}"
    using rand_fair [of "{800..899}" lo hi cs] assms by auto
  from random_amount_ends [OF this \<open>lo < hi\<close>] that show ?thesis by blast
qed

end

lemma one_below_800: "\<not> 800 \<le> (1 :: u64)"
  by (simp add: word_le_nat_alt)

text \<open>The lower end of an accepted range is never one of the amounts to avoid.\<close>

lemma accepted_min:
  assumes "cli_parse_random_amount L A opts s = (True, opts')"
  shows "o_min_amount opts' \<notin> {800..899}"
  using assms one_below_800
  by (auto simp: cli_parse_random_amount_def Let_def split: option.splits if_splits prod.splits)

text \<open>
  C29. Random amounts: for every range the option \<open>--random_amount\<close> accepts, unless it is empty, the
  search for an amount ends, and the amount is in the range and not one of 8.00 to 8.99.
\<close>

theorem random_amount_drawn:
  assumes "app_api L A" "cli_parse_random_amount L A opts s = (True, opts')"
    and "o_min_amount opts' < o_max_amount opts'"
  shows "\<exists>r cs'. random_amount L (o_min_amount opts') (o_max_amount opts') cs = Some (r, cs') \<and>
    o_min_amount opts' \<le> r \<and> r < o_max_amount opts' \<and> r \<notin> {800..899}"
  using app_api.random_amount_total [OF assms(1) order_refl assms(3) accepted_min [OF assms(2)]] by metis

lemma random_amount_drawn_witness:
  "\<exists>r cs'. random_amount (mstd_ref []) 450 1004 [] = Some (r, cs') \<and> 450 \<le> r \<and> r < 1004 \<and>
     r \<notin> {800..899}"
proof -
  have "cli_parse_random_amount (mstd_ref []) app_ref cli_opts_create ''4.50:10.03'' =
      (True, cli_opts_create\<lparr>o_min_amount := 450, o_max_amount := 1004\<rparr>)"
    by code_simp
  from random_amount_drawn [OF ref_app.app_api_axioms this, of "[]"] show ?thesis by simp
qed

text \<open>
  A range that ends within the amounts to avoid is cut down to its lower end: of 1.00 to 8.50
  only 1.00 can be drawn.
\<close>

lemma random_range_collapses:
  "snd (cli_parse_random_amount (mstd_ref []) app_ref cli_opts_create ''1.00:8.50'') =
     cli_opts_create\<lparr>o_min_amount := 100, o_max_amount := 101\<rparr>"
  by code_simp

text \<open>A single value is an exclusive end, although it is the largest amount asked for.\<close>

lemma random_single_exclusive:
  "snd (cli_parse_random_amount (mstd_ref []) app_ref cli_opts_create ''5.00'') =
     cli_opts_create\<lparr>o_min_amount := 1, o_max_amount := 500\<rparr>"
  by code_simp

section \<open>The requests\<close>

lemma snprintf_decimal [simp]: "snprintf_n 32 (decimal (unat (x :: u64))) = decimal (unat x)"
  using length_decimal [of "unat x" 19] unat_u64 [of x] by (simp add: snprintf_n_def)

lemma snprintf_amount [simp]: "snprintf_n 32 (print_amount x) = print_amount x"
proof -
  have "unat (x mod 100) < 100" using word_mod_less_divisor [of 100 x] by (simp add: word_less_nat_alt)
  then have "length (decimal (unat (x mod 100))) \<le> 2"
    using length_decimal [of "unat (x mod 100)" 1] by simp
  moreover have "length (decimal (unat (x div 100))) \<le> 20"
    using length_decimal [of "unat (x div 100)" 19] unat_u64 by simp
  ultimately show ?thesis by (simp add: snprintf_n_def print_amount_def zero_pad_def)
qed

text \<open>What a request says of a key, apart from the amount drawn and the identifier.\<close>

definition removed :: "cli_opts_t \<Rightarrow> string \<Rightarrow> bool" where
  "removed opts k \<longleftrightarrow> lowers k \<in> lowers ` set (o_remove_keys opts)"

definition request_value :: "mstd \<Rightarrow> cli_opts_t \<Rightarrow> string \<Rightarrow> cstr" where
  "request_value L opts k =
     (if removed opts k then None
      else if has_key L (o_kvs opts) k then M_hash_dict_get_direct L (Some (o_kvs opts)) k
      else if lowers k = ''password'' \<and> \<not> M_str_isempty L (o_password opts) then o_password opts
      else if lowers k = ''username'' \<and> \<not> M_str_isempty L (o_username opts) then o_username opts
      else None)"

definition random_amounts :: "cli_opts_t \<Rightarrow> bool" where
  "random_amounts opts \<longleftrightarrow> o_min_amount opts \<noteq> 0 \<and> o_max_amount opts \<noteq> 0"

definition request_ok :: "mstd \<Rightarrow> cli_opts_t \<Rightarrow> u64 \<Rightarrow> dict \<Rightarrow> bool" where
  "request_ok L opts i d \<longleftrightarrow>
     dict_wf L d \<and>
     M_hash_dict_get_direct L (Some d) ''identifier'' = Some (decimal (unat (i + 1))) \<and>
     (random_amounts opts \<longrightarrow>
        (\<exists>r. r \<notin> {800..899} \<and> M_hash_dict_get_direct L (Some d) ''amount'' = Some (print_amount r))) \<and>
     (\<forall>k. lowers k \<noteq> ''identifier'' \<longrightarrow> (random_amounts opts \<longrightarrow> lowers k \<noteq> ''amount'') \<longrightarrow>
        M_hash_dict_get_direct L (Some d) k = request_value L opts k)"

lemma lowers_names:
  "lowers ''identifier'' = ''identifier''" "lowers ''amount'' = ''amount''"
  "lowers ''username'' = ''username''" "lowers ''password'' = ''password''"
  by code_simp+

context app_api
begin

lemma remove_keys_eq: "remove_keys A ks d = foldl (M_hash_dict_remove A) d ks"
proof -
  have "remove_keys A ks d = foldl (M_hash_dict_remove A) d (map ((!) ks) [0..<length ks])"
    unfolding remove_keys_def foldl_map by (rule foldl_cong) simp_all
  then show ?thesis by (simp add: map_nth)
qed

lemma remove_keys_get:
  "dict_wf L d \<Longrightarrow> dict_wf L (foldl (M_hash_dict_remove A) d ks) \<and>
   M_hash_dict_get_direct L (Some (foldl (M_hash_dict_remove A) d ks)) k =
     (if lowers k \<in> lowers ` set ks then None else M_hash_dict_get_direct L (Some d) k)"
  by (induction ks arbitrary: d) (simp_all add: get_remove)

lemma random_amount_result:
  "random_amount L lo hi cs = Some x \<Longrightarrow> fst x \<notin> {800..899}"
  by (induction rule: random_amount.raw_induct [rotated, consumes 1]) (auto simp: Let_def split: if_splits)

lemma request_kvs_ok:
  assumes "dict_wf L (o_kvs opts)"
  shows "dict_wf L (request_kvs L A opts)"
    "M_hash_dict_get_direct L (Some (request_kvs L A opts)) k = request_value L opts k"
proof -
  define user where "user = (if \<not> M_str_isempty L (o_username opts)
    then M_hash_dict_insert L [] ''username'' (o_username opts) else [])"
  define kvs where "kvs = (if \<not> M_str_isempty L (o_password opts)
    then M_hash_dict_insert L user ''password'' (o_password opts) else user)"
  have kvs: "dict_wf L kvs" by (simp add: kvs_def user_def del: isempty)
  have get_kvs: "M_hash_dict_get_direct L (Some kvs) k =
      (if lowers k = ''password'' \<and> \<not> M_str_isempty L (o_password opts) then o_password opts
       else if lowers k = ''username'' \<and> \<not> M_str_isempty L (o_username opts) then o_username opts
       else None)"
    by (simp add: kvs_def user_def lowers_names del: isempty)
  have eq: "request_kvs L A opts =
      foldl (M_hash_dict_remove A) (M_hash_dict_merge A kvs (o_kvs opts)) (o_remove_keys opts)"
    by (simp add: request_kvs_def kvs_def user_def remove_keys_eq Let_def del: isempty)
  show "dict_wf L (request_kvs L A opts)"
    "M_hash_dict_get_direct L (Some (request_kvs L A opts)) k = request_value L opts k"
    using remove_keys_get [of "M_hash_dict_merge A kvs (o_kvs opts)" "o_remove_keys opts" k] kvs assms
    by (simp_all add: eq request_value_def removed_def get_merge get_kvs del: isempty)
qed

lemma create_request_ok:
  assumes "dict_wf L (o_kvs opts)" "create_request L A opts i cs = Some (d, cs')"
  shows "request_ok L opts i d"
proof -
  obtain e where d: "d = M_hash_dict_insert L e ''identifier'' (Some (decimal (unat (i + 1))))"
    and e: "e = request_kvs L A opts \<and> \<not> random_amounts opts \<or> random_amounts opts \<and> (\<exists>r. r \<notin> {800..899} \<and>
        e = M_hash_dict_insert L (request_kvs L A opts) ''amount'' (Some (print_amount r)))"
  proof (cases "random_amounts opts")
    case True
    then obtain r cs'' where r: "random_amount L (o_min_amount opts) (o_max_amount opts) cs = Some (r, cs'')"
      using assms(2) by (auto simp: create_request_def Let_def random_amounts_def split: bind_splits)
    with True assms(2) that random_amount_result [OF r] show ?thesis
      by (auto simp: create_request_def Let_def random_amounts_def)
  next
    case False
    then show ?thesis using assms(2) that by (auto simp: create_request_def Let_def random_amounts_def)
  qed
  then show ?thesis
    using request_kvs_ok [OF assms(1)] by (auto simp: request_ok_def lowers_names)
qed

lemma create_requests_ok:
  "dict_wf L (o_kvs opts) \<Longrightarrow> create_requests L A opts n i ds cs = Some ds' \<Longrightarrow>
   \<exists>es. ds' = ds @ es \<and> length es = n \<and> (\<forall>j < n. request_ok L opts (i + of_nat j) (es ! j))"
proof (induction n arbitrary: i ds cs)
  case (Suc n)
  from Suc.prems(2) obtain d cs' where d: "create_request L A opts i cs = Some (d, cs')"
    "create_requests L A opts n (i + 1) (ds @ [d]) cs' = Some ds'"
    by (auto split: bind_splits)
  from Suc.IH [OF Suc.prems(1) d(2)] obtain es where es: "ds' = ds @ d # es" "length es = n"
    "\<forall>j < n. request_ok L opts (i + 1 + of_nat j) (es ! j)" by auto
  have "request_ok L opts (i + of_nat j) ((d # es) ! j)" if "j < Suc n" for j
    using that es(3) create_request_ok [OF Suc.prems(1) d(1)]
    by (cases j) (auto simp: algebra_simps)
  with es(1,2) show ?case by (intro exI [of _ "d # es"]) simp
qed simp

lemma create_requests_total:
  assumes "random_amounts opts \<longrightarrow>
    (\<exists>x. o_min_amount opts \<le> x \<and> x < o_max_amount opts \<and> x \<notin> {800..899})"
  shows "\<exists>ds'. create_requests L A opts n i ds cs = Some ds'"
proof (induction n arbitrary: i ds cs)
  case (Suc n)
  have "\<exists>d cs'. create_request L A opts i cs = Some (d, cs')"
  proof (cases "random_amounts opts")
    case True
    with assms obtain x where "o_min_amount opts \<le> x" "x < o_max_amount opts" "x \<notin> {800..899}"
      by blast
    from random_amount_total [OF this, of cs]
    obtain r cs' where "random_amount L (o_min_amount opts) (o_max_amount opts) cs = Some (r, cs')" by metis
    with True show ?thesis
      by (auto simp: create_request_def random_amounts_def Let_def)
  qed (auto simp: create_request_def random_amounts_def Let_def)
  then obtain d cs' where "create_request L A opts i cs = Some (d, cs')" by blast
  with Suc show ?case by simp
qed simp

lemma create_requests_length:
  "create_requests L A opts n i ds cs = Some ds' \<Longrightarrow> length ds' = length ds + n"
  by (induction n arbitrary: i ds cs) (auto split: bind_splits)

end

definition request_count :: "cli_opts_t \<Rightarrow> nat" where
  "request_count opts = (if o_dup opts = 0 then 1 else unat (o_dup opts))"

lemma request_count_bounds: "0 < request_count opts" "request_count opts < 2 ^ 64"
  using unsigned_less [of "o_dup opts", where 'a = nat]
  by (simp_all add: request_count_def unat_gt_0)

definition half_restricted :: "mstd \<Rightarrow> cli_opts_t \<Rightarrow> bool" where
  "half_restricted L opts \<longleftrightarrow> M_str_isempty L (o_keyfile opts) \<noteq> M_str_isempty L (o_certfile opts)"

text \<open>The port: the one given, or the one of the user.\<close>

definition port_used :: "mstd \<Rightarrow> mstd_app \<Rightarrow> cli_opts_t \<Rightarrow> u16" where
  "port_used L A opts =
     (if \<not> o_port_set opts \<and> madmin_user L A (o_username opts) then 8666 else o_port opts)"

lemma trans_create_eq:
  "cli_trans_create L A opts =
     (if M_hash_dict_num_keys L (Some (o_kvs opts)) = 0
      then Some (Inl ''An ACTION and/or kvs must be specified'')
      else if half_restricted L opts then Some (Inl ''Key and cert paths must be specified together'')
      else map_option (\<lambda>ds. Inr
        \<lparr>t_host = o_host opts, t_port = port_used L A opts,
         t_keyfile = (if M_str_isempty L (o_keyfile opts) then None else o_keyfile opts),
         t_certfile = (if M_str_isempty L (o_keyfile opts) then None else o_certfile opts),
         t_cadir = (if M_str_isempty L (o_cadir opts) then None else o_cadir opts),
         t_certvalidation = o_certvalidation opts, t_kvs = ds, t_send_serial = o_send_serial opts,
         t_outstanding_cnt = 0, t_enable_trace = o_enable_trace opts\<rparr>)
        (create_requests L A opts (request_count opts) 0 [] []))"
proof -
  have n: "unat (if o_dup opts = 0 then 1 else o_dup opts) = request_count opts"
    by (simp add: request_count_def)
  show ?thesis
    unfolding cli_trans_create_def Let_def n
    by (cases "create_requests L A opts (request_count opts) 0 [] []")
      (auto simp: zero_cli_trans_def half_restricted_def port_used_def DEFAULT_PORT_ADMIN_def
        simp del: create_requests.simps)
qed

text \<open>
  What a command line is refused for: no key at all, or only one of key file and certificate
  file. Otherwise the program gets its transactions (the amounts permitting), for the port that
  was given or else for that of the user, the administrator's for MADMIN and its sub users.
\<close>

theorem create_outcome:
  assumes "app_api L A" and "random_amounts opts \<longrightarrow>
    (\<exists>x. o_min_amount opts \<le> x \<and> x < o_max_amount opts \<and> x \<notin> {800..899})"
  shows "if (\<forall>k. \<not> has_key L (o_kvs opts) k)
    then cli_trans_create L A opts = Some (Inl ''An ACTION and/or kvs must be specified'')
    else if half_restricted L opts
    then cli_trans_create L A opts = Some (Inl ''Key and cert paths must be specified together'')
    else \<exists>tr. cli_trans_create L A opts = Some (Inr tr) \<and> t_port tr = port_used L A opts \<and>
      length (t_kvs tr) = request_count opts"
proof -
  have keys: "M_hash_dict_num_keys L (Some (o_kvs opts)) = 0 \<longleftrightarrow> (\<forall>k. \<not> has_key L (o_kvs opts) k)"
    using assms(1) app_api.axioms(4) app_dict_api.num_keys by blast
  obtain ds where ds: "create_requests L A opts (request_count opts) 0 [] [] = Some ds"
    using app_api.create_requests_total [OF assms] by blast
  then have "length ds = request_count opts"
    using app_api.create_requests_length [OF assms(1) ds] by simp
  with ds show ?thesis by (simp add: trans_create_eq keys)
qed

lemma create_outcome_witness:
  "cli_trans_create (mstd_ref []) app_ref (cli_opts_create\<lparr>o_keyfile := Some ''a.key'',
     o_kvs := [(''action'', Some ''sale'')]\<rparr>) =
     Some (Inl ''Key and cert paths must be specified together'')"
proof -
  let ?opts = "cli_opts_create\<lparr>o_keyfile := Some ''a.key'', o_kvs := [(''action'', Some ''sale'')]\<rparr>"
  have "\<not> random_amounts ?opts" "half_restricted (mstd_ref []) ?opts"
    "has_key (mstd_ref []) (o_kvs ?opts) ''action''"
    by code_simp+
  then have no_keys: "(\<forall>k. \<not> has_key (mstd_ref []) (o_kvs ?opts) k) \<longleftrightarrow> False"
    and half: "half_restricted (mstd_ref []) ?opts \<longleftrightarrow> True" by blast+
  from create_outcome [OF ref_app.app_api_axioms [of "[]"], of ?opts] \<open>\<not> random_amounts ?opts\<close>
  show ?thesis unfolding no_keys half if_False if_True by blast
qed

lemma requests_made:
  assumes "app_api L A" "dict_wf L (o_kvs opts)" "cli_trans_create L A opts = Some (Inr tr)"
  shows "length (t_kvs tr) = request_count opts"
    and "i < length (t_kvs tr) \<Longrightarrow> request_ok L opts (of_nat i) (t_kvs tr ! i)"
proof -
  obtain ds where ds: "create_requests L A opts (request_count opts) 0 [] [] = Some ds"
    and tr: "t_kvs tr = ds"
    using assms(3) by (auto simp: trans_create_eq split: if_splits)
  from app_api.create_requests_ok [OF assms(1,2) ds]
  show "length (t_kvs tr) = request_count opts"
    and "i < length (t_kvs tr) \<Longrightarrow> request_ok L opts (of_nat i) (t_kvs tr ! i)"
    by (auto simp: tr)
qed

section \<open>The command line\<close>

context app_api
begin

lemma merge_wf: "opts_wf L opts \<Longrightarrow> opts_wf L (snd (cli_opts_merge_kvs L A opts))"
  by (simp add: cli_opts_merge_kvs_def cli_opts_load_pinksn_def opts_wf_def load_kvs_wf Let_def)

lemma created_wf: "opts_wf L cli_opts_create"
  by (simp add: opts_wf_def cli_opts_create_def)

end

text \<open>
  C30. From the command line to the requests: when the program goes on, every option it was given
  was accepted, nothing was printed, and the requests are as many as \<open>--dup\<close> says and at least
  one, numbered from 1 by their \<open>identifier\<close>, each with the merged keys and the user's name and
  password, less the keys to leave out; an amount drawn at random replaces the one given, and is
  never one of 8.00 to 8.99.
\<close>

theorem command_line_requests:
  assumes "app_api L A" "getopt_api parse" "cli_parse_args L A parse argv = Some (out, Some tr)"
  shows "out = [] \<and> (\<exists>is opts. handle_items (cli_item L A) is cli_opts_create = (True, opts) \<and>
    \<not> o_help opts \<and> length (t_kvs tr) = request_count opts \<and>
    (\<forall>i < length (t_kvs tr).
       request_ok L (snd (cli_opts_merge_kvs L A opts)) (of_nat i) (t_kvs tr ! i)))"
proof -
  obtain ret fail opts where p: "parse cli_getopt (cli_item L A) argv (Some ''?'') cli_opts_create = (ret, fail, opts)"
    by (cases "parse cli_getopt (cli_item L A) argv (Some ''?'') cli_opts_create")
  let ?opts = "snd (cli_opts_merge_kvs L A opts)"
  have same: "o_help ?opts = o_help opts" "request_count ?opts = request_count opts"
    by (simp_all add: cli_opts_merge_kvs_def request_count_def Let_def)
  from assms(3) have run: "out = []" "ret = M_GETOPT_ERROR_SUCCESS" "\<not> o_help opts"
    "cli_trans_create L A ?opts = Some (Inr tr)"
    by (auto simp: cli_parse_args_def p Let_def same split: if_splits bind_splits sum.splits)
  then obtain "is" where "is": "handle_items (cli_item L A) is cli_opts_create = (True, opts)"
    using getopt_api.parse_items [OF assms(2) p] by auto
  have "opts_wf L opts"
    by (rule getopt_api.parse_invariant [OF assms(2) p [unfolded run(2)], where P = "opts_wf L"])
      (use app_api.cli_item_wf [OF assms(1)] app_api.created_wf [OF assms(1)] in auto)
  then have "dict_wf L (o_kvs ?opts)" using app_api.merge_wf [OF assms(1)] by (simp add: opts_wf_def)
  from requests_made [OF assms(1) this run(4)] run "is" show ?thesis by (auto simp: same)
qed

lemma command_line_requests_witness:
  "\<exists>out tr. cli_parse_args (mstd_ref []) app_ref ref_getopt [''monetra_cli'', ''--dup=2'', ''sale''] = Some (out, Some tr) \<and> out = []"
proof -
  let ?r = "cli_parse_args (mstd_ref []) app_ref ref_getopt [''monetra_cli'', ''--dup=2'', ''sale'']"
  have "(case ?r of Some (_, Some _) \<Rightarrow> True | _ \<Rightarrow> False)" by code_simp
  then obtain out tr where r: "?r = Some (out, Some tr)" by (auto split: option.splits)
  from command_line_requests [OF ref_app.app_api_axioms ref_getopt.getopt_api_axioms r] r
  show ?thesis by blast
qed

end
