(* ===== verification/Cli_Main.thy ===== *)
theory Cli_Main
  imports Cli_Trans LM_World
begin

text \<open>
  Running the transactions (\<open>apps/monetra_cli/src/monetra_cli.c\<close>): the requests are handed to
  the library when the connection is up, the responses are printed as they come in, and the
  connection is closed after the last one. The state is the program's own next to the
  connection's; the library is the one modelled by the \<open>LM_\<close> theories. The callback has a state
  of its own here, so the event handler of the library is composed with it once more, from the
  same parts as \<open>LM_conntrans_event_handler\<close>.
\<close>

record cli_state =
  cs_trans :: cli_trans_t
  cs_conn :: LM_conn
  cs_strs :: "nat \<Rightarrow> string option"  \<comment> \<open>the identifiers the transactions' user data point to\<close>
  cs_next :: nat
  cs_out :: string                   \<comment> \<open>what has been printed\<close>
  cs_done :: bool                    \<comment> \<open>\<open>M_event_done\<close> has been called\<close>
  cs_fault :: bool                   \<comment> \<open>an identifier was read or freed that is gone\<close>

definition printf :: "string \<Rightarrow> cli_state \<Rightarrow> cli_state" where
  "printf t s = s\<lparr>cs_out := cs_out s @ t\<rparr>"

definition upd_conn :: "(LM_conn \<Rightarrow> LM_conn) \<Rightarrow> cli_state \<Rightarrow> cli_state" where
  "upd_conn f s = s\<lparr>cs_conn := f (cs_conn s)\<rparr>"

text \<open>\<open>M_strdup\<close> and \<open>M_free\<close> of an identifier.\<close>

definition strdup :: "cstr \<Rightarrow> cli_state \<Rightarrow> nat option \<times> cli_state" where
  "strdup t s =
     (case t of
        None \<Rightarrow> (None, s)
      | Some t \<Rightarrow> (Some (cs_next s), s\<lparr>cs_strs := (cs_strs s)(cs_next s \<mapsto> t), cs_next := Suc (cs_next s)\<rparr>))"

definition free_str :: "nat option \<Rightarrow> cli_state \<Rightarrow> cli_state" where
  "free_str h s =
     (case h of
        None \<Rightarrow> s
      | Some h \<Rightarrow> if cs_strs s h = None then s\<lparr>cs_fault := True\<rparr>
                  else s\<lparr>cs_strs := (cs_strs s)(h := None)\<rparr>)"

definition read_str :: "nat option \<Rightarrow> cli_state \<Rightarrow> cstr \<times> cli_state" where
  "read_str h s =
     (case h of
        None \<Rightarrow> (None, s)
      | Some h \<Rightarrow> (cs_strs s h, if cs_strs s h = None then s\<lparr>cs_fault := True\<rparr> else s))"

section \<open>Printing\<close>

definition io_trace :: "mstd \<Rightarrow> mstd_app \<Rightarrow> M_io_trace_type_t \<Rightarrow> string \<Rightarrow> string" where
  "io_trace L A type data =
     (let print = (\<lambda>io_type.
            let dump = M_str_hexdump A [TAB] data;
                dump = (if M_str_isempty L dump then Some ([TAB] @ ''<No Data>'' @ [NL]) else dump)
            in io_type @ [NL] @ M_printf_s A dump @ [NL])
      in case type of
           M_IO_TRACE_TYPE_READ \<Rightarrow> print ''READ''
         | M_IO_TRACE_TYPE_WRITE \<Rightarrow> print ''WRITE''
         | M_IO_TRACE_TYPE_EVENT \<Rightarrow> [])"

definition kvs_line :: "mstd_app \<Rightarrow> nat \<Rightarrow> string \<Rightarrow> cstr \<Rightarrow> string" where
  "kvs_line A longest key val =
     (let len = longest - M_str_len A (Some key) + 1
      in key @ blank_pad len '' '' @ ''= '' @ M_printf_s A val @ [NL])"

definition longest_key :: "mstd_app \<Rightarrow> dict \<Rightarrow> nat" where
  "longest_key A kvs =
     foldl (\<lambda>longest (key, val).
         let len = M_str_len A (Some key) in if len > longest then len else longest)
       0 (M_hash_dict_enumerate A kvs)"

definition print_kvs :: "mstd \<Rightarrow> mstd_app \<Rightarrow> dict \<Rightarrow> string" where
  "print_kvs L A kvs =
     (let longest = longest_key A kvs;
          key = ''identifier'';
          first = (case M_hash_dict_get_direct L (Some kvs) key of
                     None \<Rightarrow> []
                   | Some val \<Rightarrow> kvs_line A longest key (Some val));
          rest = concat (map (\<lambda>(key, val).
                     if M_str_caseeq L (Some key) (Some ''identifier'') then []
                     else kvs_line A longest key val) (M_hash_dict_enumerate A kvs))
      in first @ rest @ [NL])"

definition list_trans :: "mstd \<Rightarrow> mstd_app \<Rightarrow> cli_trans_t \<Rightarrow> string" where
  "list_trans L A tr =
     concat (map (\<lambda>i. print_kvs L A (M_list_dict_at A (t_kvs tr) i)) [0..<M_list_dict_len A (t_kvs tr)])
       @ [NL]"

section \<open>Queueing a request\<close>

text \<open>\<open>have\<close>: the pointer to the transactions that is the connection's user data is not NULL.\<close>

definition set_params :: "mstd \<Rightarrow> mstd_app \<Rightarrow> ptr option \<Rightarrow> dict \<Rightarrow> LM_conn \<Rightarrow> LM_conn" where
  "set_params L A tp kvs c =
     foldl (\<lambda>c (key, val). snd (LM_trans_set_param L tp (Some key) val c)) c
       (M_hash_dict_enumerate A kvs)"

definition queue_lm_trans :: "mstd \<Rightarrow> mstd_app \<Rightarrow> bool \<Rightarrow> cli_state \<Rightarrow> (bool \<times> cli_state) option" where
  "queue_lm_trans L A have s =
     (if \<not> have then Some (False, s)
      else
        let (kvs, rest) = M_list_dict_take_first A (t_kvs (cs_trans s));
            s = s\<lparr>cs_trans := (cs_trans s)\<lparr>t_kvs := rest\<rparr>\<rparr>
        in (case kvs of
              None \<Rightarrow> Some (False, s)
            | Some kvs \<Rightarrow> do {
                (lmtrans, c) \<leftarrow> LM_trans_new L CONN (cs_conn s);
                let c = set_params L A lmtrans kvs c;
                let (ud, s) = strdup (M_hash_dict_get_direct L (Some kvs) ''identifier'') s;
                let c = snd (LM_trans_set_userdata lmtrans ud c);
                (_, c) \<leftarrow> LM_trans_send L lmtrans c;
                Some (True, s\<lparr>cs_conn := c,
                              cs_trans := (cs_trans s)\<lparr>t_outstanding_cnt :=
                                t_outstanding_cnt (cs_trans s) + 1\<rparr>\<rparr>)
              }))"

partial_function (option) queue_loop :: "mstd \<Rightarrow> mstd_app \<Rightarrow> bool \<Rightarrow> cli_state \<Rightarrow> cli_state option" where
  "queue_loop L A have s =
     (case queue_lm_trans L A have s of
        None \<Rightarrow> None
      | Some (ret, s) \<Rightarrow>
          if ret \<and> \<not> t_send_serial (cs_trans s) then queue_loop L A have s else Some s)"

section \<open>The callback\<close>

definition close_connection :: "mstd \<Rightarrow> cli_state \<Rightarrow> cli_state" where
  "close_connection L s = (upd_conn (LM_conn_destroy L CONN) s)\<lparr>cs_done := True\<rparr>"

text \<open>What is printed of a response.\<close>

definition response_kvs :: "mstd \<Rightarrow> mstd_app \<Rightarrow> ptr option \<Rightarrow> LM_conn \<Rightarrow> dict \<times> LM_conn" where
  "response_kvs L A tp c =
     (let kvs = [];
          (t1, c) = LM_trans_response_type tp c;
          (csv, c) = (if t1 = LM_TRANS_RESPONSE_CSV then (True, c)
                      else let (t2, c) = LM_trans_response_type tp c
                           in (t2 = LM_TRANS_RESPONSE_BULK, c))
      in if csv then
           let (raw, c) = LM_trans_response_raw tp c
           in (M_hash_dict_insert L kvs ''datablock'' raw, c)
         else
           let (d, c) = LM_trans_response_dict tp c
           in (case d of
                 None \<Rightarrow> (kvs, c)
               | Some d \<Rightarrow> (M_hash_dict_merge A kvs (M_hash_dict_duplicate L d), c)))"

definition trans_done_event ::
  "mstd \<Rightarrow> mstd_app \<Rightarrow> bool \<Rightarrow> nat option \<Rightarrow> ptr option \<Rightarrow> cli_state \<Rightarrow> cli_state option" where
  "trans_done_event L A have ident tp s = do {
     let (kvs, c) = response_kvs L A tp (cs_conn s);
     let s = s\<lparr>cs_conn := c\<rparr>;
     let (identifier, s) = read_str ident s;
     let kvs = M_hash_dict_insert L kvs ''identifier'' identifier;
     let s = printf (print_kvs L A kvs) s;
     let s = upd_conn (LM_trans_delete L tp) s;
     if \<not> have then Some s
     else do {
       let s = s\<lparr>cs_trans := (cs_trans s)\<lparr>t_outstanding_cnt := t_outstanding_cnt (cs_trans s) - 1\<rparr>\<rparr>;
       (_, s) \<leftarrow> queue_lm_trans L A have s;
       Some (if t_outstanding_cnt (cs_trans s) = 0
             then upd_conn (\<lambda>c. snd (LM_conn_disconnect CONN c)) s else s)
     }
   }"

definition trans_callback ::
  "mstd \<Rightarrow> mstd_app \<Rightarrow> LM_event_type \<Rightarrow> ptr option \<Rightarrow> cli_state \<Rightarrow> cli_state option" where
  "trans_callback L A type tp s = do {
     let (cli_trans, c) = LM_conn_get_userdata CONN (cs_conn s);
     let (ident, c) = (if tp = None then (None, c) else LM_trans_get_userdata tp c);
     let s = s\<lparr>cs_conn := c\<rparr>;
     let have = (cli_trans \<noteq> None);
     s \<leftarrow> (case type of
         LM_EVENT_CONN_CONNECTED \<Rightarrow> queue_loop L A have s
       | LM_EVENT_CONN_DISCONNECT \<Rightarrow> Some (close_connection L s)
       | LM_EVENT_CONN_ERROR \<Rightarrow>
           Some (close_connection L
             (printf (''Error received: '' @ M_printf_s A (LM_conn_error CONN (cs_conn s)) @ [NL]) s))
       | LM_EVENT_TRANS_DONE \<Rightarrow> trans_done_event L A have ident tp s
       | LM_EVENT_TRANS_TIMEOUT \<Rightarrow> Some s
       | _ \<Rightarrow>
           (let (identifier, s) = read_str ident s;
                s = printf (''Transaction '' @ M_printf_s A identifier @ '' error (connectivity): '' @
                       M_printf_s A (LM_conn_error CONN (cs_conn s)) @ [NL]) s
            in Some (upd_conn (LM_trans_delete L tp) s)));
     Some (free_str ident s)
   }"

section \<open>The events\<close>

partial_function (option) cli_deliver ::
  "mstd \<Rightarrow> mstd_app \<Rightarrow> events \<Rightarrow> cli_state \<Rightarrow> cli_state option" where
  "cli_deliver L A es s =
     (case M_list_take_first L es of
        (None, _) \<Rightarrow> Some s
      | (Some e, es) \<Rightarrow>
          (case trans_callback L A (ev_type e) (ev_trans e)
                  (upd_conn (ext (Event_callback (ev_type e) (ev_trans e))) s) of
             None \<Rightarrow> None
           | Some s \<Rightarrow>
               let (stop, c) = LM_conn_destroy_is_set (cs_conn s);
                   s = s\<lparr>cs_conn := c\<rparr>
               in if stop then Some s else cli_deliver L A es s))"

definition cli_handler ::
  "mstd \<Rightarrow> mstd_app \<Rightarrow> M_event_type \<Rightarrow> ptr option \<Rightarrow> cli_state \<Rightarrow> cli_state option" where
  "cli_handler L A ty event_trans s = do {
     let c = (lock_conn (cs_conn s))\<lparr>in_use := True\<rparr>;
     (es, c) \<leftarrow> handle_event L ty event_trans c;
     s \<leftarrow> cli_deliver L A es (s\<lparr>cs_conn := unlock_conn c\<rparr>);
     c \<leftarrow> finish_event L (cs_conn s);
     Some (s\<lparr>cs_conn := c\<rparr>)
   }"

fun cli_event :: "mstd \<Rightarrow> mstd_app \<Rightarrow> world_event \<Rightarrow> cli_state \<Rightarrow> cli_state option" where
  "cli_event L A (Socket_event ty) s = cli_handler L A ty None s"
| "cli_event L A Conn_timer_event s = cli_handler L A M_EVENT_TYPE_OTHER None s"
| "cli_event L A Write_trigger_event s = cli_handler L A M_EVENT_TYPE_WRITE None s"
| "cli_event L A (Trans_timer_event p) s =
     cli_handler L A M_EVENT_TYPE_OTHER (Some p) (upd_conn (touch_trans p) s)"

text \<open>The event loop, for the events as they arrive; it ends when \<open>M_event_done\<close> was called.\<close>

fun cli_event_loop :: "mstd \<Rightarrow> mstd_app \<Rightarrow> world_event list \<Rightarrow> cli_state \<Rightarrow> cli_state option" where
  "cli_event_loop L A [] s = Some s"
| "cli_event_loop L A (e # es) s =
     (if cs_done s then Some s
      else case cli_event L A e s of None \<Rightarrow> None | Some s \<Rightarrow> cli_event_loop L A es s)"

section \<open>The program\<close>

definition setup_ssl_ctx :: "mstd \<Rightarrow> mstd_app \<Rightarrow> cli_trans_t \<Rightarrow> string option" where
  "setup_ssl_ctx L A tr =
     (if \<not> M_str_isempty L (t_keyfile tr) \<and>
         \<not> M_tls_clientctx_set_cert_files A (the (t_keyfile tr)) (the (t_certfile tr))
      then Some (snprintf_n 256 (''Could not set restrictions key and certificate'' @ [NL]))
      else if \<not> M_str_isempty L (t_cadir tr) \<and> \<not> M_tls_clientctx_set_trust_ca_dir A (the (t_cadir tr))
      then Some (snprintf_n 256 (''Could not add trust CA directory'' @ [NL]))
      else if \<not> M_tls_clientctx_set_verify_level A (t_certvalidation tr)
      then Some (snprintf_n 256 (''Could not set certificate verification level'' @ [NL]))
      else None)"

text \<open>
  The result is the exit code and what was printed, or \<open>None\<close> for a run that does not end. A
  connection that could not be made is a NULL pointer to the functions that set it up; then no
  event ever arrives.
\<close>

definition cli_setup :: "mstd \<Rightarrow> cli_trans_t \<Rightarrow> LM_conn \<Rightarrow> LM_conn" where
  "cli_setup L tr c =
     (let c = LM_conn_disable_ping CONN c;
          c = snd (LM_conn_set_tls_clientctx CONN (Some 0) c);
          c = snd (LM_conn_set_userdata CONN (Some 0) c)
      in if t_enable_trace tr then snd (LM_conn_set_iocreate_callback CONN (Some 0) c) else c)"

definition cli_start :: "mstd \<Rightarrow> cli_trans_t \<Rightarrow> LM_conn \<Rightarrow> string \<Rightarrow> cli_state" where
  "cli_start L tr c out =
     \<lparr>cs_trans = tr, cs_conn = snd (LM_conn_connect L CONN (cli_setup L tr c)),
      cs_strs = (\<lambda>_. None), cs_next = 1, cs_out = out, cs_done = False, cs_fault = False\<rparr>"

definition cli_main ::
  "mstd \<Rightarrow> mstd_app \<Rightarrow> cli_opts_t getopt_parse \<Rightarrow> string list \<Rightarrow> lm_globals \<Rightarrow> world_event list \<Rightarrow>
   (nat \<times> string) option" where
  "cli_main L A M_getopt_parse argv g es = do {
     (out, tr) \<leftarrow> cli_parse_args L A M_getopt_parse argv;
     (case tr of
        None \<Rightarrow> Some (1, out)
      | Some tr \<Rightarrow>
          (case setup_ssl_ctx L A tr of
             Some text \<Rightarrow> Some (2, out @ text @ [NL])
           | None \<Rightarrow>
               let out = out @ ''-- Request --'' @ [NL] @ list_trans L A tr @ ''-- Response --'' @ [NL]
               in (case fst (LM_conn_init L False False (t_host tr) (t_port tr) g) of
                     None \<Rightarrow> None
                   | Some c \<Rightarrow> do {
                       s \<leftarrow> cli_event_loop L A es (cli_start L tr c out);
                       if cs_done s then Some (0, cs_out s) else None
                     })))
   }"

declare queue_loop.simps [code] cli_deliver.simps [code]

end
