(* ===== verification/App_Program.thy ===== *)
theory App_Program
  imports LM_Frame
begin

text \<open>
  A program on top of the library. Its callback has a state of its own, one part of which is the
  connection; the library's handler is composed with it from the same parts as
  \<open>LM_conntrans_event_handler\<close>. Whatever the program, when each call of its callback keeps the
  program's invariant and leaves the transactions alone that it was not told about, every event
  is handled completely and within the rules of the library.
\<close>

text \<open>The events of a connection after which a transaction may be deleted.\<close>

definition over_event :: "LM_event_type \<Rightarrow> bool" where
  "over_event ty \<longleftrightarrow> ty \<in> {LM_EVENT_TRANS_DONE, LM_EVENT_TRANS_ERROR, LM_EVENT_TRANS_NOCONNECT}"

text \<open>Nothing that was usable is lost, but the transaction that is over.\<close>

definition spares :: "LM_event_type \<Rightarrow> ptr option \<Rightarrow> LM_conn \<Rightarrow> LM_conn \<Rightarrow> bool" where
  "spares ty tp c c' \<longleftrightarrow>
     (\<forall>q. \<not> (over_event ty \<and> tp = Some q) \<longrightarrow> usable c (Some q) \<longrightarrow> usable c' (Some q))"

lemma spares_refl [simp]: "spares ty tp c c"
  by (simp add: spares_def)

lemma spares_trans: "spares ty tp c d \<Longrightarrow> spares ty tp d e \<Longrightarrow> spares ty tp c e"
  by (simp add: spares_def)

lemma spares_same:
  assumes "grows c d" "in_use c" "trans_delay_rm d = trans_delay_rm c"
    and "pingtxn d = pingtxn c" "trans_pending d = trans_pending c"
  shows "spares ty tp c d"
  using assms by (auto simp: spares_def usable_def grows_def)

lemma told_once_Cons:
  "told_once c (Entry ty tp # es) \<Longrightarrow>
   told_once c es \<and> (\<forall>p. tp = Some p \<longrightarrow> over_event ty \<longrightarrow> usable c (Some p) \<and> p \<notin> set (overs es))"
  by (auto simp: told_once_def over_event_def split: option.splits if_splits)

lemma usable_frame [simp]:
  "usable (ext x c) = usable c" "usable (lock_conn c) = usable c" "usable (unlock_conn c) = usable c"
  "destroy (ext x c) = destroy c" "next_ptr (ext x c) = next_ptr c" "txns (ext x c) = txns c"
  "in_use (ext x c) = in_use c" "setting (ext x c) = setting c"
  by (simp_all add: fun_eq_iff usable_def live_def setting_def ext_def split: option.split)

text \<open>A connection that is marked is freed at the end of the event.\<close>

lemma finish_frees:
  assumes "finish_event L c = Some d" "destroy c"
  shows "conn_freed d"
proof -
  obtain e where e: "delay_rm_loop L (lock_conn c) = Some e"
    using assms(1) by (auto simp: finish_event_def Let_def split: Option.bind_splits)
  define f where "f = unlock_conn (e\<lparr>in_use := False\<rparr>)"
  define h where "h = (if conn_status e = LM_CONN_STATUS_DISCONNECTED \<and> M_queue_len L (trans_ready e) \<noteq> 0
    then snd (LM_conn_connect L CONN f) else f)"
  have "client_part h = client_part c" using client.delay_rm_kept [OF e] by (simp add: h_def f_def)
  then have "destroy h" using assms(2) by (simp add: client_part_def)
  have "\<not> in_use h" using conn_ops_grow(1) [of f L CONN] by (simp add: h_def grows_def f_def)
  obtain stop k where k: "LM_conn_destroy_is_set h = (stop, k)" by fastforce
  then have "stop" "\<not> in_use k" using \<open>destroy h\<close> \<open>\<not> in_use h\<close>
    by (auto simp: LM_conn_destroy_is_set_def Let_def)
  moreover have "d = (if stop then LM_conn_destroy L CONN k else k)"
    using assms(1) e k by (simp add: finish_event_def Let_def f_def h_def split: if_splits)
  ultimately show ?thesis by (simp add: LM_conn_destroy_def Let_def lock_conn_frame)
qed

text \<open>
  \<open>good n\<close> is what holds while \<open>n\<close> events are still to be told, \<open>closed\<close> what is left of it once the
  program has destroyed the connection, \<open>halted\<close> when it has been left in the middle of an event.
\<close>

locale program = mstd_rand_api L for L :: mstd +
  fixes conn :: "'s \<Rightarrow> LM_conn" and set_conn :: "LM_conn \<Rightarrow> 's \<Rightarrow> 's"
    and stopped :: "'s \<Rightarrow> bool" and good :: "nat \<Rightarrow> 's \<Rightarrow> bool" and closed :: "'s \<Rightarrow> bool"
    and halted :: "'s \<Rightarrow> bool"
    and callback :: "LM_event_type \<Rightarrow> ptr option \<Rightarrow> 's \<Rightarrow> 's option"
    and deliver_to :: "events \<Rightarrow> 's \<Rightarrow> 's option"
  assumes conn_set [simp]: "conn (set_conn c s) = c"
    and stopped_set: "stopped (set_conn c s) = stopped s"
    and good_set: "good n s \<Longrightarrow> setting c = setting (conn s) \<Longrightarrow> destroy c = destroy (conn s) \<Longrightarrow>
      good n (set_conn c s)"
    and closed_set: "closed s \<Longrightarrow> setting c = setting (conn s) \<Longrightarrow> closed (set_conn c s)"
    and good_closed: "good n s \<Longrightarrow> destroy (conn s) \<Longrightarrow> closed s"
    and deliver_Nil: "deliver_to [] s = Some s"
    and deliver_Cons: "deliver_to (Entry ty tp # es) s =
      (case callback ty tp (set_conn (ext (Event_callback ty tp) (conn s)) s) of
         None \<Rightarrow> None
       | Some s \<Rightarrow>
           if stopped s then Some s
           else let (stop, c) = LM_conn_destroy_is_set (conn s)
                in if stop then Some (set_conn c s) else deliver_to es (set_conn c s))"
    and callback_keeps:
      "\<lbrakk>held L (conn s); good (Suc n) s; \<And>p. tp = Some p \<Longrightarrow> live (conn s) p;
        \<And>p. tp = Some p \<Longrightarrow> over_event ty \<Longrightarrow> usable (conn s) (Some p)\<rbrakk>
       \<Longrightarrow> \<exists>s'. callback ty tp s = Some s' \<and> held L (conn s') \<and> grows (conn s) (conn s') \<and>
         (if stopped s' then halted s'
          else if destroy (conn s') then closed s' else good n s' \<and> spares ty tp (conn s) (conn s'))"
begin

lemma deliver_total:
  assumes "held L (conn s)" "good (length es) s" "told_once (conn s) es" "\<not> stopped s" "events_live (conn s) es"
  shows "\<exists>s'. deliver_to es s = Some s' \<and> held L (conn s') \<and> grows (conn s) (conn s') \<and>
    (if stopped s' then halted s' else if destroy (conn s') then closed s' else good 0 s')"
  using assms
proof (induction es arbitrary: s)
  case Nil
  then show ?case by (simp add: deliver_Nil good_closed)
next
  case (Cons e es)
  obtain ty tp where e: "e = Entry ty tp" by (cases e)
  let ?s = "set_conn (ext (Event_callback ty tp) (conn s)) s"
  have told: "told_once (conn s) es"
    "tp = Some p \<Longrightarrow> over_event ty \<Longrightarrow> usable (conn s) (Some p) \<and> p \<notin> set (overs es)" for p
    using told_once_Cons Cons.prems(3) by (auto simp: e)
  have same: "usable (conn ?s) = usable (conn s)" by simp
  have "held L (conn ?s)" using Cons.prems(1) by (simp add: held_def lm_inv_simps)
  moreover have "setting (conn ?s) = setting (conn s)" by simp
  then have "good (Suc (length es)) ?s" using good_set Cons.prems(2) by simp
  moreover have "usable (conn ?s) (Some p)" if "tp = Some p" "over_event ty" for p
    using told(2) [OF that] same by simp
  moreover have "live (conn ?s) p" if "tp = Some p" for p
    using Cons.prems(5) that by (simp add: e events_live_def live_def)
  ultimately obtain s1 where s1: "callback ty tp ?s = Some s1" "held L (conn s1)"
    "grows (conn ?s) (conn s1)"
    "if stopped s1 then halted s1 else if destroy (conn s1) then closed s1
       else good (length es) s1 \<and> spares ty tp (conn ?s) (conn s1)"
    using callback_keeps [of ?s "length es" tp ty] by auto
  have f0: "grows (conn s) (conn ?s)" by (rule grows_same) simp_all
  obtain stop d where d: "LM_conn_destroy_is_set (conn s1) = (stop, d)" by fastforce
  have "d = unlock_conn (lock_conn (conn s1))"
    using d by (simp add: LM_conn_destroy_is_set_def Let_def)
  then have same2: "usable d = usable (conn s1)" by simp
  have d2: "held L d" "grows (conn s1) d" "stop = destroy (conn s1)" "setting d = setting (conn s1)"
    using destroy_is_set_inv [of "conn s1"] s1(2) d setting.reads_kept(7) [of "conn s1"]
    by (simp_all add: held_def grows_def)
  have f: "grows (conn s) (conn s1)" by (rule grows_trans [OF f0 s1(3)])
  then have fd: "grows (conn s) d" using d2(2) by (rule grows_trans)
  have destroy_d: "destroy d = destroy (conn s1)"
    using \<open>d = unlock_conn (lock_conn (conn s1))\<close> by (simp add: lock_conn_frame)
  have kept_d: "if stop then closed (set_conn d s1) else good (length es) (set_conn d s1)" if "\<not> stopped s1"
    using good_set closed_set s1(4) that d2(3,4) destroy_d by simp
  have step: "deliver_to (e # es) s =
      (if stopped s1 then Some s1 else if stop then Some (set_conn d s1) else deliver_to es (set_conn d s1))"
    by (simp add: e deliver_Cons s1(1) d)
  show ?case
  proof (cases "stopped s1 \<or> stop")
    case True
    with step s1(2,4) f d2 fd kept_d destroy_d show ?thesis by (auto simp: stopped_set)
  next
    case False
    have "usable d (Some q)" if "q \<in> set (overs es)" for q
    proof -
      have "spares ty tp (conn ?s) (conn s1)" using s1(4) False d2(3) by simp
      moreover have "usable (conn ?s) (Some q)" using told(1) that by (simp add: told_once_def)
      moreover have "\<not> (over_event ty \<and> tp = Some q)" using told(2) that by blast
      ultimately show ?thesis using same2 by (simp add: spares_def)
    qed
    then have "told_once (conn (set_conn d s1)) es" using told(1) by (simp add: told_once_def)
    moreover have "events_live d es"
      using events_live_grows [of "conn s" es d] fd Cons.prems(1,5) by (simp add: held_def events_live_def)
    ultimately obtain s' where
      s': "deliver_to es (set_conn d s1) = Some s'" "held L (conn s')" "grows d (conn s')"
      "if stopped s' then halted s' else if destroy (conn s') then closed s' else good 0 s'"
      using Cons.IH [of "set_conn d s1"] False d2(1) kept_d by (auto simp: stopped_set)
    show ?thesis
      using s'(2,4) grows_trans [OF fd s'(3)] step s'(1) False by (intro exI [of _ s']) simp
  qed
qed

text \<open>
  One event, from the entry of the handler to its end. What the handler itself does before the
  delivery must keep the program's invariant.
\<close>

lemma handler_total:
  assumes "client_inv L (conn s)" "\<not> in_use (conn s)" "event_ok (conn s) ty et" "\<not> stopped s"
    and "\<And>es e. handle_event L ty et ((lock_conn (conn s))\<lparr>in_use := True\<rparr>) = Some (es, e)
      \<Longrightarrow> good (length es) (set_conn (unlock_conn e) s)"
  obtains es e s' where "handle_event L ty et ((lock_conn (conn s))\<lparr>in_use := True\<rparr>) = Some (es, e)"
    and "deliver_to es (set_conn (unlock_conn e) s) = Some s'"
    and "forward (conn s) (conn s')" and "held L (conn s')" and "stopped s' \<Longrightarrow> halted s'"
    and "\<not> stopped s' \<Longrightarrow> \<exists>c'. finish_event L (conn s') = Some c' \<and> client_inv L c' \<and> \<not> in_use c' \<and>
      conn_freed c' = destroy (conn s') \<and> forward (conn s) c' \<and>
      (if destroy (conn s') then closed (set_conn c' s') else good 0 (set_conn c' s'))"
proof -
  obtain es e where e: "handle_event L ty et ((lock_conn (conn s))\<lparr>in_use := True\<rparr>) = Some (es, e)"
    "held L (unlock_conn e)" "told_once (unlock_conn e) es" "events_live (unlock_conn e) es"
    "forward (conn s) (unlock_conn e)"
    by (rule handled [OF assms(1-3)])
  obtain s' where s': "deliver_to es (set_conn (unlock_conn e) s) = Some s'" "held L (conn s')"
    "grows (unlock_conn e) (conn s')"
    "if stopped s' then halted s' else if destroy (conn s') then closed s' else good 0 s'"
    using deliver_total [of "set_conn (unlock_conn e) s" es] e(2-4) assms(4) assms(5) [OF e(1)]
    by (auto simp: stopped_set)
  have f: "forward (conn s) (conn s')" using forward_trans [OF e(5)] s'(3) by (simp add: grows_def)
  have inv: "inv_at L [] (conn s')" using s'(2) by (simp add: held_def)
  have "\<exists>c'. finish_event L (conn s') = Some c' \<and> client_inv L c' \<and> \<not> in_use c' \<and>
      conn_freed c' = destroy (conn s') \<and> forward (conn s) c' \<and>
      (if destroy (conn s') then closed (set_conn c' s') else good 0 (set_conn c' s'))" if "\<not> stopped s'"
  proof -
    obtain c' where c': "finish_event L (conn s') = Some c'" "client_inv L c'" "\<not> in_use c'"
      "forward (conn s') c'"
      by (rule finish_event_total [OF inv])
    moreover have "conn_freed c' = destroy (conn s')"
      using finish_frees [OF c'(1)] finish_keeps_client [OF c'(1)] inv_at_not_freed [OF inv]
      by (auto simp: client_part_def)
    moreover have "if destroy (conn s') then closed (set_conn c' s') else good 0 (set_conn c' s')"
      using good_set [of 0 s' c'] closed_set [of s' c'] s'(4) that setting.finish_kept [OF c'(1)]
        finish_keeps_client [OF c'(1)] by (auto simp: client_part_def)
    ultimately show ?thesis using forward_trans [OF f] by blast
  qed
  with e(1) s'(1,2,4) f show ?thesis by (intro that) auto
qed

end

end
