(* ===== verification/App_Conn.thy ===== *)
theory App_Conn
  imports App_Program
begin

text \<open>
  What the operations a program calls in its callback keep of the connection: its status and
  settings, and the transactions that may be used.
\<close>

section \<open>What the operations on a transaction leave alone\<close>

definition wire :: "LM_conn \<Rightarrow> nat \<times> LM_conn_status_t \<times> handle option \<times> nat option" where
  "wire c = (next_ptr c, conn_status c, io c, conn_user_data c)"

lemma wire_frame [simp]:
  "wire (ext x c) = wire c" "wire (lock_conn c) = wire c" "wire (unlock_conn c) = wire c"
  "wire (lock_trans p c) = wire c" "wire (unlock_trans p c) = wire c"
  "wire (touch c) = wire c" "wire (touch_trans p c) = wire c" "wire (upd_trans p f c) = wire c"
  "wire (event_timer_remove c) = wire c"
  by (simp_all add: wire_def ext_def lock_conn_def unlock_conn_def lock_trans_def unlock_trans_def
      touch_def touch_trans_def upd_trans_def event_timer_remove_def split: option.split)

lemma wire_fields [simp]:
  "wire (c\<lparr>trans_new := q\<rparr>) = wire c" "wire (c\<lparr>trans_ready := q\<rparr>) = wire c"
  "wire (c\<lparr>trans_pending := q\<rparr>) = wire c" "wire (c\<lparr>trans_done := q\<rparr>) = wire c"
  "wire (c\<lparr>trans_delay_rm := q\<rparr>) = wire c" "wire (c\<lparr>outbuf := b\<rparr>) = wire c"
  "wire (c\<lparr>next_handle := h\<rparr>) = wire c" "wire (c\<lparr>txns := m\<rparr>) = wire c"
  "wire (c\<lparr>destroy := d\<rparr>) = wire c"
  by (simp_all add: wire_def)

lemma status_frame [simp]:
  "in_use (upd_trans p f c) = in_use c" "conn_status (upd_trans p f c) = conn_status c"
  "in_use (touch_trans p c) = in_use c" "conn_status (touch_trans p c) = conn_status c"
  "in_use (lock_trans p c) = in_use c" "conn_status (lock_trans p c) = conn_status c"
  by (simp_all add: upd_trans_def touch_trans_def lock_trans_def ext_def split: option.split)

lemma wire_set_param [simp]: "wire (snd (LM_trans_set_param L tp k v c)) = wire c"
  by (simp add: LM_trans_set_param_def Let_def split: option.split)

lemma wire_set_userdata [simp]: "wire (snd (LM_trans_set_userdata tp ud c)) = wire c"
  by (simp add: LM_trans_set_userdata_def split: option.split)

lemma wire_structure [simp]: "wire (LM_trans_structure L p c) = wire c"
  by (simp add: LM_trans_structure_def Let_def)

lemma wire_send_one [simp]: "wire (send_one L p c) = wire c"
  by (simp add: send_one_def new_handle_def Let_def)

lemma wire_send_loop: "send_loop L c = Some d \<Longrightarrow> wire d = wire c"
  by (induction rule: send_loop.raw_induct [rotated, consumes 1])
    (auto split: prod.splits option.splits)

lemma wire_send_messages:
  "LM_trans_send_messages L c = Some d \<Longrightarrow> conn_status c = LM_CONN_STATUS_CONNECTED \<Longrightarrow> wire d = wire c"
  by (auto simp: LM_trans_send_messages_def Let_def split_beta split: Option.bind_splits if_splits
      dest!: wire_send_loop)

lemma wire_send:
  "LM_trans_send L tp c = Some r \<Longrightarrow> conn_status c = LM_CONN_STATUS_CONNECTED \<Longrightarrow> wire (snd r) = wire c"
  by (auto simp: LM_trans_send_def Let_def split: Option.bind_splits option.splits if_splits
      dest!: wire_send_messages)

lemma wire_delete [simp]: "in_use c \<Longrightarrow> wire (LM_trans_delete L tp c) = wire c"
  by (simp add: LM_trans_delete_def Let_def split: option.split)

lemma wire_response [simp]:
  "wire (snd (LM_trans_response_type tp c)) = wire c"
  "wire (snd (LM_trans_response_raw tp c)) = wire c"
  "wire (snd (LM_trans_response_dict tp c)) = wire c"
  by (simp_all add: LM_trans_response_type_def LM_trans_response_raw_def LM_trans_response_dict_def
      Let_def split: option.split)

text \<open>What decides whether a transaction may be used, next to its being there.\<close>

definition hold :: "LM_conn \<Rightarrow> (ptr list \<times> ptr option) \<times> ptr list" where
  "hold c = ((trans_delay_rm c, pingtxn c), trans_pending c)"

lemma hold_frame [simp]:
  "hold (ext x c) = hold c" "hold (lock_conn c) = hold c" "hold (unlock_conn c) = hold c"
  "hold (lock_trans p c) = hold c" "hold (unlock_trans p c) = hold c" "hold (touch c) = hold c"
  "hold (touch_trans p c) = hold c" "hold (upd_trans p f c) = hold c" "hold (set_error m c) = hold c"
  "hold (event_timer_remove c) = hold c" "hold (snd (new_handle c)) = hold c"
  by (simp_all add: hold_def ext_def lock_conn_def unlock_conn_def lock_trans_def unlock_trans_def
      touch_def touch_trans_def upd_trans_def set_error_def event_timer_remove_def new_handle_def
      split: option.split)

lemma hold_fields [simp]:
  "hold (c\<lparr>conn_status := s\<rparr>) = hold c" "hold (c\<lparr>io := h\<rparr>) = hold c" "hold (c\<lparr>tlsctx := h\<rparr>) = hold c"
  "hold (c\<lparr>trans_new := q\<rparr>) = hold c" "hold (c\<lparr>trans_ready := q\<rparr>) = hold c"
  "hold (c\<lparr>next_handle := k\<rparr>) = hold c" "hold (c\<lparr>error := m\<rparr>) = hold c" "hold (c\<lparr>destroy := d\<rparr>) = hold c"
  by (simp_all add: hold_def)

lemma hold_tlsctx [simp]: "hold (ensure_tlsctx c) = hold c"
  by (simp add: ensure_tlsctx_def new_handle_def Let_def split: option.split)

lemma hold_connect [simp]: "hold (snd (LM_conn_connect L conn c)) = hold c"
proof -
  have "hold (snd (connect_locked L c)) = hold c" for c
    unfolding connect_locked_def by (intro kept_steps [where g = hold]) (simp_all add: new_handle_def split: option.split)
  then show ?thesis by (simp add: LM_conn_connect_def split_beta)
qed

lemma hold_ops [simp]:
  "hold (snd (LM_trans_set_param L tp k v c)) = hold c"
  "hold (snd (LM_trans_set_userdata tp ud c)) = hold c"
  "hold (snd (LM_conn_disconnect conn c)) = hold c"
  by (simp_all add: LM_trans_set_param_def LM_trans_set_userdata_def LM_conn_disconnect_def
      LM_conn_disconnect_connlocked_def split_beta Let_def split: option.split)

lemma hold_send_loop:
  "send_loop L c = Some d \<Longrightarrow> fst (hold d) = fst (hold c)"
proof (induction rule: send_loop.raw_induct [rotated, consumes 1])
  case (1 send L c d)
  have "fst (hold (c\<lparr>outbuf := b\<rparr>)) = fst (hold c)" "fst (hold (c\<lparr>trans_pending := q\<rparr>)) = fst (hold c)" for b q c
    by (simp_all add: hold_def)
  then have one: "fst (hold (send_one L p c)) = fst (hold c)"
    "fst (hold (c\<lparr>trans_pending := q\<rparr>)) = fst (hold c)" for p q c
    by (simp_all add: send_one_def LM_trans_structure_def new_handle_def Let_def)
  show ?case using 1 by (auto simp: one split: prod.splits option.splits)
qed

lemma hold_send_messages:
  assumes "LM_trans_send_messages L c = Some d"
  shows "if conn_status c = LM_CONN_STATUS_CONNECTED
    then fst (hold d) = fst (hold c) else hold d = hold c"
  using assms
  by (auto simp: LM_trans_send_messages_def Let_def split_beta split: Option.bind_splits if_splits
      dest!: hold_send_loop)

lemma hold_send:
  assumes "LM_trans_send L tp c = Some r"
  shows "if conn_status c = LM_CONN_STATUS_CONNECTED
    then fst (hold (snd r)) = fst (hold c) else hold (snd r) = hold c"
  using assms
  by (auto simp: LM_trans_send_def Let_def split: Option.bind_splits option.splits if_splits
      dest!: hold_send_messages)

lemma keeps_usable:
  assumes "grows c d" "in_use c" "hold d = hold c"
  shows "spares ty tp c d"
  using assms by (intro spares_same) (simp_all add: hold_def)

lemma spares_send:
  assumes "LM_trans_send L tq c = Some r" "held L c" "grows c (snd r)"
  shows "spares ty tp c (snd r)"
proof (cases "conn_status c = LM_CONN_STATUS_CONNECTED")
  case True
  have "pingtxn c = None" using assms(2) True by (simp add: held_def inv_at_def lm_inv_def ping_inv_def)
  then show ?thesis
    using hold_send [OF assms(1)] True assms(2,3)
    by (auto simp: spares_def usable_def grows_def held_def hold_def)
next
  case False
  with hold_send [OF assms(1)] assms(2,3) show ?thesis by (intro keeps_usable) (simp_all add: held_def)
qed

text \<open>In a callback, a deletion is put off; it takes nothing but the transaction itself away.\<close>

lemma spares_delete:
  assumes "in_use c" "grows c (LM_trans_delete L (Some p) c)" "over_event ty" "list_api L"
  shows "spares ty (Some p) c (LM_trans_delete L (Some p) c)"
proof -
  have delay: "hold (c\<lparr>trans_delay_rm := q\<rparr>) = ((q, pingtxn c), trans_pending c)" for q c
    by (simp add: hold_def)
  define d where "d = upd_trans p (\<lambda>t. t\<lparr>user_data := None\<rparr>) (lock_conn (touch_trans p c))"
  have d: "hold d = hold c" "in_use d" using assms(1) by (simp_all add: d_def)
  define e where "e = (case timeout_timer (trans_at d p) of None \<Rightarrow> d
    | Some h \<Rightarrow> upd_trans p (\<lambda>t. t\<lparr>timeout_timer := None\<rparr>) (ext (Timer_remove (Some h)) d))"
  have e: "hold e = hold c" "in_use e" using d by (simp_all add: e_def split: option.split)
  have "LM_trans_delete L (Some p) c = unlock_conn (e\<lparr>trans_delay_rm := M_llist_insert L (trans_delay_rm e) p\<rparr>)"
    using e(2) unfolding LM_trans_delete_def Let_def option.case d_def [symmetric] e_def [symmetric] by simp
  then have "hold (LM_trans_delete L (Some p) c) = ((trans_delay_rm c @ [p], pingtxn c), trans_pending c)"
    using e(1) assms(4) by (simp add: delay list_api.llist_insert) (simp add: hold_def)
  with assms show ?thesis by (auto simp: spares_def usable_def grows_def hold_def)
qed

section \<open>A connection in the hands of the callback\<close>

text \<open>Fewer than \<open>2 ^ 31\<close> transactions have been made: then there are ids left.\<close>

lemma room_ids:
  assumes "core_inv L c" "next_ptr c < 0x7FFFFFFF"
  shows "ids_left c"
proof -
  have fin: "finite {p. live c p}" and card: "card {p. live c p} \<le> next_ptr c"
  proof -
    have "{p. live c p} \<subseteq> {..<next_ptr c}" using core_inv_below [OF assms(1)] by (auto simp: live_def)
    from finite_subset [OF this] card_mono [OF _ this]
    show "finite {p. live c p}" "card {p. live c p} \<le> next_ptr c" by simp_all
  qed
  have "set (queues c) \<subseteq> {p. live c p}"
    using assms(1) by (auto simp: core_inv_def queue_inv_def queues_def status_is_def live_def)
  moreover have "distinct (queues c)" using assms(1) queue_inv_distinct by (simp add: core_inv_def)
  ultimately have "length (queues c) \<le> card {p. live c p}"
    using card_mono [OF fin] distinct_card by metis
  moreover have "set (trans_delay_rm c) \<subseteq> {p. live c p}" "distinct (trans_delay_rm c)"
    using assms(1) by (auto simp: core_inv_def delay_inv_def)
  then have "length (trans_delay_rm c) \<le> card {p. live c p}"
    using card_mono [OF fin] distinct_card by metis
  ultimately show ?thesis using card assms(2) by (simp add: ids_left_def)
qed

section \<open>A connection is set up\<close>

lemma user_data_frame [simp]:
  "conn_user_data (ext x c) = conn_user_data c" "conn_user_data (touch c) = conn_user_data c"
  "conn_user_data (lock_conn c) = conn_user_data c" "conn_user_data (unlock_conn c) = conn_user_data c"
  by (simp_all add: ext_def touch_def lock_conn_def unlock_conn_def)

lemma setters_keep [simp]:
  "client_part (snd (LM_conn_set_tls_clientctx CONN x c)) = client_part c"
  "client_part (snd (LM_conn_set_iocreate_callback CONN x c)) = client_part c"
  "client_part (snd (LM_conn_change_mode CONN m c)) = client_part c"
  "client_part (snd (LM_conn_set_userdata CONN x c)) = (x, snd (client_part c))"
  "client_part (LM_conn_disable_ping CONN c) = client_part c"
  "setting (snd (LM_conn_set_tls_clientctx CONN x c)) = setting c"
  "setting (snd (LM_conn_set_iocreate_callback CONN x c)) = setting c"
  "setting (snd (LM_conn_change_mode CONN m c)) = setting c"
  "setting (snd (LM_conn_set_userdata CONN x c)) = (next_ptr c, x, disable_ping c)"
  "setting (LM_conn_disable_ping CONN c) = (next_ptr c, conn_user_data c, True)"
  by (simp_all add: client_part_def setting_def LM_conn_set_tls_clientctx_def LM_conn_set_iocreate_callback_def
      LM_conn_change_mode_def LM_conn_set_userdata_def LM_conn_disable_ping_def Let_def split: option.split)

lemma setters_next_ptr [simp]:
  "next_ptr (snd (LM_conn_set_tls_clientctx CONN x c)) = next_ptr c"
  "next_ptr (snd (LM_conn_set_iocreate_callback CONN x c)) = next_ptr c"
  "next_ptr (snd (LM_conn_change_mode CONN m c)) = next_ptr c"
  "next_ptr (snd (LM_conn_set_userdata CONN x c)) = next_ptr c"
  by (simp_all add: LM_conn_set_tls_clientctx_def LM_conn_set_iocreate_callback_def
      LM_conn_change_mode_def LM_conn_set_userdata_def Let_def split: option.split)

context mstd_rand_api
begin

lemma init_fresh:
  assumes "LM_conn_init L False False h p g = (Some c, g')"
  shows "client_inv L c" "\<not> in_use c" "client_part c = (None, False, False)" "next_ptr c = 1" "pingtxn c = None"
proof -
  show "client_inv L c" "\<not> in_use c" using init_inv [OF assms] by (simp_all add: world_inv_def)
  show "client_part c = (None, False, False)" "next_ptr c = 1" "pingtxn c = None"
    using assms unfolding client_part_def
    by (auto simp: LM_conn_init_def LM_conn_change_server_def Let_def split_beta zero_conn_def
        split: if_splits)
qed

end

section \<open>Reading and deleting\<close>

lemma held_touch: "held L c \<Longrightarrow> touch c = c"
  using inv_at_not_freed by (auto simp: held_def touch_def)

definition look_at :: "ptr \<Rightarrow> LM_conn \<Rightarrow> LM_conn" where
  "look_at p c = unlock_trans p (lock_trans p c)"

text \<open>The same connection for all that matters to a program that only looks.\<close>

definition same_conn :: "mstd \<Rightarrow> LM_conn \<Rightarrow> LM_conn \<Rightarrow> bool" where
  "same_conn L c d \<longleftrightarrow> held L d \<and> grows c d \<and> wire d = wire c \<and> hold d = hold c \<and> setting d = setting c"

lemma same_conn_refl: "held L c \<Longrightarrow> same_conn L c c"
  by (simp add: same_conn_def)

lemma same_conn_trans: "same_conn L c d \<Longrightarrow> same_conn L d e \<Longrightarrow> same_conn L c e"
  using grows_trans by (auto simp: same_conn_def)

lemma same_conn_live: "same_conn L c d \<Longrightarrow> held L c \<Longrightarrow> live c p \<Longrightarrow> live d p"
  using in_use_live by (auto simp: same_conn_def held_def)

lemma same_conn_usable: "same_conn L c d \<Longrightarrow> held L c \<Longrightarrow> usable c tp \<Longrightarrow> usable d tp"
  using same_conn_live [of L c d]
  by (cases tp) (auto simp: usable_def same_conn_def hold_def)

lemma same_conn_spares: "same_conn L c d \<Longrightarrow> held L c \<Longrightarrow> spares ty tp c d"
  using same_conn_usable by (simp add: spares_def)

lemma look_at_same:
  assumes "held L c" "live c p"
  shows "same_conn L c (look_at p c)"
proof -
  obtain t where t: "txns c p = Some t" using assms(2) by (auto simp: live_def)
  have "inv_at L [] (look_at p c)" "grows c (look_at p c)"
    using locked_same [where L = L, OF _ t] assms(1) by (simp_all add: look_at_def held_def)
  then show ?thesis using assms by (simp add: same_conn_def held_def grows_def look_at_def)
qed

lemma reads_look:
  "snd (LM_trans_response_type (Some p) c) = look_at p c"
  "snd (LM_trans_response_raw (Some p) c) = look_at p c"
  "snd (LM_trans_response_dict (Some p) c) = look_at p c"
  "snd (LM_trans_response_param L (Some p) k c) = (if M_str_isempty L k then c else look_at p c)"
  by (simp_all add: LM_trans_response_type_def LM_trans_response_raw_def LM_trans_response_dict_def
      LM_trans_response_param_def Let_def look_at_def)

context mstd_rand_api
begin

lemma deleted_in_callback:
  assumes "held L c" "usable c tp"
  shows "held L (LM_trans_delete L tp c)" "grows c (LM_trans_delete L tp c)"
    "setting (LM_trans_delete L tp c) = setting c" "wire (LM_trans_delete L tp c) = wire c"
    "over_event ty \<Longrightarrow> spares ty tp c (LM_trans_delete L tp c)"
proof -
  have c: "inv_at L [] c" "in_use c" using assms(1) by (simp_all add: held_def)
  have gh: "grows c (LM_trans_delete L tp c) \<and> held L (LM_trans_delete L tp c)"
  proof (cases tp)
    case None
    with assms(1) show ?thesis by (simp add: LM_trans_delete_def)
  next
    case (Some p)
    with trans_delete_inv [of c tp] c assms(2) show ?thesis by (auto simp: held_def usable_def grows_def)
  qed
  then show "held L (LM_trans_delete L tp c)" "grows c (LM_trans_delete L tp c)" by simp_all
  show "setting (LM_trans_delete L tp c) = setting c" "wire (LM_trans_delete L tp c) = wire c"
    using c(2) by simp_all
  show "spares ty tp c (LM_trans_delete L tp c)" if "over_event ty"
  proof (cases tp)
    case None
    then show ?thesis by (simp add: LM_trans_delete_def)
  next
    case (Some p)
    with spares_delete [OF c(2) _ that list_api_axioms, of p] gh show ?thesis by simp
  qed
qed

end

section \<open>Closing in the callback\<close>

lemma disconnect_held:
  assumes "held L c"
  shows "held L (snd (LM_conn_disconnect CONN c))" "grows c (snd (LM_conn_disconnect CONN c))"
    "conn_status c = LM_CONN_STATUS_CONNECTED \<Longrightarrow>
     conn_status (snd (LM_conn_disconnect CONN c)) = LM_CONN_STATUS_DISCONNECTING"
proof -
  have c: "inv_at L [] c" "in_use c" using assms by (simp_all add: held_def)
  show g: "grows c (snd (LM_conn_disconnect CONN c))" by (rule conn_ops_grow)
  show "held L (snd (LM_conn_disconnect CONN c))"
    using LM_conn_disconnect_inv [OF c(1)] g c(2) by (simp add: held_def grows_def)
  assume up: "conn_status c = LM_CONN_STATUS_CONNECTED"
  then obtain h where "io c = Some h"
    using c(1) by (auto simp: inv_at_def lm_inv_def core_inv_def io_inv_def)
  with c up show "conn_status (snd (LM_conn_disconnect CONN c)) = LM_CONN_STATUS_DISCONNECTING"
    by (simp add: LM_conn_disconnect_def LM_conn_disconnect_connlocked_def Let_def)
qed

lemma destroy_held:
  assumes "mstd_api L" "held L c"
  shows "held L (LM_conn_destroy L CONN c)" "grows c (LM_conn_destroy L CONN c)"
    "destroy (LM_conn_destroy L CONN c)"
proof -
  have c: "inv_at L [] c" "in_use c" using assms(2) by (simp_all add: held_def)
  show "held L (LM_conn_destroy L CONN c)" "grows c (LM_conn_destroy L CONN c)"
    "destroy (LM_conn_destroy L CONN c)"
    using mstd_api.conn_destroy_busy [OF assms(1) c] by (auto simp: held_def grows_def LM_conn_destroy_def Let_def c)
qed

end
