(* ===== verification/Cli_Run_Spec.thy ===== *)
theory Cli_Run_Spec
  imports Cli_Main App_Std_Ref App_Conn LM_Conn_Spec
begin

text \<open>
  What the callback of \<open>monetra_cli\<close> does to the connection and to its own counting: it keeps to
  the rules of the library in every event, hands over every request once and in order, and
  closes the connection after the last response.
\<close>

section \<open>The program's invariant\<close>








section \<open>Queueing\<close>







section \<open>A response\<close>







section \<open>Every event\<close>


end
