(* ===== verification/Cli_World_Spec.thy ===== *)
theory Cli_World_Spec
  imports Cli_Run_Spec
begin

text \<open>
  The whole run of \<open>monetra_cli\<close>: from the connection it sets up, through every sequence of events
  that can arrive, it uses the library within its rules.
\<close>

section \<open>One event\<close>


section \<open>Every run\<close>










end
