(* ===== verification/Load_Opts.thy ===== *)
theory Load_Opts
  imports App_Std
begin

text \<open>
  The options of \<open>monetra_load\<close> (\<open>apps/monetra_load/src/monetra_load.c\<close>): their defaults, the
  callbacks of the command line parser, the parsing itself with its error and help output, and
  the summary that is printed. Memory is not modelled here; an array of accounts is the list of
  its members.
\<close>

section \<open>Data\<close>

datatype trantype_t = TRANTYPE_SALE | TRANTYPE_PREAUTH | TRANTYPE_FORCE

datatype methods_t = METHOD_IP | METHOD_SSL

definition create_user_pwd :: string where "create_user_pwd = ''Test123$''"

definition def_accts :: string where
  "def_accts = ''4012888888881881,5454545454545454,371449635398431,6011000995500000''"

record cli_options_t =
  lo_username :: cstr
  lo_password :: cstr
  lo_hostname :: cstr
  lo_num_trans :: u64
  lo_num_conns :: u64
  lo_max_amount :: u64
  lo_exact_amount :: u64
  lo_accounts :: "string list"
  lo_expdate :: cstr
  lo_trackdata :: cstr
  lo_ksn :: cstr
  lo_street :: cstr
  lo_zip :: cstr
  lo_user_count :: u64
  lo_user_create :: bool
  lo_user_cleanup :: bool
  lo_user_settle :: bool
  lo_auto_confirm :: bool
  lo_help :: bool
  lo_method :: methods_t
  lo_trantype :: trantype_t
  lo_port :: u16
  lo_admin_port :: u16
  \<comment> \<open>runtime state\<close>
  lo_delete_txn_handle :: bool
  lo_expect_approved :: bool
  lo_expected_connections :: u64

definition cli_options_create :: "mstd_app \<Rightarrow> cli_options_t" where
  "cli_options_create A =
     \<lparr>lo_username = Some ''loopback'', lo_password = Some ''test123'',
      lo_hostname = Some ''localhost'', lo_num_trans = 100, lo_num_conns = 10,
      lo_max_amount = 10000, lo_exact_amount = 0,
      lo_accounts = M_str_explode_str A (CHR '','') (Some def_accts),
      lo_expdate = Some ''0249'', lo_trackdata = None, lo_ksn = None,
      lo_street = Some ''580039'', lo_zip = Some ''32606'', lo_user_count = 0,
      lo_user_create = True, lo_user_cleanup = True, lo_user_settle = False,
      lo_auto_confirm = False, lo_help = False, lo_method = METHOD_SSL,
      lo_trantype = TRANTYPE_SALE, lo_port = 8665, lo_admin_port = 8666,
      lo_delete_txn_handle = False, lo_expect_approved = False, lo_expected_connections = 0\<rparr>"

section \<open>The callbacks\<close>

definition load_bool_cb :: "char \<Rightarrow> cli_options_t \<Rightarrow> bool \<times> cli_options_t" where
  "load_bool_cb short_opt opt =
     (if short_opt = CHR ''f'' then (True, opt\<lparr>lo_trantype := TRANTYPE_FORCE\<rparr>)
      else if short_opt = CHR ''r'' then (True, opt\<lparr>lo_trantype := TRANTYPE_PREAUTH\<rparr>)
      else if short_opt = CHR ''C'' then (True, opt\<lparr>lo_auto_confirm := True\<rparr>)
      else if short_opt = CHR ''n'' then (True, opt\<lparr>lo_user_create := False\<rparr>)
      else if short_opt = CHR ''N'' then (True, opt\<lparr>lo_user_cleanup := False\<rparr>)
      else if short_opt = CHR ''S'' then (True, opt\<lparr>lo_user_settle := True\<rparr>)
      else if short_opt = CHR ''h'' then (True, opt\<lparr>lo_help := True\<rparr>)
      else (False, opt))"

definition load_integer_cb :: "char \<Rightarrow> u64 option \<Rightarrow> cli_options_t \<Rightarrow> bool \<times> cli_options_t" where
  "load_integer_cb short_opt integer opt =
     (case integer of
        None \<Rightarrow> (False, opt)
      | Some val \<Rightarrow>
          if sint val < 0 then (False, opt)
          else if short_opt = CHR ''p'' then
            if val > M_UINT16_MAX then (False, opt) else (True, opt\<lparr>lo_port := ucast val\<rparr>)
          else if short_opt = CHR ''t'' then
            if val > SIZE_MAX then (False, opt) else (True, opt\<lparr>lo_num_trans := val\<rparr>)
          else if short_opt = CHR ''x'' then
            if val > SIZE_MAX then (False, opt) else (True, opt\<lparr>lo_num_conns := val\<rparr>)
          else if short_opt = CHR ''u'' then
            if val > SIZE_MAX then (False, opt)
            else (True, opt\<lparr>lo_user_count := val, lo_username := Some ''MADMIN''\<rparr>)
          else if short_opt = CHR ''a'' then
            if val > M_UINT16_MAX then (False, opt) else (True, opt\<lparr>lo_admin_port := ucast val\<rparr>)
          else (False, opt))"

definition load_decimal_cb ::
  "mstd_app \<Rightarrow> char \<Rightarrow> M_decimal option \<Rightarrow> cli_options_t \<Rightarrow> bool \<times> cli_options_t" where
  "load_decimal_cb A short_opt d opt =
     (case d of
        None \<Rightarrow> (False, opt)
      | Some d \<Rightarrow>
          if short_opt = CHR ''A'' then
            let decval = M_decimal_to_int A d 2 in
            if sint decval < 0 then (False, opt)
            else
              let opt = opt\<lparr>lo_max_amount := decval\<rparr>
              in if lo_max_amount opt \<ge> RAND_MAX then (False, opt) else (True, opt)
          else if short_opt = CHR ''e'' then
            let decval = M_decimal_to_int A d 2 in
            if sint decval < 0 then (False, opt) else (True, opt\<lparr>lo_exact_amount := decval\<rparr>)
          else (False, opt))"

definition load_string_cb ::
  "mstd \<Rightarrow> mstd_app \<Rightarrow> char \<Rightarrow> cstr \<Rightarrow> cli_options_t \<Rightarrow> bool \<times> cli_options_t" where
  "load_string_cb L A short_opt s opt =
     (if M_str_isempty L s then (False, opt)
      else if short_opt = CHR ''U'' then (True, opt\<lparr>lo_username := s\<rparr>)
      else if short_opt = CHR ''P'' then (True, opt\<lparr>lo_password := s\<rparr>)
      else if short_opt = CHR ''m'' then
        if M_str_caseeq L s (Some ''IP'') then (True, opt\<lparr>lo_method := METHOD_IP\<rparr>)
        else if M_str_caseeq L s (Some ''SSL'') then (True, opt\<lparr>lo_method := METHOD_SSL\<rparr>)
        else (False, opt)
      else if short_opt = CHR ''H'' then (True, opt\<lparr>lo_hostname := s\<rparr>)
      else if short_opt = CHR ''c'' then
        let opt = opt\<lparr>lo_accounts := M_str_explode_str A (CHR '','') s\<rparr>
        in if length (lo_accounts opt) = 0 then (False, opt) else (True, opt)
      else if short_opt = CHR ''d'' then (True, opt\<lparr>lo_expdate := s\<rparr>)
      else if short_opt = CHR ''w'' then (True, opt\<lparr>lo_trackdata := s\<rparr>)
      else if short_opt = CHR ''k'' then (True, opt\<lparr>lo_ksn := s\<rparr>)
      else if short_opt = CHR ''s'' then (True, opt\<lparr>lo_street := s\<rparr>)
      else if short_opt = CHR ''z'' then (True, opt\<lparr>lo_zip := s\<rparr>)
      else (False, opt))"

text \<open>No callback is registered for what is not an option: such an argument is an error.\<close>

fun load_item :: "mstd \<Rightarrow> mstd_app \<Rightarrow> getopt_item \<Rightarrow> cli_options_t \<Rightarrow> bool \<times> cli_options_t" where
  "load_item L A (Item_nonopt n s) opt = (False, opt)"
| "load_item L A (Item_string sh l s) opt = load_string_cb L A sh s opt"
| "load_item L A (Item_integer sh l i) opt = load_integer_cb sh i opt"
| "load_item L A (Item_decimal sh l d) opt = load_decimal_cb A sh d opt"
| "load_item L A (Item_boolean sh l b) opt = load_bool_cb sh opt"

section \<open>The options the program has\<close>

definition print_u64 :: "u64 \<Rightarrow> string" where
  "print_u64 n = decimal (unat n)"

definition quoted :: "string \<Rightarrow> string" where
  "quoted s = [CHR 0x27] @ s @ [CHR 0x27]"

definition load_getopt :: "mstd_app \<Rightarrow> cli_options_t \<Rightarrow> getopt_option list" where
  "load_getopt A opt =
     (let s = M_printf_s A;
          opt_of = (\<lambda>kind sh tmp. Getopt_option kind sh None True (snprintf_n 512 tmp));
          flag = (\<lambda>sh help. Getopt_option Getopt_boolean sh None False help)
      in
       [opt_of Getopt_string (CHR ''U'') ('' username     : defaults to '' @ quoted (s (lo_username opt))),
        opt_of Getopt_string (CHR ''P'') ('' password     : defaults to '' @ quoted (s (lo_password opt))),
        opt_of Getopt_string (CHR ''m'') ('' method       : IP or SSL, defaults to '' @
          (if lo_method opt = METHOD_IP then ''IP'' else ''SSL'')),
        opt_of Getopt_string (CHR ''H'') ('' hostname     : defaults to '' @ quoted (s (lo_hostname opt))),
        opt_of Getopt_string (CHR ''c'')
          ('' cc1,cc2,...  : comma-delimited list of cc account numbers to use'' @ CRLF @
           ''                                  : default '' @ quoted def_accts),
        opt_of Getopt_string (CHR ''d'')
          ('' expdate      : card expiration date (MMYY): defaults to '' @ quoted (s (lo_expdate opt))),
        opt_of Getopt_string (CHR ''w'')
          '' trackdata    : use specified trackdata instead of keyed account number'',
        opt_of Getopt_string (CHR ''k'')
          '' ksn          : KSN to use with trackdata when Cardshield encrypted'',
        opt_of Getopt_string (CHR ''s'') ('' street       : defaults to '' @ quoted (s (lo_street opt))),
        opt_of Getopt_string (CHR ''z'') ('' zipcode      : defaults to '' @ quoted (s (lo_zip opt))),
        opt_of Getopt_decimal (CHR ''A'')
          (''max amount   : defaults to '' @ [CHR 0x27] @ print_amount (lo_max_amount opt)),
        opt_of Getopt_decimal (CHR ''e'')
          ''exact amount : use only a single amount, instead of a random one'',
        opt_of Getopt_integer (CHR ''p'')
          (''port         : defaults to '' @ quoted (print_u64 (ucast (lo_port opt)))),
        opt_of Getopt_integer (CHR ''t'')
          (''num trans    : defaults to '' @ quoted (print_u64 (lo_num_trans opt))),
        opt_of Getopt_integer (CHR ''x'')
          (''num connects : defaults to '' @ quoted (print_u64 (lo_num_conns opt))),
        opt_of Getopt_integer (CHR ''u'')
          (''user count   : if specified, creates the given number of users and disperses'' @ CRLF @
           ''                                    transactions across the accounts. Uses loopback as the processor.''),
        opt_of Getopt_integer (CHR ''a'')
          (''admin port   : defaults to '' @ quoted (print_u64 (ucast (lo_admin_port opt))) @ CRLF),
        flag (CHR ''f'') '': issue forces instead of sales'',
        flag (CHR ''r'') '': issue preauths instead of sales'',
        flag (CHR ''C'') '': autoconfirm start rather than waiting for key press'',
        flag (CHR ''n'') '': if user count set, do not create users (they already exist)'',
        flag (CHR ''N'') '': if user count set, do not cleanup users (to reuse on future run)'',
        flag (CHR ''S'') '': settle outstanding transactions (for all users if usercount is set)'',
        flag (CHR ''h'') '': displays help message''])"

section \<open>Reading the command line\<close>

definition load_usage :: "mstd_app \<Rightarrow> string \<Rightarrow> getopt_option list \<Rightarrow> string" where
  "load_usage A argv0 g =
     (let bname = M_fs_path_basename A argv0;
          help = M_getopt_help A g
      in ''Usage:'' @ CRLF @ ''  '' @ bname @ '' [options]'' @ CRLF @ CRLF @
         ''Parameter Descriptions:'' @ CRLF @ help @ CRLF @ ''Example:'' @ CRLF @ ''  '' @ bname @
         '' -U loopback -P test123 -H testbox.monetra.com -p 8444 -t 10000 -x 50'' @ CRLF @ CRLF)"

fun err_type_desc :: "M_getopt_error_t \<Rightarrow> cstr" where
  "err_type_desc M_GETOPT_ERROR_SUCCESS = None"
| "err_type_desc M_GETOPT_ERROR_INVALIDOPT = Some ''Invalid option -- ''"
| "err_type_desc M_GETOPT_ERROR_INVALIDDATATYPE = Some ''Invalid option value -- ''"
| "err_type_desc M_GETOPT_ERROR_MISSINGVALUE = Some ''Invalid option value missing -- ''"
| "err_type_desc M_GETOPT_ERROR_NONOPTION = Some ''Invalid action -- ''"
| "err_type_desc M_GETOPT_ERROR_OTHER = Some ''Error -- ''"

definition load_read_cmdline ::
  "mstd \<Rightarrow> mstd_app \<Rightarrow> cli_options_t getopt_parse \<Rightarrow> string list \<Rightarrow> string \<times> cli_options_t option" where
  "load_read_cmdline L A M_getopt_parse argv =
     (let opt = cli_options_create A;
          g = load_getopt A opt;
          (ret, fail, opt) = M_getopt_parse g (load_item L A) argv (Some ''?'') opt
      in
        if ret \<noteq> M_GETOPT_ERROR_SUCCESS \<or> lo_help opt then
          let out = (case err_type_desc ret of
                       None \<Rightarrow> []
                     | Some desc \<Rightarrow>
                         ''Aborted - problem with command line arguments:'' @ LF @
                         ''   '' @ desc @ M_printf_s A fail @ LF @ LF)
          in (out @ load_usage A (hd argv) g, None)
        else
          ([], Some (if \<not> M_str_isempty L (lo_trackdata opt) then opt\<lparr>lo_accounts := []\<rparr> else opt)))"

section \<open>The summary\<close>

definition yes_no :: "bool \<Rightarrow> string" where
  "yes_no b = (if b then ''yes'' else ''no'')"

fun print_accounts :: "nat \<Rightarrow> string list \<Rightarrow> string" where
  "print_accounts i [] = []"
| "print_accounts i (a # as) = (if i \<noteq> 0 then '':'' else []) @ a @ print_accounts (Suc i) as"

definition load_print_config :: "mstd_app \<Rightarrow> cli_options_t \<Rightarrow> string" where
  "load_print_config A opt =
     ''Config Summary:'' @ CRLF @
     ''  Engine           : '' @ M_printf_s A (lo_hostname opt) @ '':'' @ print_u64 (ucast (lo_port opt)) @ CRLF @
     ''  User Count       : '' @ print_u64 (lo_user_count opt) @ CRLF @
     ''  User Create      : '' @ yes_no (lo_user_count opt > 0 \<and> lo_user_create opt) @ CRLF @
     ''  User Cleanup     : '' @ yes_no (lo_user_count opt > 0 \<and> lo_user_cleanup opt) @ CRLF @
     ''  User Settle      : '' @ yes_no (lo_user_count opt > 0 \<and> lo_user_settle opt) @ CRLF @
     ''  User             : '' @ M_printf_s A (lo_username opt) @ CRLF @
     ''  Method           : '' @ (if lo_method opt = METHOD_IP then ''IP'' else ''SSL'') @ CRLF @
     ''  Trans            : '' @ print_u64 (lo_num_trans opt) @ CRLF @
     ''  Connections      : '' @ print_u64 (lo_num_conns opt) @ CRLF @
     ''  Exact Amount     : '' @ M_printf_cents A (lo_exact_amount opt) @ CRLF @
     ''  Max Tran Amount  : '' @ M_printf_cents A (lo_max_amount opt) @ CRLF @
     ''  AVS Street       : '' @ M_printf_s A (lo_street opt) @ CRLF @
     ''  AVS Zip          : '' @ M_printf_s A (lo_zip opt) @ CRLF @
     ''  Auto Confirm     : '' @ yes_no (lo_auto_confirm opt) @ CRLF @
     ''  Trackdata        : '' @ M_str_safe A (lo_trackdata opt) @ CRLF @
     ''  KSN              : '' @ M_str_safe A (lo_ksn opt) @ CRLF @
     ''  ExpDate          : '' @ M_printf_s A (lo_expdate opt) @ CRLF @
     ''  Card Numbers     : '' @ print_accounts 0 (lo_accounts opt) @ CRLF @ CRLF"

end
