(* ===== verification/Load_Run.thy ===== *)
theory Load_Run
  imports Load_Opts LM_World
begin

text \<open>
  The load test (\<open>apps/monetra_load/src/monetra_load.c\<close>): connections are opened, users made,
  transactions queued on all connections in turn, the responses awaited and counted, batches
  settled. The state is the program's static variables and its options, next to the array of
  its connections; an entry is \<open>None\<close> where \<open>LM_conn_init\<close> returned NULL. Each event that
  arrives carries the time it arrives at.

  \<open>exit\<close> ends the program in the middle of a callback: nothing of the state is touched after
  \<open>ls_exit\<close> is set.
\<close>

record load_state =
  ls_opt :: cli_options_t
  ls_globals :: lm_globals
  ls_conns :: "LM_conn option list"
  ls_gone :: "LM_conn list"          \<comment> \<open>the connections that have been destroyed\<close>
  ls_rand :: "call list"             \<comment> \<open>what has been drawn from \<open>randstate\<close>\<close>
  starttime :: u64
  lasttime :: u64
  last_transactions_done :: u64
  connections_established :: u64
  transactions_done :: u64
  expected_trans :: u64
  ls_timer :: "bool option"          \<comment> \<open>the status timer, and whether its argument is not NULL\<close>
  ls_now :: u64
  ls_done :: bool                    \<comment> \<open>\<open>M_event_done\<close> has been called\<close>
  ls_exit :: "nat option"            \<comment> \<open>\<open>exit\<close> has been called\<close>
  ls_waiting :: bool                 \<comment> \<open>the events have run out in the middle of a loop\<close>
  ls_out :: string
  ls_fault :: bool                   \<comment> \<open>a pointer was NULL, or a division by 0\<close>

definition load_printf :: "string \<Rightarrow> load_state \<Rightarrow> load_state" where
  "load_printf t s = s\<lparr>ls_out := ls_out s @ t\<rparr>"

text \<open>A call of the library with the connection in that entry of the array.\<close>

definition on_conn ::
  "nat \<Rightarrow> (conn_ptr \<Rightarrow> LM_conn \<Rightarrow> ('a \<times> LM_conn) option) \<Rightarrow> load_state \<Rightarrow> ('a \<times> load_state) option" where
  "on_conn i f s =
     (if i < length (ls_conns s) then
        (case ls_conns s ! i of
           Some c \<Rightarrow>
             (case f CONN c of
                None \<Rightarrow> None
              | Some (r, c) \<Rightarrow> Some (r, s\<lparr>ls_conns := (ls_conns s)[i := Some c]\<rparr>))
         | None \<Rightarrow>
             (case f NULL zero_conn of None \<Rightarrow> None | Some (r, _) \<Rightarrow> Some (r, s)))
      else case f NULL zero_conn of None \<Rightarrow> None | Some (r, _) \<Rightarrow> Some (r, s\<lparr>ls_fault := True\<rparr>))"

section \<open>Amounts and cards\<close>

text \<open>Amounts of 8.01 to 8.99 are never used: they make the server wait.\<close>

partial_function (option) draw_amount :: "mstd \<Rightarrow> u64 \<Rightarrow> call list \<Rightarrow> (u64 \<times> call list) option" where
  "draw_amount L max_amount cs =
     (let amnt = M_rand_range L cs 1 (max_amount + 1);
          cs = Rand_range 1 (max_amount + 1) # cs
      in if amnt \<le> 800 \<or> amnt > 899 then Some (amnt, cs) else draw_amount L max_amount cs)"

definition GetAmount :: "mstd \<Rightarrow> cli_options_t \<Rightarrow> call list \<Rightarrow> (u64 \<times> call list) option" where
  "GetAmount L opt cs =
     (if lo_exact_amount opt \<noteq> 0 then Some (lo_exact_amount opt, cs)
      else draw_amount L (lo_max_amount opt) cs)"

definition GetCCNumber :: "mstd \<Rightarrow> cli_options_t \<Rightarrow> call list \<Rightarrow> string \<times> call list" where
  "GetCCNumber L opt cs =
     (let n = of_nat (length (lo_accounts opt)) in
      (lo_accounts opt ! unat (M_rand_range L cs 0 n), Rand_range 0 n # cs))"

section \<open>The callback of the connections\<close>

definition monetra_callback ::
  "mstd \<Rightarrow> mstd_app \<Rightarrow> nat \<Rightarrow> LM_event_type \<Rightarrow> ptr option \<Rightarrow> LM_conn \<Rightarrow> load_state
    \<Rightarrow> LM_conn \<times> load_state" where
  "monetra_callback L A i type tp c s =
     (let (opt, c) = LM_conn_get_userdata CONN c in
      case type of
        LM_EVENT_CONN_CONNECTED \<Rightarrow>
          let s = s\<lparr>connections_established := connections_established s + 1\<rparr>
          in (c, if opt = None then s\<lparr>ls_fault := True\<rparr>
                 else if connections_established s = lo_expected_connections (ls_opt s)
                 then s\<lparr>ls_done := True\<rparr> else s)
      | LM_EVENT_CONN_DISCONNECT \<Rightarrow>
          (c, (load_printf (''Disconnect or Error received: '' @ M_printf_s A (LM_conn_error CONN c) @ LF) s)
                \<lparr>ls_exit := Some 1\<rparr>)
      | LM_EVENT_CONN_ERROR \<Rightarrow>
          (c, (load_printf (''Disconnect or Error received: '' @ M_printf_s A (LM_conn_error CONN c) @ LF) s)
                \<lparr>ls_exit := Some 1\<rparr>)
      | LM_EVENT_TRANS_DONE \<Rightarrow>
          let s = s\<lparr>transactions_done := transactions_done s + 1\<rparr> in
          if opt = None then (c, s\<lparr>ls_fault := True\<rparr>)
          else
            let (denied, c) =
                  (if lo_expect_approved (ls_opt s) then
                     let (t, c) = LM_trans_response_type tp c in
                     if t \<noteq> LM_TRANS_RESPONSE_CSV then
                       let (code, c) = LM_trans_response_param L tp (Some ''code'') c
                       in (\<not> M_str_caseeq L code (Some ''AUTH''), c)
                     else (False, c)
                   else (False, c))
            in if denied then
                 let (verbiage, c) = LM_trans_response_param L tp (Some ''verbiage'') c
                 in (c, (load_printf (''Transaction denied: '' @ M_printf_s A verbiage @ LF) s)\<lparr>ls_exit := Some 1\<rparr>)
               else
                 let s = (if transactions_done s = expected_trans s then s\<lparr>ls_done := True\<rparr> else s);
                     c = (if lo_delete_txn_handle (ls_opt s) then LM_trans_delete L tp c else c)
                 in (c, s)
      | _ \<Rightarrow> (c, s))"

section \<open>The status line\<close>

datatype VT100_CMDS = VT100_CMD_SAVEPOS | VT100_CMD_RESTOREPOS | VT100_CMD_CLEAREOL

fun vt100_cmd :: "VT100_CMDS \<Rightarrow> string" where
  "vt100_cmd VT100_CMD_SAVEPOS = [CHR 0x1B] @ ''7''"
| "vt100_cmd VT100_CMD_RESTOREPOS = [CHR 0x1B] @ ''8''"
| "vt100_cmd VT100_CMD_CLEAREOL = [CHR 0x1B] @ ''[0K''"

text \<open>\<open>min_status\<close>: the argument of the timer is not NULL.\<close>

definition status_callback :: "mstd_app \<Rightarrow> bool \<Rightarrow> load_state \<Rightarrow> load_state" where
  "status_callback A min_status s =
     (let elapsed_ms = M_time_elapsed A (ls_now s) (starttime s);
          last_elapsed_ms = M_time_elapsed A (ls_now s) (lasttime s);
          trans_diff = transactions_done s - last_transactions_done s;
          elapsed_ms = (if elapsed_ms = 0 then 1 else elapsed_ms);
          last_elapsed_ms = (if last_elapsed_ms = 0 then 1 else last_elapsed_ms);
          s = load_printf (vt100_cmd VT100_CMD_CLEAREOL) s;
          s = load_printf (vt100_cmd VT100_CMD_SAVEPOS) s;
          time = blank_pad 5 (print_u64 (elapsed_ms div 1000)) @ ''.'' @
                 zero_pad 3 (print_u64 (elapsed_ms mod 1000));
          s = load_printf
                (if \<not> min_status
                 then time @ ''s: '' @ blank_pad 7 (print_u64 (transactions_done s)) @
                   '' transactions done [current '' @ M_printf_rate A trans_diff last_elapsed_ms @
                   ''/sec] [overall '' @ M_printf_rate A (transactions_done s) elapsed_ms @ ''/sec]''
                 else time @ ''s: '' @ blank_pad 7 (print_u64 (transactions_done s)) @ '' requests complete'') s;
          s = load_printf (vt100_cmd VT100_CMD_RESTOREPOS) s;
          s = s\<lparr>lasttime := ls_now s\<rparr>
      in s\<lparr>last_transactions_done := transactions_done s\<rparr>)"

section \<open>The event loop\<close>

text \<open>The events of one connection are told to the callback one after the other.\<close>

partial_function (option) load_deliver ::
  "mstd \<Rightarrow> mstd_app \<Rightarrow> nat \<Rightarrow> events \<Rightarrow> LM_conn \<Rightarrow> load_state \<Rightarrow> (LM_conn \<times> load_state) option" where
  "load_deliver L A i es c s =
     (case M_list_take_first L es of
        (None, _) \<Rightarrow> Some (c, s)
      | (Some e, es) \<Rightarrow>
          (case monetra_callback L A i (ev_type e) (ev_trans e)
                  (ext (Event_callback (ev_type e) (ev_trans e)) c) s of
             (c, s) \<Rightarrow>
               if ls_exit s \<noteq> None then Some (c, s)
               else
                 let (stop, c) = LM_conn_destroy_is_set c
                 in if stop then Some (c, s) else load_deliver L A i es c s))"

definition load_handler ::
  "mstd \<Rightarrow> mstd_app \<Rightarrow> nat \<Rightarrow> M_event_type \<Rightarrow> ptr option \<Rightarrow> LM_conn \<Rightarrow> load_state
    \<Rightarrow> (LM_conn \<times> load_state) option" where
  "load_handler L A i ty event_trans c s = do {
     let c = (lock_conn c)\<lparr>in_use := True\<rparr>;
     (es, c) \<leftarrow> handle_event L ty event_trans c;
     (c, s) \<leftarrow> load_deliver L A i es (unlock_conn c) s;
     if ls_exit s \<noteq> None then Some (c, s)
     else do {
       c \<leftarrow> finish_event L c;
       Some (c, s)
     }
   }"

fun load_conn_event ::
  "mstd \<Rightarrow> mstd_app \<Rightarrow> nat \<Rightarrow> world_event \<Rightarrow> LM_conn \<Rightarrow> load_state \<Rightarrow> (LM_conn \<times> load_state) option" where
  "load_conn_event L A i (Socket_event ty) c s = load_handler L A i ty None c s"
| "load_conn_event L A i Conn_timer_event c s = load_handler L A i M_EVENT_TYPE_OTHER None c s"
| "load_conn_event L A i Write_trigger_event c s = load_handler L A i M_EVENT_TYPE_WRITE None c s"
| "load_conn_event L A i (Trans_timer_event p) c s =
     load_handler L A i M_EVENT_TYPE_OTHER (Some p) (touch_trans p c) s"

datatype load_source = From_conn nat world_event | Status_timer

text \<open>
  What cannot arrive, does not: an event that the connection in that entry cannot have, and a
  timer that is not running.
\<close>

fun load_event :: "mstd \<Rightarrow> mstd_app \<Rightarrow> load_source \<Rightarrow> load_state \<Rightarrow> load_state option" where
  "load_event L A (From_conn i e) s =
     (if i < length (ls_conns s) then
        case ls_conns s ! i of
          None \<Rightarrow> Some s
        | Some c \<Rightarrow>
            if \<not> world_event_ok c e then Some s
            else
              (case load_conn_event L A i e c s of
                 None \<Rightarrow> None
               | Some (c, s) \<Rightarrow> Some (s\<lparr>ls_conns := (ls_conns s)[i := Some c]\<rparr>))
      else Some s)"
| "load_event L A Status_timer s =
     Some (case ls_timer s of None \<Rightarrow> s | Some min_status \<Rightarrow> status_callback A min_status s)"

text \<open>
  A part of the program takes the state and the events that are still to come. \<open>M_event_loop\<close>
  without a timeout takes events until \<open>M_event_done\<close> is called; when they run out before, the
  program is left waiting, and nothing more of it is run.
\<close>

type_synonym load_events = "(u64 \<times> load_source) list"
type_synonym load_part = "load_state \<times> load_events \<Rightarrow> (load_state \<times> load_events) option"

fun take_events :: "mstd \<Rightarrow> mstd_app \<Rightarrow> load_events \<Rightarrow> load_state \<Rightarrow> (load_state \<times> load_events) option" where
  "take_events L A es s =
     (if ls_done s \<or> ls_exit s \<noteq> None then Some (s, es)
      else case es of
          [] \<Rightarrow> Some (s\<lparr>ls_waiting := True\<rparr>, [])
        | (now, e) # es \<Rightarrow>
            (case load_event L A e (s\<lparr>ls_now := now\<rparr>) of
               None \<Rightarrow> None
             | Some s \<Rightarrow> take_events L A es s))"

definition M_event_loop :: "mstd \<Rightarrow> mstd_app \<Rightarrow> load_part" where
  "M_event_loop L A = (\<lambda>(s, es). take_events L A es (s\<lparr>ls_done := False\<rparr>))"

text \<open>One part after the other, until the program exits or is left waiting.\<close>

definition stopped :: "load_state \<Rightarrow> bool" where
  "stopped s \<longleftrightarrow> ls_exit s \<noteq> None \<or> ls_waiting s"

fun run_parts :: "load_part list \<Rightarrow> load_part" where
  "run_parts [] x = Some x"
| "run_parts (f # fs) x =
     (if stopped (fst x) then Some x
      else case f x of None \<Rightarrow> None | Some x \<Rightarrow> run_parts fs x)"

definition doing :: "(load_state \<Rightarrow> load_state) \<Rightarrow> load_part" where
  "doing f = (\<lambda>(s, es). Some (f s, es))"

definition doing_opt :: "(load_state \<Rightarrow> load_state option) \<Rightarrow> load_part" where
  "doing_opt f = (\<lambda>(s, es). case f s of None \<Rightarrow> None | Some s \<Rightarrow> Some (s, es))"

declare draw_amount.simps [code] load_deliver.simps [code]

end
