(* ===== verification/Load_Main.thy ===== *)
theory Load_Main
  imports Load_Run
begin

text \<open>
  The phases of the load test: the connections, the requests that are queued, waiting for the
  responses, the users, the settlement, and the program that runs them. An index into the array
  of connections is a remainder modulo their number; when there are none it is out of range,
  which \<open>on_conn\<close> records.
\<close>

unbundle bit_operations_syntax

section \<open>Loops\<close>

fun for_loop :: "(u64 \<Rightarrow> 'a \<Rightarrow> 'a option) \<Rightarrow> nat \<Rightarrow> u64 \<Rightarrow> 'a \<Rightarrow> 'a option" where
  "for_loop f 0 i x = Some x"
| "for_loop f (Suc n) i x = (case f i x of None \<Rightarrow> None | Some x \<Rightarrow> for_loop f n (i + 1) x)"

section \<open>Requests\<close>

definition set_each :: "mstd \<Rightarrow> ptr option \<Rightarrow> (string \<times> cstr) list \<Rightarrow> LM_conn \<Rightarrow> LM_conn" where
  "set_each L tp kvs c = foldl (\<lambda>c (k, v). snd (LM_trans_set_param L tp (Some k) v c)) c kvs"

definition fill_and_send ::
  "mstd \<Rightarrow> nat \<Rightarrow> ptr option \<Rightarrow> (string \<times> cstr) list \<Rightarrow> load_state \<Rightarrow> load_state option" where
  "fill_and_send L i tp kvs s = do {
     (_, s) \<leftarrow> on_conn i (\<lambda>_ c. Some ((), set_each L tp kvs c)) s;
     (_, s) \<leftarrow> on_conn i (\<lambda>_. LM_trans_send L tp) s;
     Some s
   }"

definition user_name :: "u64 \<Rightarrow> string" where
  "user_name n = snprintf_n 256 (''u'' @ zero_pad 10 (print_u64 n))"

text \<open>The parameters of a transaction, in the order they are set.\<close>

definition tran_params ::
  "mstd \<Rightarrow> cli_options_t \<Rightarrow> u64 \<Rightarrow> call list \<Rightarrow> ((string \<times> cstr) list \<times> call list) option" where
  "tran_params L opt ptrannum cs = do {
     let (user, cs) =
       (if lo_user_count opt > 0
        then ([(''username'', Some (user_name (M_rand_range L cs 0 (lo_user_count opt)))),
               (''password'', Some create_user_pwd)], Rand_range 0 (lo_user_count opt) # cs)
        else ([(''username'', lo_username opt), (''password'', lo_password opt)], cs));
     let action =
       (case lo_trantype opt of
          TRANTYPE_FORCE \<Rightarrow> [(''action'', Some ''force''), (''apprcode'', Some ''999999'')]
        | TRANTYPE_PREAUTH \<Rightarrow> [(''action'', Some ''preauth'')]
        | TRANTYPE_SALE \<Rightarrow> [(''action'', Some ''sale'')]);
     let (card, cs) =
       (if length (lo_accounts opt) > 0
        then let (number, cs) = GetCCNumber L opt cs
             in ([(''account'', Some number), (''expdate'', lo_expdate opt)], cs)
        else ([], cs));
     let track =
       (if \<not> M_str_isempty L (lo_trackdata opt)
        then [(if M_str_isempty L (lo_ksn opt) then ''trackdata'' else ''e_trackdata'', lo_trackdata opt)]
        else []);
     let ksn = (if \<not> M_str_isempty L (lo_ksn opt) then [(''e_id'', lo_ksn opt)] else []);
     (amt, cs) \<leftarrow> GetAmount L opt cs;
     Some (user @ action @ card @ track @ ksn @
       [(''amount'', Some (snprintf_n 256 (print_amount amt))), (''street'', lo_street opt),
        (''zip'', lo_zip opt), (''comments'', Some ''push script''),
        (''ptrannum'', Some (snprintf_n 256 (print_u64 ptrannum))), (''priority'', Some ''low'')], cs)
   }"

definition enqueue_tran :: "mstd \<Rightarrow> nat \<Rightarrow> u64 \<Rightarrow> load_state \<Rightarrow> load_state option" where
  "enqueue_tran L i ptrannum s = do {
     (tp, s) \<leftarrow> on_conn i (LM_trans_new L) s;
     (kvs, cs) \<leftarrow> tran_params L (ls_opt s) ptrannum (ls_rand s);
     fill_and_send L i tp kvs (s\<lparr>ls_rand := cs\<rparr>)
   }"

definition tran_slot :: "u64 \<Rightarrow> u64 \<Rightarrow> nat" where
  "tran_slot nconns i = unat (i mod nconns)"

definition ptrannum_of :: "u64 \<Rightarrow> u64 \<Rightarrow> u64" where
  "ptrannum_of nconns i = (i mod nconns) * 1000000 + i div nconns"

definition enqueue_transactions :: "mstd \<Rightarrow> u64 \<Rightarrow> u64 \<Rightarrow> load_state \<Rightarrow> load_state option" where
  "enqueue_transactions L nconns ntxns =
     for_loop (\<lambda>i. enqueue_tran L (tran_slot nconns i) (ptrannum_of nconns i)) (unat ntxns) 0"

definition make_request ::
  "mstd \<Rightarrow> nat \<Rightarrow> (string \<times> cstr) list \<Rightarrow> load_state \<Rightarrow> (ptr option \<times> load_state) option" where
  "make_request L i kvs s = do {
     (tp, s) \<leftarrow> on_conn i (LM_trans_new L) s;
     s \<leftarrow> fill_and_send L i tp kvs s;
     Some (tp, s)
   }"

definition delete_user_params :: "cli_options_t \<Rightarrow> u64 \<Rightarrow> (string \<times> cstr) list" where
  "delete_user_params opt i =
     [(''username'', lo_username opt), (''password'', lo_password opt),
      (''action'', Some ''deluser''), (''user'', Some (user_name i))]"

definition enqueue_delete_users :: "mstd \<Rightarrow> u64 \<Rightarrow> u64 \<Rightarrow> load_state \<Rightarrow> load_state option" where
  "enqueue_delete_users L nconns nusers =
     for_loop (\<lambda>i s. map_option snd
        (make_request L (tran_slot nconns i) (delete_user_params (ls_opt s) i) s)) (unat nusers) 0"

definition add_user_params :: "cli_options_t \<Rightarrow> u64 \<Rightarrow> (string \<times> cstr) list" where
  "add_user_params opt i =
     [(''username'', lo_username opt), (''password'', lo_password opt),
      (''action'', Some ''adduser''), (''user'', Some (user_name i)),
      (''pwd'', Some create_user_pwd), (''proc'', Some ''loopback''), (''indcode'', Some ''R''),
      (''mode'', Some ''BOTH''), (''cardtypes'', Some ''VISA+MC+AMEX+DISC+JCB+CB+DINERS+GIFT''),
      (''geninterchange'', Some ''yes''), (''zipcode'', Some ''32606''), (''settledelay'', Some ''0'')]"

definition enqueue_add_users :: "mstd \<Rightarrow> u64 \<Rightarrow> u64 \<Rightarrow> load_state \<Rightarrow> load_state option" where
  "enqueue_add_users L nconns nusers =
     for_loop (\<lambda>i s. map_option snd
        (make_request L (tran_slot nconns i) (add_user_params (ls_opt s) i) s)) (unat nusers) 0"

section \<open>Connections\<close>

text \<open>
  The context of TLS is made once and shared; a connection that could not be made stays NULL in
  the array, and the functions of the library ignore it.
\<close>

definition open_connection :: "mstd \<Rightarrow> bool \<Rightarrow> u64 \<Rightarrow> load_state \<Rightarrow> load_state" where
  "open_connection L is_admin i s =
     (let opt = ls_opt s;
          (conn, g) = LM_conn_init L False False (lo_hostname opt)
                        (if is_admin then lo_admin_port opt else lo_port opt) (ls_globals s);
          conn = (case conn of
                    None \<Rightarrow> None
                  | Some c \<Rightarrow>
                      let c = snd (LM_conn_set_userdata CONN (Some 0) c);
                          c = snd (LM_conn_set_tls_clientctx CONN (Some 0) c);
                          c = (if lo_method opt = METHOD_IP
                               then snd (LM_conn_change_mode CONN LM_MODE_IP c) else c)
                      in Some (snd (LM_conn_connect L CONN c)))
      in s\<lparr>ls_globals := g, ls_conns := (ls_conns s)[unat i := conn]\<rparr>)"

definition start_connections :: "mstd \<Rightarrow> mstd_app \<Rightarrow> u64 \<Rightarrow> bool \<Rightarrow> load_part" where
  "start_connections L A num is_admin =
     run_parts
       [doing (\<lambda>s.
          let s = s\<lparr>ls_conns := replicate (unat num) None\<rparr>;
              s = s\<lparr>ls_opt := (ls_opt s)\<lparr>lo_expected_connections := num\<rparr>,
                    connections_established := 0\<rparr>
          in if \<not> is_admin
             then load_printf (''Starting '' @ print_u64 num @ '' connections...'' @ CRLF) s else s),
        doing_opt (for_loop (\<lambda>i s. Some (open_connection L is_admin i s)) (unat num) 0),
        M_event_loop L A,
        doing (\<lambda>s. if \<not> is_admin then load_printf (''Connected'' @ CRLF) s else s)]"

definition destroy_connections :: "mstd \<Rightarrow> u64 \<Rightarrow> load_state \<Rightarrow> load_state" where
  "destroy_connections L num s =
     (let gone = map (LM_conn_destroy L CONN) (concat (map (\<lambda>c. case c of None \<Rightarrow> [] | Some c \<Rightarrow> [c])
                   (take (unat num) (ls_conns s))))
      in s\<lparr>ls_conns := [], ls_gone := ls_gone s @ gone\<rparr>)"

section \<open>Waiting for the responses\<close>

definition REQUEST_FLAG_NONE :: u64 where "REQUEST_FLAG_NONE = 0"
definition REQUEST_FLAG_REQ_APPROVALS :: u64 where "REQUEST_FLAG_REQ_APPROVALS = 1"
definition REQUEST_FLAG_MIN_STATUS :: u64 where "REQUEST_FLAG_MIN_STATUS = 2"
definition REQUEST_FLAG_TXN_NO_DELETE :: u64 where "REQUEST_FLAG_TXN_NO_DELETE = 4"

definition begin_requests :: "u64 \<Rightarrow> u64 \<Rightarrow> load_state \<Rightarrow> load_state" where
  "begin_requests expected_response_cnt request_flags s =
     (let min_status = (request_flags AND REQUEST_FLAG_MIN_STATUS \<noteq> 0);
          s = s\<lparr>ls_opt := (ls_opt s)\<lparr>lo_delete_txn_handle :=
                  (if request_flags AND REQUEST_FLAG_TXN_NO_DELETE \<noteq> 0 then False else True)\<rparr>\<rparr>;
          s = (if \<not> min_status
               then load_printf (''Sending '' @ print_u64 expected_response_cnt @ '' Transactions'' @ CRLF) s
               else s);
          s = s\<lparr>starttime := ls_now s, lasttime := ls_now s, last_transactions_done := 0,
                transactions_done := 0\<rparr>;
          s = s\<lparr>ls_timer := Some min_status\<rparr>;
          s = s\<lparr>expected_trans := expected_response_cnt\<rparr>
      in s\<lparr>ls_opt := (ls_opt s)\<lparr>lo_expect_approved :=
             (if request_flags AND REQUEST_FLAG_REQ_APPROVALS \<noteq> 0 then True else False)\<rparr>\<rparr>)"

definition end_requests :: "mstd_app \<Rightarrow> u64 \<Rightarrow> load_state \<Rightarrow> load_state" where
  "end_requests A request_flags s =
     (let min_status = (request_flags AND REQUEST_FLAG_MIN_STATUS \<noteq> 0);
          s = status_callback A min_status s;
          s = s\<lparr>ls_timer := None\<rparr>;
          s = load_printf CRLF s
      in if \<not> min_status then load_printf (''Transactions Done'' @ CRLF) s else s)"

definition send_requests :: "mstd \<Rightarrow> mstd_app \<Rightarrow> u64 \<Rightarrow> u64 \<Rightarrow> load_part" where
  "send_requests L A expected_response_cnt request_flags =
     (if expected_response_cnt = 0
      then doing (\<lambda>s. if \<not> (request_flags AND REQUEST_FLAG_MIN_STATUS \<noteq> 0)
                      then load_printf (''Transactions Done'' @ CRLF) s else s)
      else run_parts
        [doing (begin_requests expected_response_cnt request_flags),
         M_event_loop L A,
         doing (end_requests A request_flags)])"

section \<open>Users\<close>

definition users_conns :: "cli_options_t \<Rightarrow> u64" where
  "users_conns opt =
     (let num_conns = lo_num_conns opt
      in if num_conns > lo_user_count opt div 10 + 1 then lo_user_count opt div 10 + 1 else num_conns)"

definition create_users :: "mstd \<Rightarrow> mstd_app \<Rightarrow> load_part" where
  "create_users L A = (\<lambda>(s, es).
     let nusers = lo_user_count (ls_opt s);
         num_conns = users_conns (ls_opt s)
     in run_parts
       [doing (load_printf (''Adding '' @ print_u64 nusers @ '' users...'' @ CRLF)),
        doing (load_printf (''Connecting to MADMIN port ('' @ print_u64 num_conns @ '' conns)'' @ CRLF)),
        start_connections L A num_conns True,
        doing (load_printf (''Connected, clearing conflicting user accounts (use -n if trying to preserve)...'' @ CRLF)),
        doing_opt (enqueue_delete_users L num_conns nusers),
        send_requests L A nusers REQUEST_FLAG_MIN_STATUS,
        doing (load_printf (''Adding new user accounts...'' @ CRLF)),
        doing_opt (enqueue_add_users L num_conns nusers),
        send_requests L A nusers (REQUEST_FLAG_REQ_APPROVALS OR REQUEST_FLAG_MIN_STATUS),
        doing (destroy_connections L num_conns),
        doing (load_printf (''Done'' @ CRLF))] (s, es))"

definition cleanup_users :: "mstd \<Rightarrow> mstd_app \<Rightarrow> load_part" where
  "cleanup_users L A = (\<lambda>(s, es).
     let nusers = lo_user_count (ls_opt s);
         num_conns = users_conns (ls_opt s)
     in run_parts
       [doing (load_printf (''Cleaning up '' @ print_u64 nusers @ '' users...'' @ CRLF)),
        doing (load_printf (''Connecting to MADMIN port'' @ CRLF)),
        start_connections L A num_conns True,
        doing (load_printf (''Connected, deleting user accounts (use -N to prevent)...'' @ CRLF)),
        doing_opt (enqueue_delete_users L num_conns nusers),
        send_requests L A nusers (REQUEST_FLAG_REQ_APPROVALS OR REQUEST_FLAG_MIN_STATUS),
        doing (destroy_connections L num_conns),
        doing (load_printf (''Done'' @ CRLF))] (s, es))"

section \<open>Settlement\<close>

definition settle_login :: "cli_options_t \<Rightarrow> u64 \<Rightarrow> (string \<times> cstr) list" where
  "settle_login opt i =
     (if lo_user_count opt \<noteq> 0
      then [(''username'', Some (user_name i)), (''password'', Some create_user_pwd)]
      else [(''username'', lo_username opt), (''password'', lo_password opt)])"

definition request_totals :: "mstd \<Rightarrow> u64 \<Rightarrow> load_state \<times> ptr option list \<Rightarrow> (load_state \<times> ptr option list) option" where
  "request_totals L nusers =
     for_loop (\<lambda>i (s, bttrans). do {
         (tp, s) \<leftarrow> make_request L (tran_slot (lo_num_conns (ls_opt s)) i)
            (settle_login (ls_opt s) i @ [(''action'', Some ''admin''), (''admin'', Some ''BT'')]) s;
         Some (s, bttrans @ [tp])
       }) (unat nusers) 0"

definition settle_row :: "mstd \<Rightarrow> u64 \<Rightarrow> csv \<Rightarrow> u64 \<Rightarrow> load_state \<times> u64 \<Rightarrow> (load_state \<times> u64) option" where
  "settle_row L i csv j = (\<lambda>(s, batches). do {
     (_, s) \<leftarrow> make_request L (tran_slot (lo_num_conns (ls_opt s)) batches)
        (settle_login (ls_opt s) i @
          [(''action'', Some ''settle''), (''batch'', M_csv_get_cell L csv j ''BatchNum''),
           (''sub'', M_csv_get_cell L csv j ''Sub'')]) s;
     Some (s, batches + 1)
   })"

definition settle_user ::
  "mstd \<Rightarrow> ptr option list \<Rightarrow> u64 \<Rightarrow> load_state \<times> u64 \<Rightarrow> (load_state \<times> u64) option" where
  "settle_user L bttrans i = (\<lambda>(s, batches). do {
     let slot = tran_slot (lo_num_conns (ls_opt s)) i;
     let tp = bttrans ! unat i;
     (csv, s) \<leftarrow> on_conn slot (\<lambda>_ c. Some (LM_trans_response_csv L tp c)) s;
     (s, batches) \<leftarrow>
       (case csv of
          None \<Rightarrow> Some (s, batches)
        | Some csv \<Rightarrow> for_loop (settle_row L i csv) (unat (M_csv_get_numrows L csv)) 0 (s, batches));
     (_, s) \<leftarrow> on_conn slot (\<lambda>_ c. Some ((), LM_trans_delete L tp c)) s;
     Some (s, batches)
   })"

definition settle_batches :: "mstd \<Rightarrow> mstd_app \<Rightarrow> load_part" where
  "settle_batches L A = (\<lambda>(s, es). do {
     let nusers = lo_user_count (ls_opt s);
     let nusers = (if nusers = 0 then 1 else nusers);
     let s = load_printf (''Settling '' @ print_u64 nusers @ '' users...'' @ CRLF) s;
     let s = load_printf (''  * Requesting batch totals...'' @ CRLF) s;
     (s, bttrans) \<leftarrow> request_totals L nusers (s, []);
     run_parts
       [send_requests L A nusers
          (REQUEST_FLAG_REQ_APPROVALS OR REQUEST_FLAG_MIN_STATUS OR REQUEST_FLAG_TXN_NO_DELETE),
        (\<lambda>(s, es). do {
           (s, batches) \<leftarrow> for_loop (settle_user L bttrans) (unat nusers) 0 (s, 0);
           run_parts
             [doing (load_printf (''  * Settling '' @ print_u64 batches @ '' batches...'' @ CRLF)),
              send_requests L A batches (REQUEST_FLAG_REQ_APPROVALS OR REQUEST_FLAG_MIN_STATUS),
              doing (load_printf (''Batch settlements complete'' @ CRLF))] (s, es)
         })] (s, es)
   })"

section \<open>The program\<close>

definition load_start :: "cli_options_t \<Rightarrow> lm_globals \<Rightarrow> string \<Rightarrow> load_state" where
  "load_start opt g out =
     \<lparr>ls_opt = opt, ls_globals = g, ls_conns = [], ls_gone = [], ls_rand = [], starttime = 0,
      lasttime = 0, last_transactions_done = 0, connections_established = 0,
      transactions_done = 0, expected_trans = 0, ls_timer = None, ls_now = 0, ls_done = False,
      ls_exit = None, ls_waiting = False, ls_out = out, ls_fault = False\<rparr>"

definition load_parts :: "mstd \<Rightarrow> mstd_app \<Rightarrow> cli_options_t \<Rightarrow> load_part list" where
  "load_parts L A opt =
     (if lo_user_count opt > 0 \<and> lo_user_create opt then [create_users L A] else []) @
     [start_connections L A (lo_num_conns opt) False,
      doing_opt (enqueue_transactions L (lo_num_conns opt) (lo_num_trans opt)),
      doing (load_printf (''Transactions Ready'' @ CRLF)),
      doing (\<lambda>s. if \<not> lo_auto_confirm opt
                 then load_printf (''Press Enter to process'' @ CRLF) s else s),
      send_requests L A (lo_num_trans opt) REQUEST_FLAG_NONE] @
     (if lo_user_settle opt then [settle_batches L A] else []) @
     [doing (destroy_connections L (lo_num_conns opt))] @
     (if lo_user_count opt > 0 \<and> lo_user_cleanup opt then [cleanup_users L A] else [])"

definition VERSION :: string where "VERSION = ''2.0.0''"

text \<open>
  The exit code and what was printed; \<open>None\<close> for a run that does not end, or not yet with these
  events.
\<close>

definition load_main ::
  "mstd \<Rightarrow> mstd_app \<Rightarrow> cli_options_t getopt_parse \<Rightarrow> string list \<Rightarrow> lm_globals \<Rightarrow> load_events \<Rightarrow>
   (nat \<times> string) option" where
  "load_main L A M_getopt_parse argv g es =
     (let out = ''Load Script v'' @ VERSION @ CRLF;
          (text, opt) = load_read_cmdline L A M_getopt_parse argv;
          out = out @ text
      in case opt of
           None \<Rightarrow> Some (1, out)
         | Some opt \<Rightarrow> do {
             let s = load_start opt g (out @ load_print_config A opt);
             (s, es) \<leftarrow> run_parts (load_parts L A opt) (s, es);
             if ls_waiting s then None
             else Some (case ls_exit s of None \<Rightarrow> 0 | Some n \<Rightarrow> n, ls_out s)
           })"

end
