(* ===== verification/Load_Spec.thy ===== *)
theory Load_Spec
  imports Load_Main App_Std_Ref App_Conn LM_Conn_Spec
begin

text \<open>
  What the parts of \<open>monetra_load\<close> do: the options it accepts, the amounts it draws, how it tells
  its transactions and users apart, and what its callback makes of a response.
\<close>

section \<open>The options\<close>

text \<open>
  Non-negative as a signed number of 64 bits, as all the options that are numbers are.
\<close>

definition natural :: "u64 \<Rightarrow> bool" where
  "natural n \<longleftrightarrow> unat n < 2 ^ 63"

definition load_opts_wf :: "cli_options_t \<Rightarrow> bool" where
  "load_opts_wf opt \<longleftrightarrow>
     lo_max_amount opt < RAND_MAX \<and> natural (lo_exact_amount opt) \<and> natural (lo_num_trans opt) \<and>
     natural (lo_num_conns opt) \<and> natural (lo_user_count opt) \<and>
     lo_hostname opt \<noteq> None \<and> lo_username opt \<noteq> None \<and> lo_password opt \<noteq> None"

lemma natural_sint: "natural n \<longleftrightarrow> 0 \<le> sint n" for n :: u64
proof -
  have "0 \<le> sint n \<longleftrightarrow> \<not> bit n 63"
    using bit_last_iff [of n] by auto
  also have "\<dots> \<longleftrightarrow> unat n < 2 ^ 63"
  proof -
    have "unat n < 2 ^ 64" using unsigned_less [of n, where ?'a = nat] by simp
    then have "unat n div 2 ^ 63 < 2" by (simp add: less_mult_imp_div_less)
    then have "odd (unat n div 2 ^ 63) \<longleftrightarrow> unat n div 2 ^ 63 \<noteq> 0"
      by (cases "unat n div 2 ^ 63 = 0") (auto simp: less_2_cases_iff)
    moreover have "bit n 63 \<longleftrightarrow> bit (unat n) 63" by (simp add: bit_unsigned_iff)
    then have "bit n 63 \<longleftrightarrow> odd (unat n div 2 ^ 63)" by (simp add: bit_iff_odd)
    ultimately show ?thesis by (simp add: div_eq_0_iff not_less not_le)
  qed
  finally show ?thesis by (simp add: natural_def)
qed

lemma created_options_wf: "load_opts_wf (cli_options_create A)"
  by (simp add: load_opts_wf_def cli_options_create_def natural_def RAND_MAX_def)

context app_api
begin

lemma load_item_wf:
  assumes "load_item L A i opt = (True, opt')"
  shows "load_opts_wf opt \<Longrightarrow> load_opts_wf opt'"
    and "lo_accounts opt \<noteq> [] \<Longrightarrow> lo_accounts opt' \<noteq> []"
proof -
  show "lo_accounts opt' \<noteq> []" if "lo_accounts opt \<noteq> []"
    using assms that
    by (cases i)
      (auto simp: load_string_cb_def load_integer_cb_def load_decimal_cb_def load_bool_cb_def Let_def
        split: if_splits option.splits)
  show "load_opts_wf opt'" if "load_opts_wf opt"
    using assms that
    by (cases i)
      (auto simp: load_string_cb_def load_integer_cb_def load_decimal_cb_def load_bool_cb_def Let_def
        load_opts_wf_def natural_sint split: if_splits option.splits)
qed

end

text \<open>
  C34. The options the program runs with: when it goes on, every option was accepted and nothing was
  printed; the numbers are not negative, the largest amount leaves room for the end of the range
  drawn from, the strings every request needs are there, and there are card numbers exactly when
  no track data is given to use instead.
\<close>

theorem load_options_valid:
  assumes "app_api L A" "getopt_api parse" "load_read_cmdline L A parse argv = (out, Some opt)"
  shows "load_opts_wf opt \<and> (lo_accounts opt = [] \<longleftrightarrow> \<not> M_str_isempty L (lo_trackdata opt)) \<and>
    \<not> lo_help opt \<and> out = []"
proof -
  let ?g = "load_getopt A (cli_options_create A)"
  obtain ret fail o1 where p: "parse ?g (load_item L A) argv (Some ''?'') (cli_options_create A) = (ret, fail, o1)"
    by (cases "parse ?g (load_item L A) argv (Some ''?'') (cli_options_create A)")
  from assms(3) have run: "ret = M_GETOPT_ERROR_SUCCESS" "\<not> lo_help o1" "out = []"
    "opt = (if \<not> M_str_isempty L (lo_trackdata o1) then o1\<lparr>lo_accounts := []\<rparr> else o1)"
    by (auto simp: load_read_cmdline_def p Let_def split: if_splits)
  have "lo_accounts (cli_options_create A) = split_on (CHR '','') def_accts"
    using app_string_api.explode_str [of L A def_accts] assms(1)
    by (simp add: app_api_def cli_options_create_def def_accts_def)
  then have "lo_accounts (cli_options_create A) \<noteq> []" by simp
  moreover note created_options_wf [of A]
  ultimately have "load_opts_wf o1 \<and> lo_accounts o1 \<noteq> []"
    by (intro getopt_api.parse_invariant [OF assms(2) p [unfolded run(1)],
          where P = "\<lambda>opt. load_opts_wf opt \<and> lo_accounts opt \<noteq> []"])
      (use app_api.load_item_wf [OF assms(1)] in auto)
  then show ?thesis using run by (auto simp: load_opts_wf_def)
qed

lemma load_options_valid_witness:
  "\<exists>opt. load_read_cmdline (mstd_ref []) app_ref ref_getopt [''monetra_load'', ''-t50'', ''-w%B4'', ''-f''] = ([], Some opt) \<and>
     load_opts_wf opt \<and> lo_accounts opt = []"
proof -
  let ?r = "load_read_cmdline (mstd_ref []) app_ref ref_getopt [''monetra_load'', ''-t50'', ''-w%B4'', ''-f'']"
  have "case snd ?r of Some opt \<Rightarrow> lo_trackdata opt = Some ''%B4'' | None \<Rightarrow> False" by code_simp
  then obtain opt where r: "?r = (fst ?r, Some opt)" and w: "lo_trackdata opt = Some ''%B4''"
    by (cases ?r) (auto split: option.splits)
  from load_options_valid [OF ref_app.app_api_axioms ref_getopt.getopt_api_axioms r] w r
  show ?thesis by (cases ?r) auto
qed

section \<open>The amounts\<close>

context app_api
begin

lemma draw_amount_ends:
  assumes "M_rand_range L (draws_log 1 (m + 1) n cs) 1 (m + 1) \<notin> {801..899}" "1 < m + 1"
  shows "\<exists>r cs'. draw_amount L m cs = Some (r, cs') \<and> 1 \<le> r \<and> r < m + 1 \<and> r \<notin> {801..899}"
  using assms(1)
proof (induction n arbitrary: cs)
  case 0
  then have "draw_amount L m cs = Some (M_rand_range L cs 1 (m + 1), Rand_range 1 (m + 1) # cs)"
    by (subst draw_amount.simps) (auto simp: Let_def not_le not_less word_less_nat_alt word_le_nat_alt)
  then show ?case using 0 rand_range [OF assms(2), of cs] by simp
next
  case (Suc n)
  show ?case
  proof (cases "M_rand_range L cs 1 (m + 1) \<in> {801..899}")
    case True
    then have "draw_amount L m cs = draw_amount L m (Rand_range 1 (m + 1) # cs)"
      by (subst draw_amount.simps) (auto simp: Let_def word_less_nat_alt word_le_nat_alt)
    then show ?thesis using Suc by simp
  next
    case False
    then have "draw_amount L m cs = Some (M_rand_range L cs 1 (m + 1), Rand_range 1 (m + 1) # cs)"
      by (subst draw_amount.simps) (auto simp: Let_def not_le not_less word_less_nat_alt word_le_nat_alt)
    then show ?thesis using False rand_range [OF assms(2), of cs] by simp
  qed
qed

lemma get_amount_total:
  assumes "load_opts_wf opt" "lo_max_amount opt \<noteq> 0 \<or> lo_exact_amount opt \<noteq> 0"
  shows "\<exists>r cs'. GetAmount L opt cs = Some (r, cs') \<and>
    (if lo_exact_amount opt \<noteq> 0 then r = lo_exact_amount opt
     else 1 \<le> r \<and> r \<le> lo_max_amount opt \<and> r \<notin> {801..899})"
proof (cases "lo_exact_amount opt = 0")
  case True
  let ?m = "lo_max_amount opt"
  have "unat ?m < 2 ^ 31" "0 < unat ?m"
    using assms True unat_gt_0 [of ?m] by (simp_all add: load_opts_wf_def RAND_MAX_def word_less_nat_alt)
  then have m: "unat (?m + 1) = Suc (unat ?m)" "1 < ?m + 1"
    by (simp_all add: unat_word_ariths word_less_nat_alt)
  have "\<exists>x \<ge> 1. x < ?m + 1 \<and> x \<notin> {801..899}" using m(2) by (intro exI [of _ 1]) (simp add: word_le_nat_alt)
  then obtain n where "M_rand_range L (draws_log 1 (?m + 1) n cs) 1 (?m + 1) \<notin> {801..899}"
    using rand_fair [of "{801..899}" 1 "?m + 1" cs] by auto
  from draw_amount_ends [OF this m(2)] obtain r cs' where "draw_amount L ?m cs = Some (r, cs')"
    "1 \<le> r" "r < ?m + 1" "r \<notin> {801..899}" by blast
  moreover from this(3) have "r \<le> ?m" using m(1) by (simp add: word_less_nat_alt word_le_nat_alt)
  ultimately show ?thesis using True by (simp add: GetAmount_def)
qed (simp add: GetAmount_def)

end

text \<open>
  C35. The amounts: with the options the program accepts, and a largest amount that is not 0, an
  amount is always found; it is the exact one if that is given, and otherwise between 0.01 and
  the largest one and not one of 8.01 to 8.99.
\<close>

theorem get_amount_drawn:
  assumes "app_api L A" "getopt_api parse" "load_read_cmdline L A parse argv = (out, Some opt)"
    and "lo_max_amount opt \<noteq> 0 \<or> lo_exact_amount opt \<noteq> 0"
  shows "\<exists>r cs'. GetAmount L opt cs = Some (r, cs') \<and>
    (if lo_exact_amount opt \<noteq> 0 then r = lo_exact_amount opt
     else 1 \<le> r \<and> r \<le> lo_max_amount opt \<and> r \<notin> {801..899})"
  using app_api.get_amount_total [OF assms(1) _ assms(4)] load_options_valid [OF assms(1-3)] by simp

lemma get_amount_drawn_witness:
  "\<exists>opt r cs'. load_read_cmdline (mstd_ref []) app_ref ref_getopt [''monetra_load'', ''-A10''] = ([], Some opt) \<and>
     GetAmount (mstd_ref []) opt [] = Some (r, cs') \<and> 1 \<le> r \<and> r \<notin> {801..899}"
proof -
  let ?r = "load_read_cmdline (mstd_ref []) app_ref ref_getopt [''monetra_load'', ''-A10'']"
  have "case snd ?r of Some opt \<Rightarrow> lo_max_amount opt \<noteq> 0 \<and> lo_exact_amount opt = 0 | None \<Rightarrow> False" by code_simp
  then obtain opt where r: "?r = (fst ?r, Some opt)" and m: "lo_max_amount opt \<noteq> 0" "lo_exact_amount opt = 0"
    by (cases ?r) (auto split: option.splits)
  have "fst ?r = []" by code_simp
  with get_amount_drawn [OF ref_app.app_api_axioms ref_getopt.getopt_api_axioms r, of "[]"] m r
  show ?thesis by (cases ?r) auto
qed

section \<open>Numbering\<close>

text \<open>
  C36. The number of a transaction (\<open>ptrannum\<close>) tells which connection it is sent on and which of
  the transactions of this connection it is, for up to 1,000,000 transactions on a connection.
  So no two transactions of a run have the same number.
\<close>

theorem ptrannum_identifies:
  assumes "0 < nconns" "unat nconns * 1000000 < 2 ^ 64" "i div nconns < 1000000"
  shows "unat (ptrannum_of nconns i) div 1000000 = tran_slot nconns i \<and>
    unat (ptrannum_of nconns i) mod 1000000 = unat (i div nconns) \<and>
    (\<forall>j. j div nconns < 1000000 \<longrightarrow> ptrannum_of nconns j = ptrannum_of nconns i \<longrightarrow> j = i)"
proof -
  have number: "unat (ptrannum_of nconns j) = unat (j mod nconns) * 1000000 + unat (j div nconns)"
    if "j div nconns < 1000000" for j
  proof -
    have "unat (j mod nconns) < unat nconns" using assms(1) by (simp add: unat_mod_distrib word_less_nat_alt)
    then have "unat (j mod nconns) * 1000000 + 1000000 \<le> unat nconns * 1000000" by simp
    moreover have "unat (j div nconns) < 1000000" using that by (simp add: word_less_nat_alt)
    ultimately have "unat (j mod nconns) * 1000000 + unat (j div nconns) < 2 ^ 64" using assms(2) by linarith
    then show ?thesis by (simp add: ptrannum_of_def unat_word_ariths)
  qed
  have small: "unat (j div nconns) < 1000000" if "j div nconns < 1000000" for j
    using that by (simp add: word_less_nat_alt)
  have parts: "unat (ptrannum_of nconns j) div 1000000 = unat (j mod nconns)"
    "unat (ptrannum_of nconns j) mod 1000000 = unat (j div nconns)" if "j div nconns < 1000000" for j
    using small [OF that] by (simp_all add: number [OF that])
  have "j = i" if "j div nconns < 1000000" "ptrannum_of nconns j = ptrannum_of nconns i" for j
  proof -
    have "j mod nconns = i mod nconns" "j div nconns = i div nconns"
      using parts [OF that(1)] parts [OF assms(3)] that(2) by (simp_all add: word_unat_eq_iff)
    then show "j = i" using word_mod_div_equality by metis
  qed
  then show ?thesis using parts [OF assms(3)] by (simp add: tran_slot_def)
qed

lemma ptrannum_identifies_witness: "unat (ptrannum_of 10 57) div 1000000 = 7 \<and> unat (ptrannum_of 10 57) mod 1000000 = 5"
  using ptrannum_identifies [of 10 57] by (simp add: tran_slot_def)

text \<open>Beyond that, numbers are used again: transaction 1,000,000 on one of two connections is the first of the other.\<close>

lemma ptrannum_repeats: "ptrannum_of 2 2000000 = ptrannum_of 2 1"
  by (simp add: ptrannum_of_def)

end
