(* ===== verification/Load_Request.thy ===== *)
theory Load_Request
  imports Load_Main App_Conn
begin

text \<open>
  What both load tests do with one connection: it is set up, requests are made on it, it is
  destroyed.
\<close>

section \<open>Connections between events\<close>

text \<open>With room for a number of transactions more. The user data is what the program has set.\<close>

definition idle_conn :: "mstd \<Rightarrow> nat \<Rightarrow> nat \<Rightarrow> LM_conn \<Rightarrow> bool" where
  "idle_conn L ud n c \<longleftrightarrow> inv_at L [] c \<and> \<not> in_use c \<and> client_part c = (Some ud, False, False) \<and>
     next_ptr c + n < 0x7FFFFFFF"

text \<open>Nothing that was freed has been used, and no lock is held.\<close>

definition calm :: "LM_conn \<Rightarrow> bool" where
  "calm c \<longleftrightarrow> \<not> fault c \<and> locks_held (calls c) = Some []"

lemma idle_mono: "idle_conn L ud n c \<Longrightarrow> m \<le> n \<Longrightarrow> idle_conn L ud m c"
  by (simp add: idle_conn_def)

lemma inv_calm: "inv_at L [] c \<Longrightarrow> calm c"
  by (simp add: calm_def inv_at_def lm_inv_def core_inv_def)

lemma idle_calm: "idle_conn L ud n c \<Longrightarrow> calm c"
  by (auto simp: idle_conn_def dest: inv_calm)

lemma freed_calm: "freed_at [] c \<Longrightarrow> calm c"
  by (simp add: freed_at_def calm_def)

section \<open>Requests\<close>

lemma live_set_param [simp]: "live (snd (LM_trans_set_param L tp k v c)) q = live c q"
  by (simp add: LM_trans_set_param_def Let_def live_def upd_trans_def lock_trans_def unlock_trans_def
      touch_trans_def ext_def split: option.split)

lemma hold_set_param [simp]: "hold (snd (LM_trans_set_param L tp k v c)) = hold c"
  by (simp add: LM_trans_set_param_def Let_def split: option.split)

context app_api
begin

lemma set_each_inv:
  assumes "inv_at L [] c" "\<And>p. tp = Some p \<Longrightarrow> live c p"
  shows "inv_at L [] (set_each L tp kvs c)" "grows c (set_each L tp kvs c)"
    "\<And>p. live (set_each L tp kvs c) p = live c p"
    "client_part (set_each L tp kvs c) = client_part c" "setting (set_each L tp kvs c) = setting c"
    "hold (set_each L tp kvs c) = hold c"
proof -
  have "inv_at L [] d \<and> grows c d \<and> (\<forall>p. live d p = live c p) \<and> client_part d = client_part c \<and>
      setting d = setting c \<and> hold d = hold c" if "d = set_each L tp kvs c" for d
    using assms that unfolding set_each_def
  proof (induction kvs arbitrary: c)
    case (Cons kv kvs)
    let ?d = "snd (LM_trans_set_param L tp (Some (fst kv)) (snd kv) c)"
    have d: "inv_at L [] ?d" "grows c ?d" using trans_set_param_inv [OF Cons.prems(1,2)] by simp_all
    with Cons.IH [of ?d] Cons.prems grows_trans [OF d(2)] show ?case by (simp add: split_beta)
  qed simp
  then show "inv_at L [] (set_each L tp kvs c)" "grows c (set_each L tp kvs c)"
    "\<And>p. live (set_each L tp kvs c) p = live c p"
    "client_part (set_each L tp kvs c) = client_part c" "setting (set_each L tp kvs c) = setting c"
    "hold (set_each L tp kvs c) = hold c"
    by blast+
qed

text \<open>One request, from making the transaction to handing it over, in a callback or between events.\<close>

lemma request_total:
  assumes "inv_at L [] c" "next_ptr c < 0x7FFFFFFF"
  obtains c1 ok c' where "LM_trans_new L CONN c = Some (Some (next_ptr c), c1)"
    and "LM_trans_send L (Some (next_ptr c)) (set_each L (Some (next_ptr c)) kvs c1) = Some (ok, c')"
    and "inv_at L [] c1" and "inv_at L [] c'" and "grows c c1" and "grows c c'"
    and "client_part c1 = client_part c" and "client_part c' = client_part c"
    and "next_ptr c1 = Suc (next_ptr c)" and "next_ptr c' = Suc (next_ptr c)"
    and "in_use c \<longrightarrow> (\<forall>ty tp. spares ty tp c c')"
proof -
  let ?p = "next_ptr c"
  have ids: "ids_left c" using assms by (intro room_ids) (auto simp: inv_at_def lm_inv_def)
  from trans_new_total [OF assms(1) ids] obtain k m cs where
    new: "LM_trans_new L CONN c = Some (Some ?p, c\<lparr>next_ptr := Suc ?p,
        txns := (txns c)(?p \<mapsto> new_trans k), trans_new := trans_new c @ [?p],
        trans_id_map := m, calls := cs\<rparr>)" by metis
  define c1 where "c1 = c\<lparr>next_ptr := Suc ?p, txns := (txns c)(?p \<mapsto> new_trans k),
      trans_new := trans_new c @ [?p], trans_id_map := m, calls := cs\<rparr>"
  have n1: "LM_trans_new L CONN c = Some (Some ?p, c1)" using new by (simp add: c1_def)
  have c1: "inv_at L [] c1" "grows c c1" using trans_new_inv [OF assms(1) ids n1] by simp_all
  have same1: "live c1 ?p" "next_ptr c1 = Suc ?p" "hold c1 = hold c"
    by (simp_all add: c1_def live_def hold_def)
  have part1: "client_part c1 = client_part c" using client.new_kept [OF n1] by simp
  let ?c2 = "set_each L (Some ?p) kvs c1"
  have c2: "inv_at L [] ?c2" "grows c1 ?c2" "\<And>q. live ?c2 q = live c1 q"
    "client_part ?c2 = client_part c1" "setting ?c2 = setting c1" "hold ?c2 = hold c1"
    using set_each_inv [OF c1(1), of "Some ?p" kvs] same1(1) by simp_all
  obtain ok c' where send: "LM_trans_send L (Some ?p) ?c2 = Some (ok, c')"
    and c': "inv_at L [] c'" "grows ?c2 c'"
    using trans_send_inv [of ?c2 "Some ?p"] c2(1,3) same1(1) by (metis option.inject)
  have same2: "client_part c' = client_part c" "setting c' = setting c1"
    using client.send_kept [OF send] setting.send_kept [OF send] c2(4,5) part1 by simp_all
  have g2: "grows c ?c2" using grows_trans [OF c1(2) c2(2)] .
  have "spares ty tp c c'" if "in_use c" for ty tp
  proof -
    have "spares ty tp c ?c2" using g2 that c2(6) same1(3) by (intro keeps_usable) simp_all
    moreover have "held L ?c2" using c2(1) g2 that by (simp add: held_def grows_def)
    then have "spares ty tp ?c2 c'" using spares_send [OF send] c'(2) by simp
    ultimately show ?thesis by (rule spares_trans)
  qed
  with n1 send c1 c'(1) grows_trans [OF g2 c'(2)] part1 same1(2) same2 show ?thesis
    by (intro that [of c1 ok c']) (simp_all add: setting_def)
qed

lemma idle_request:
  assumes "idle_conn L ud (Suc n) c"
  obtains c1 ok c' where "LM_trans_new L CONN c = Some (Some (next_ptr c), c1)"
    and "LM_trans_send L (Some (next_ptr c)) (set_each L (Some (next_ptr c)) kvs c1) = Some (ok, c')"
    and "idle_conn L ud n c'" and "idle_conn L ud n c1"
proof -
  from assms have c: "inv_at L [] c" "next_ptr c < 0x7FFFFFFF" by (simp_all add: idle_conn_def)
  from request_total [OF this, of kvs] assms show ?thesis
    by (smt (verit) idle_conn_def grows_def that add_Suc add_Suc_right)
qed

lemma idle_destroyed:
  assumes "idle_conn L ud n c"
  shows "freed_at [] (LM_conn_destroy L CONN c)"
  using conn_destroy_idle [of c] assms by (simp add: idle_conn_def)

section \<open>A connection is opened\<close>

lemma idle_opened:
  assumes "LM_conn_init L False False h p g = (Some c, g')" "n + 1 < 0x7FFFFFFF"
  shows "idle_conn L ud n (snd (LM_conn_connect L CONN
    (if ip then snd (LM_conn_change_mode CONN LM_MODE_IP (snd (LM_conn_set_tls_clientctx CONN (Some 0)
      (snd (LM_conn_set_userdata CONN (Some ud) c)))))
     else snd (LM_conn_set_tls_clientctx CONN (Some 0) (snd (LM_conn_set_userdata CONN (Some ud) c))))))"
    (is "idle_conn L ud n ?e")
proof -
  note c = init_fresh [OF assms(1)]
  let ?calls = "[Conn_set_userdata (Some ud), Conn_set_tls_clientctx (Some 0)] @
    (if ip then [Conn_change_mode LM_MODE_IP] else []) @ [Conn_connect]"
  have run: "run_steps (run_call L) ?calls c = Some ?e" by simp
  have freed: "conn_freed d \<longleftrightarrow> snd (snd (client_part d))" for d by (simp add: client_part_def)
  have "steps_ok (run_call L) may_call c ?calls"
    by (simp add: may_call_def freed c(3))
  then obtain e where "run_steps (run_call L) ?calls c = Some e" "client_inv L e" "\<not> in_use e"
    using idle_client.run_total [of c] c(1,2) by blast
  then have e: "client_inv L ?e" "\<not> in_use ?e" using run by simp_all
  have "client_part ?e = (Some ud, False, False)" "next_ptr ?e = 1"
    using c(3,4) by simp_all
  with e assms(2) show ?thesis by (auto simp: idle_conn_def client_inv_def freed_at_def client_part_def)
qed

end

end
