(* ===== verification/Load_World_Spec.thy ===== *)
theory Load_World_Spec
  imports Load_Spec Load_Request
begin

text \<open>
  The whole run of \<open>monetra_load\<close>: whatever arrives on its connections and in whatever order, the
  program and its callback use the library within its rules.
\<close>

text \<open>The user data of every connection is the pointer to the options.\<close>

abbreviation conn_ok :: "mstd \<Rightarrow> nat \<Rightarrow> LM_conn \<Rightarrow> bool" where
  "conn_ok L \<equiv> idle_conn L 0"

lemmas conn_ok_def = idle_conn_def and conn_ok_mono = idle_mono and conn_ok_calm = idle_calm

section \<open>One event of one connection\<close>

text \<open>What the callback leaves alone of the program's own state.\<close>

definition load_rest :: "load_state \<Rightarrow> _" where
  "load_rest s = ((ls_opt s, ls_globals s, ls_conns s, ls_gone s), ls_rand s, ls_timer s, ls_now s, ls_waiting s)"

lemma load_rest_simps [simp]:
  "load_rest (s\<lparr>connections_established := n\<rparr>) = load_rest s" "load_rest (s\<lparr>transactions_done := n\<rparr>) = load_rest s"
  "load_rest (s\<lparr>ls_done := b\<rparr>) = load_rest s" "load_rest (s\<lparr>ls_exit := e\<rparr>) = load_rest s"
  "load_rest (s\<lparr>ls_fault := b\<rparr>) = load_rest s" "load_rest (load_printf t s) = load_rest s"
  "ls_fault (load_printf t s) = ls_fault s" "ls_exit (load_printf t s) = ls_exit s"
  by (simp_all add: load_rest_def load_printf_def)

lemma callback_rest:
  assumes "monetra_callback L A i ty tp c s = (c', s')"
  shows "load_rest s' = load_rest s" "client_part c' = client_part c" "setting c' = setting c"
    "conn_user_data c \<noteq> None \<Longrightarrow> ls_fault s' = ls_fault s"
  using assms
  by (auto simp: monetra_callback_def LM_conn_get_userdata_def Let_def split_beta
      split: LM_event_type.splits if_splits)

lemma type_same:
  assumes "held L c" "\<And>p. tp = Some p \<Longrightarrow> live c p"
  shows "same_conn L c (snd (LM_trans_response_type tp c))"
    and "same_conn L c (snd (LM_trans_response_param L tp k c))"
proof -
  show "same_conn L c (snd (LM_trans_response_type tp c))"
  proof (cases tp)
    case None
    then show ?thesis using same_conn_refl [OF assms(1)] by (simp add: LM_trans_response_type_def)
  next
    case (Some p)
    then show ?thesis using look_at_same [OF assms(1), of p] assms(2) by (simp add: reads_look)
  qed
  show "same_conn L c (snd (LM_trans_response_param L tp k c))"
  proof (cases tp)
    case None
    then show ?thesis using same_conn_refl [OF assms(1)] by (simp add: LM_trans_response_param_def)
  next
    case (Some p)
    then show ?thesis using look_at_same [OF assms(1), of p] assms same_conn_refl by (simp add: reads_look)
  qed
qed

text \<open>What the callback looks at before it decides, and what it decides.\<close>

definition response_denied :: "mstd \<Rightarrow> ptr option \<Rightarrow> bool \<Rightarrow> LM_conn \<Rightarrow> bool \<times> LM_conn" where
  "response_denied L tp expect c =
     (if expect then
        let (t, c) = LM_trans_response_type tp c in
        if t \<noteq> LM_TRANS_RESPONSE_CSV then
          let (code, c) = LM_trans_response_param L tp (Some ''code'') c
          in (\<not> M_str_caseeq L code (Some ''AUTH''), c)
        else (False, c)
      else (False, c))"

lemma denied_same:
  assumes "held L c" "\<And>p. tp = Some p \<Longrightarrow> live c p"
  shows "same_conn L c (snd (response_denied L tp expect c))"
proof -
  obtain t d where d: "LM_trans_response_type tp c = (t, d)" by fastforce
  have cd: "same_conn L c d" using type_same(1) [of L c tp, OF assms] d by simp
  then have "held L d" "\<And>p. tp = Some p \<Longrightarrow> live d p"
    using same_conn_live [OF cd assms(1)] assms(2) by (auto simp: same_conn_def)
  from type_same(2) [of L d tp, OF this, where k = "Some ''code''"] same_conn_trans [OF cd] cd
  show ?thesis using same_conn_refl [OF assms(1)] by (simp add: response_denied_def d split_beta)
qed

lemma done_callback:
  assumes "held L c" "conn_user_data c \<noteq> None"
  shows "monetra_callback L A i LM_EVENT_TRANS_DONE tp c s =
    (let s = s\<lparr>transactions_done := transactions_done s + 1\<rparr>;
         (denied, c) = response_denied L tp (lo_expect_approved (ls_opt s)) c
     in if denied then
          let (verbiage, c) = LM_trans_response_param L tp (Some ''verbiage'') c
          in (c, (load_printf (''Transaction denied: '' @ M_printf_s A verbiage @ LF) s)\<lparr>ls_exit := Some 1\<rparr>)
        else
          let s = (if transactions_done s = expected_trans s then s\<lparr>ls_done := True\<rparr> else s);
              c = (if lo_delete_txn_handle (ls_opt s) then LM_trans_delete L tp c else c)
          in (c, s))"
proof -
  obtain ud where "conn_user_data c = Some ud" using assms(2) by auto
  then have "LM_conn_get_userdata CONN c = (Some ud, c)"
    using held_touch [OF assms(1)] by (simp add: LM_conn_get_userdata_def)
  then show ?thesis
    unfolding monetra_callback_def response_denied_def
    by (simp only: Let_def prod.case LM_event_type.case option.distinct if_False)
qed

text \<open>What the callback makes of the response of transaction \<open>t\<close>: whether it is a refusal where approval is expected.\<close>

definition refused :: "mstd \<Rightarrow> bool \<Rightarrow> LM_trans \<Rightarrow> bool" where
  "refused L expect t \<longleftrightarrow>
     expect \<and> response_type t \<noteq> LM_TRANS_RESPONSE_CSV \<and>
     \<not> M_str_caseeq L (if done_kv t then M_hash_dict_get_direct L (response_params t) ''code'' else None) (Some ''AUTH'')"

lemma look_at_trans: "txns c p = Some t \<Longrightarrow> txns (look_at p c) = txns c"
  by (simp add: look_at_def lock_trans_def unlock_trans_def touch_trans_def live_def ext_def)

context app_api
begin

lemma denied_refused:
  assumes "txns c p = Some t"
  shows "fst (response_denied L (Some p) expect c) = refused L expect t"
    and "txns (snd (response_denied L (Some p) expect c)) = txns c"
  using assms look_at_trans [OF assms] look_at_trans [of "look_at p c" p t]
  by (auto simp: response_denied_def refused_def LM_trans_response_type_def LM_trans_response_param_def
      trans_at_def Let_def look_at_def split_beta)

lemma delete_held:
  assumes "txns c p = Some t" "in_use c" "\<not> conn_freed c"
  shows "trans_delay_rm (LM_trans_delete L (Some p) c) = trans_delay_rm c @ [p]"
  by (rule delete_busy_eq [OF assms]) simp

end

text \<open>
  C37. What happens to a response: it is counted; the program exits, with code 1, exactly when
  approval is expected and the response is not CSV and its code is not AUTH; otherwise the
  loop is left exactly when this was the last response expected, and the transaction is given up exactly
  when the program said its responses are not wanted any more.
\<close>

theorem counted_response:
  assumes "app_api L A" "held L c" "conn_user_data c \<noteq> None" "txns c p = Some t" "ls_exit s = None"
    and "monetra_callback L A i LM_EVENT_TRANS_DONE (Some p) c s = (c', s')"
  shows "transactions_done s' = transactions_done s + 1 \<and>
    ls_exit s' = (if refused L (lo_expect_approved (ls_opt s)) t then Some 1 else None) \<and>
    (ls_done s' \<longleftrightarrow> ls_done s \<or> \<not> refused L (lo_expect_approved (ls_opt s)) t \<and>
       transactions_done s + 1 = expected_trans s) \<and>
    trans_delay_rm c' = trans_delay_rm c @
      (if \<not> refused L (lo_expect_approved (ls_opt s)) t \<and> lo_delete_txn_handle (ls_opt s) then [p] else [])"
proof -
  obtain d where d: "response_denied L (Some p) (lo_expect_approved (ls_opt s)) c =
      (refused L (lo_expect_approved (ls_opt s)) t, d)" "txns d p = Some t"
    using app_api.denied_refused [OF assms(1,4), where expect = "lo_expect_approved (ls_opt s)"] assms(4)
    by (cases "response_denied L (Some p) (lo_expect_approved (ls_opt s)) c") simp
  have "same_conn L c (snd (response_denied L (Some p) (lo_expect_approved (ls_opt s)) c))"
    by (rule denied_same [OF assms(2)]) (simp add: live_def assms(4))
  then have "same_conn L c d" by (simp add: d(1))
  then have same: "held L d" "trans_delay_rm d = trans_delay_rm c" by (simp_all add: same_conn_def hold_def)
  then have "in_use d" "\<not> conn_freed d" using inv_at_not_freed by (auto simp: held_def)
  then have delete: "trans_delay_rm (LM_trans_delete L (Some p) d) = trans_delay_rm c @ [p]"
    using app_api.delete_held [OF assms(1) d(2)] same(2) by simp
  have look: "trans_delay_rm (snd (LM_trans_response_param L (Some p) k d)) = trans_delay_rm c" for k
    using type_same(2) [OF same(1), of "Some p"] d(2) same(2) by (auto simp: live_def same_conn_def hold_def)
  show ?thesis
    using assms(5,6) delete look same(2)
    by (auto simp: done_callback [OF assms(2,3)] d(1) Let_def split_beta load_printf_def split: if_splits)
qed

lemma counted_response_witness:
  "let c = (sample_conn LM_CONN_STATUS_CONNECTED)\<lparr>in_use := True, conn_user_data := Some 0\<rparr>;
       s = (load_start ((cli_options_create app_ref)\<lparr>lo_expect_approved := True\<rparr>)
              \<lparr>LM_once = False, tls_init = None, cleanup_handlers = 0\<rparr> [])\<lparr>expected_trans := 2\<rparr>;
       r = monetra_callback (mstd_ref []) app_ref 0 LM_EVENT_TRANS_DONE (Some 1) c s
   in transactions_done (snd r) = 1 \<and> ls_exit (snd r) = Some 1 \<and> \<not> ls_done (snd r)"
proof -
  let ?c = "(sample_conn LM_CONN_STATUS_CONNECTED)\<lparr>in_use := True, conn_user_data := Some 0\<rparr>"
  let ?s = "(load_start ((cli_options_create app_ref)\<lparr>lo_expect_approved := True\<rparr>)
              \<lparr>LM_once = False, tls_init = None, cleanup_handlers = 0\<rparr> [])\<lparr>expected_trans := 2\<rparr>"
  obtain c' s' where r: "monetra_callback (mstd_ref []) app_ref 0 LM_EVENT_TRANS_DONE (Some 1) ?c ?s = (c', s')"
    by fastforce
  have "trans_wf sample_trans" by (simp add: trans_wf_def sample_trans_def zero_trans_def)
  then have held: "held (mstd_ref []) ?c"
    by (auto simp: held_def inv_at_def lm_inv_def ping_inv_def core_inv_defs status_is_def ref_get_single)
  have "refused (mstd_ref []) True sample_trans" by code_simp
  moreover have "conn_user_data ?c \<noteq> None" "txns ?c 1 = Some sample_trans" "ls_exit ?s = None"
    by (simp_all add: load_start_def)
  note counted_response [OF ref_app.app_api_axioms held this r]
  ultimately show ?thesis unfolding Let_def r by (simp add: load_start_def)
qed

context app_api
begin

lemma load_callback_keeps:
  assumes "held L c" "conn_user_data c \<noteq> None" "\<And>p. tp = Some p \<Longrightarrow> live c p"
    and "\<And>p. tp = Some p \<Longrightarrow> over_event ty \<Longrightarrow> usable c (Some p)"
    and "monetra_callback L A i ty tp c s = (c', s')"
  shows "held L c' \<and> grows c c' \<and> conn_user_data c' \<noteq> None \<and> spares ty tp c c'"
proof (cases "ty = LM_EVENT_TRANS_DONE")
  case False
  then have "c' = c"
    using assms(1,2,5) held_touch [OF assms(1)]
    by (cases ty) (auto simp: monetra_callback_def LM_conn_get_userdata_def Let_def)
  with assms(1,2) show ?thesis by simp
next
  case True
  obtain b d where d: "response_denied L tp (lo_expect_approved (ls_opt s)) c = (b, d)" by fastforce
  have cd: "same_conn L c d" using denied_same [of L c tp, OF assms(1,3)] d by (metis snd_conv)
  have held: "held L d" and live: "\<And>p. tp = Some p \<Longrightarrow> live d p"
    using same_conn_live [OF cd assms(1)] assms(3) cd by (auto simp: same_conn_def)
  have over: "over_event ty" using True by (simp add: over_event_def)
  have "usable c tp" using assms(4) over by (cases tp) (simp_all add: usable_def)
  then have usable: "usable d tp" by (rule same_conn_usable [OF cd assms(1)])
  have user: "conn_user_data e = conn_user_data c" if "setting e = setting d" for e
    using that cd by (simp add: same_conn_def setting_def)
  consider "b" "c' = snd (LM_trans_response_param L tp (Some ''verbiage'') d)"
    | "c' = LM_trans_delete L tp d" | "c' = d"
    using assms(5) d by (auto simp: True done_callback [OF assms(1,2)] Let_def split: if_splits prod.splits)
  then show ?thesis
  proof cases
    case 1
    have "same_conn L c c'" using same_conn_trans [OF cd type_same(2) [of L d tp, OF held live]] 1 by simp
    then show ?thesis
      using same_conn_spares assms(1,2) by (auto simp: same_conn_def setting_def)
  next
    case 2
    note del = deleted_in_callback [OF held usable]
    have "grows c c'" using cd del(2) grows_trans by (auto simp: 2 same_conn_def)
    moreover have "spares ty tp c c'"
      using spares_trans [OF same_conn_spares [OF cd assms(1)] del(5) [OF over]] by (simp add: 2)
    ultimately show ?thesis using del(1,3) user [of c'] assms(2) by (simp add: 2)
  next
    case 3
    with cd same_conn_spares [OF cd assms(1)] user [of d] assms(2) show ?thesis by (simp add: same_conn_def)
  qed
qed

sublocale load: program L fst "\<lambda>c x. (c, snd x)" "\<lambda>x. ls_exit (snd x) \<noteq> None"
  "\<lambda>_ x. conn_user_data (fst x) \<noteq> None" "\<lambda>x. conn_user_data (fst x) \<noteq> None" "\<lambda>_. True"
  "\<lambda>ty tp x. Some (monetra_callback L A i ty tp (fst x) (snd x))"
  "\<lambda>es x. load_deliver L A i es (fst x) (snd x)" for i
proof unfold_locales
  show "load_deliver L A i [] (fst x) (snd x) = Some x" for x
    by (subst load_deliver.simps) simp
  show "load_deliver L A i (Entry ty tp # es) (fst x) (snd x) =
      (case Some (monetra_callback L A i ty tp (fst (ext (Event_callback ty tp) (fst x), snd x))
          (snd (ext (Event_callback ty tp) (fst x), snd x))) of
         None \<Rightarrow> None
       | Some x \<Rightarrow>
           if ls_exit (snd x) \<noteq> None then Some x
           else let (stop, c) = LM_conn_destroy_is_set (fst x)
                in if stop then Some (c, snd x) else load_deliver L A i es (fst (c, snd x)) (snd (c, snd x)))"
    for ty tp es x
    by (subst load_deliver.simps) (simp add: Let_def split_beta)
  show "\<exists>x'. Some (monetra_callback L A i ty tp (fst x) (snd x)) = Some x' \<and> held L (fst x') \<and>
      grows (fst x) (fst x') \<and> (if ls_exit (snd x') \<noteq> None then True
        else if destroy (fst x') then conn_user_data (fst x') \<noteq> None
        else conn_user_data (fst x') \<noteq> None \<and> spares ty tp (fst x) (fst x'))"
    if "held L (fst x)" "conn_user_data (fst x) \<noteq> None" "\<And>p. tp = Some p \<Longrightarrow> live (fst x) p"
      "\<And>p. tp = Some p \<Longrightarrow> over_event ty \<Longrightarrow> usable (fst x) (Some p)" for x tp ty
    using load_callback_keeps [OF that, where i = i and s = "snd x"]
    by (cases "monetra_callback L A i ty tp (fst x) (snd x)") auto
qed (auto simp: setting_def)

lemma deliver_rest:
  assumes "load_deliver L A i es c s = Some (c', s')"
  shows "load_rest s' = load_rest s \<and> client_part c' = client_part c \<and> setting c' = setting c \<and>
    (conn_user_data c \<noteq> None \<longrightarrow> ls_fault s' = ls_fault s)"
  using assms
proof (induction es arbitrary: c s)
  case Nil
  then show ?case by (subst (asm) load_deliver.simps) simp
next
  case (Cons e es)
  let ?c = "ext (Event_callback (ev_type e) (ev_trans e)) c"
  obtain c1 s1 where cb: "monetra_callback L A i (ev_type e) (ev_trans e) ?c s = (c1, s1)" by fastforce
  obtain stop d where d: "LM_conn_destroy_is_set c1 = (stop, d)" by fastforce
  have ext: "client_part ?c = client_part c" "setting ?c = setting c" "conn_user_data ?c = conn_user_data c"
    by (simp_all add: client_part_def)
  note rest = callback_rest [OF cb, unfolded ext]
  have same: "client_part d = client_part c" "setting d = setting c" "conn_user_data d = conn_user_data c"
    using client.reads_kept(7) [of c1] setting.reads_kept(7) [of c1] d rest(2,3) by (simp_all add: client_part_def)
  have run: "load_deliver L A i (e # es) c s = (if ls_exit s1 \<noteq> None then Some (c1, s1)
      else if stop then Some (d, s1) else load_deliver L A i es d s1)"
    by (subst load_deliver.simps) (simp add: cb d)
  show ?case
  proof (cases "ls_exit s1 \<noteq> None \<or> stop")
    case True
    then show ?thesis using Cons.prems run rest same by (auto split: if_splits)
  next
    case False
    then have "load_deliver L A i es d s1 = Some (c', s')" using Cons.prems run by simp
    from Cons.IH [OF this] rest(1,4) same show ?thesis by simp
  qed
qed

text \<open>One event, completely handled; the connection can have made a ping.\<close>

lemma load_handler_total:
  assumes "conn_ok L (Suc n) c" "event_ok c ty et" "ls_exit s = None"
  obtains c' s' where "load_handler L A i ty et c s = Some (c', s')"
    and "load_rest s' = load_rest s" and "ls_fault s' = ls_fault s"
    and "if ls_exit s' \<noteq> None then calm c' else conn_ok L n c'"
proof -
  have c: "inv_at L [] c" "\<not> in_use c" "client_part c = (Some 0, False, False)" "next_ptr c + Suc n < 0x7FFFFFFF"
    using assms(1) by (simp_all add: conn_ok_def)
  let ?d = "(lock_conn c)\<lparr>in_use := True\<rparr>"
  have part: "client_part (unlock_conn e) = client_part c \<and> next_ptr (unlock_conn e) \<le> Suc (next_ptr c)"
    if "handle_event L ty et ?d = Some (es, e)" for es e
    using client.any_event_kept [OF that] event_next_ptr [OF that] by simp
  have cl: "client_inv L (fst (c, s))" "\<not> in_use (fst (c, s))" "event_ok (fst (c, s)) ty et"
    using c(1,2) assms(2) by (simp_all add: client_inv_def)
  show ?thesis
  proof (rule load.handler_total [OF cl, where i = i])
    fix es e x
    assume run: "handle_event L ty et ((lock_conn (fst (c, s)))\<lparr>in_use := True\<rparr>) = Some (es, e)"
      "load_deliver L A i es (fst (unlock_conn e, snd (c, s))) (snd (unlock_conn e, snd (c, s))) = Some x"
      and held: "held L (fst x)"
      and fin: "\<not> ls_exit (snd x) \<noteq> None \<Longrightarrow> \<exists>c'. finish_event L (fst x) = Some c' \<and> client_inv L c' \<and> \<not> in_use c' \<and>
        conn_freed c' = destroy (fst x) \<and> forward (fst (c, s)) c' \<and>
        (if destroy (fst x) then conn_user_data (fst (c', snd x)) \<noteq> None else conn_user_data (fst (c', snd x)) \<noteq> None)"
    obtain c1 s1 where x: "x = (c1, s1)" by fastforce
    have e: "client_part (unlock_conn e) = client_part c" "next_ptr (unlock_conn e) \<le> Suc (next_ptr c)"
      using part run(1) by simp_all
    then have "conn_user_data (unlock_conn e) = Some 0" using c(3) by (simp add: client_part_def)
    with deliver_rest [of i es "unlock_conn e" s c1 s1] run(2) x e
    have s1: "load_rest s1 = load_rest s" "ls_fault s1 = ls_fault s" "client_part c1 = client_part c"
      "next_ptr c1 \<le> Suc (next_ptr c)" by (simp_all add: setting_def)
    have half: "load_handler L A i ty et c s =
        (if ls_exit s1 \<noteq> None then Some (c1, s1) else map_option (\<lambda>c. (c, s1)) (finish_event L c1))"
      using run x by (simp add: load_handler_def map_conv_bind_option comp_def)
    show ?thesis
    proof (cases "ls_exit s1 = None")
      case False
      then show ?thesis using half s1 held x inv_calm [of L c1] by (intro that [of c1 s1]) (simp_all add: held_def)
    next
      case True
      obtain c' where c': "finish_event L c1 = Some c'" "client_inv L c'" "\<not> in_use c'"
        using fin True x by auto
      have "\<not> destroy c1" using s1(3) c(3) by (simp add: client_part_def)
      then have "client_part c' = (Some 0, False, False)" using finish_keeps_client [OF c'(1)] s1(3) c(3) by simp
      moreover have "next_ptr c' = next_ptr c1" using setting.finish_kept [OF c'(1)] by (simp add: setting_def)
      ultimately have "conn_ok L n c'"
        using c'(2,3) s1(4) c(4) by (auto simp: conn_ok_def client_inv_def freed_at_def client_part_def)
      then show ?thesis using half True c'(1) s1 by (intro that [of c' s1]) simp_all
    qed
  qed (use assms(3) part c(3) in \<open>auto simp: client_part_def\<close>)
qed

lemma load_conn_event_total:
  assumes "conn_ok L (Suc n) c" "world_event_ok c e" "ls_exit s = None"
  obtains c' s' where "load_conn_event L A i e c s = Some (c', s')"
    and "load_rest s' = load_rest s" and "ls_fault s' = ls_fault s"
    and "if ls_exit s' \<noteq> None then calm c' else conn_ok L n c'"
proof -
  have "\<exists>ty et. load_conn_event L A i e c s = load_handler L A i ty et c s \<and> event_ok c ty et"
  proof (cases e)
    case (Trans_timer_event p)
    then have "touch_trans p c = c" using assms(2) event_ok_touch by simp
    with Trans_timer_event assms(2) show ?thesis by auto
  qed (use assms(2) in auto)
  then show ?thesis using load_handler_total [OF assms(1) _ assms(3)] that by metis
qed

end

section \<open>The program\<close>

text \<open>The options without the part that the program changes as it runs.\<close>

definition opt_fixed :: "cli_options_t \<Rightarrow> cli_options_t" where
  "opt_fixed opt = opt\<lparr>lo_delete_txn_handle := False, lo_expect_approved := False, lo_expected_connections := 0\<rparr>"

lemma opt_fixed_simps [simp]:
  "opt_fixed (opt\<lparr>lo_delete_txn_handle := b\<rparr>) = opt_fixed opt"
  "opt_fixed (opt\<lparr>lo_expect_approved := b\<rparr>) = opt_fixed opt"
  "opt_fixed (opt\<lparr>lo_expected_connections := n\<rparr>) = opt_fixed opt"
  by (simp_all add: opt_fixed_def)

lemma opt_fixedD:
  assumes "opt_fixed a = opt_fixed b"
  shows "lo_user_count a = lo_user_count b" "lo_num_conns a = lo_num_conns b"
    "lo_max_amount a = lo_max_amount b" "lo_exact_amount a = lo_exact_amount b"
    "load_opts_wf a \<longleftrightarrow> load_opts_wf b"
proof -
  have "lo_user_count (opt_fixed c) = lo_user_count c" "lo_num_conns (opt_fixed c) = lo_num_conns c"
    "lo_max_amount (opt_fixed c) = lo_max_amount c" "lo_exact_amount (opt_fixed c) = lo_exact_amount c"
    "load_opts_wf (opt_fixed c) = load_opts_wf c" for c
    by (simp_all add: opt_fixed_def load_opts_wf_def)
  then show "lo_user_count a = lo_user_count b" "lo_num_conns a = lo_num_conns b"
    "lo_max_amount a = lo_max_amount b" "lo_exact_amount a = lo_exact_amount b"
    "load_opts_wf a \<longleftrightarrow> load_opts_wf b"
    using assms by metis+
qed

text \<open>
  The state while the program runs, with room for \<open>n\<close> transactions more on each of its \<open>N\<close>
  connections; and what holds however it is left.
\<close>

definition load_ok :: "mstd \<Rightarrow> cli_options_t \<Rightarrow> nat \<Rightarrow> nat \<Rightarrow> load_state \<Rightarrow> bool" where
  "load_ok L opt N n s \<longleftrightarrow>
     \<not> ls_fault s \<and> \<not> stopped s \<and> opt_fixed (ls_opt s) = opt_fixed opt \<and> length (ls_conns s) = N \<and>
     n + 1 < 0x7FFFFFFF \<and> (\<forall>c. Some c \<in> set (ls_conns s) \<longrightarrow> conn_ok L n c) \<and>
     (\<forall>c \<in> set (ls_gone s). freed_at [] c)"

definition load_safe :: "load_state \<Rightarrow> bool" where
  "load_safe s \<longleftrightarrow> \<not> ls_fault s \<and> (\<forall>c. Some c \<in> set (ls_conns s) \<longrightarrow> calm c) \<and>
     (\<forall>c \<in> set (ls_gone s). freed_at [] c)"

lemma load_ok_safe: "load_ok L opt N n s \<Longrightarrow> load_safe s"
  by (auto simp: load_ok_def load_safe_def dest: conn_ok_calm)

lemma load_ok_mono: "load_ok L opt N n s \<Longrightarrow> m \<le> n \<Longrightarrow> load_ok L opt N m s"
  by (auto simp: load_ok_def elim: conn_ok_mono)

lemma load_ok_same:
  assumes "load_ok L opt N n s" "ls_fault s' = ls_fault s" "stopped s' = stopped s"
    and "opt_fixed (ls_opt s') = opt_fixed (ls_opt s)" "ls_conns s' = ls_conns s" "ls_gone s' = ls_gone s"
  shows "load_ok L opt N n s'"
  using assms by (simp add: load_ok_def)

lemma load_ok_printf [simp]: "load_ok L opt N n (load_printf t s) = load_ok L opt N n s"
  by (simp add: load_ok_def load_printf_def stopped_def)

lemma load_ok_simps [simp]:
  "load_ok L opt N n (s\<lparr>ls_now := t\<rparr>) = load_ok L opt N n s"
  "load_ok L opt N n (s\<lparr>ls_done := b\<rparr>) = load_ok L opt N n s"
  "load_ok L opt N n (s\<lparr>ls_timer := tm\<rparr>) = load_ok L opt N n s"
  "load_ok L opt N n (s\<lparr>ls_rand := cs\<rparr>) = load_ok L opt N n s"
  by (simp_all add: load_ok_def stopped_def)

lemma set_updated: "x \<in> set (xs[i := y]) \<Longrightarrow> x = y \<or> x \<in> set xs"
  using set_update_subset_insert by fastforce

lemma status_ok: "load_ok L opt N n s \<Longrightarrow> load_ok L opt N n (status_callback A b s)"
  by (erule load_ok_same) (simp_all add: status_callback_def load_printf_def stopped_def Let_def)

context app_api
begin

lemma load_event_total:
  assumes "load_ok L opt N (Suc n) s"
  obtains s' where "load_event L A e s = Some s'"
    and "if ls_exit s' \<noteq> None then load_safe s' else load_ok L opt N n s'"
proof -
  have s: "load_ok L opt N n s" "ls_exit s = None"
    using load_ok_mono [OF assms, of n] assms by (simp_all add: load_ok_def stopped_def)
  show ?thesis
  proof (cases e)
    case Status_timer
    then show ?thesis
      using s status_ok [OF s(1)] that by (cases "ls_timer s") (simp_all add: status_callback_def load_printf_def Let_def)
  next
    case (From_conn i ev)
    show ?thesis
    proof (cases "i < length (ls_conns s) \<and> (\<exists>c. ls_conns s ! i = Some c \<and> world_event_ok c ev)")
      case False
      then have "load_event L A e s = Some s" by (auto simp: From_conn split: option.split)
      then show ?thesis by (rule that) (simp add: s)
    next
      case True
      then obtain c where i: "i < length (ls_conns s)" "ls_conns s ! i = Some c" "world_event_ok c ev" by blast
      then have "conn_ok L (Suc n) c" using assms nth_mem [of i "ls_conns s"] by (simp add: load_ok_def)
      then obtain c' s' where r: "load_conn_event L A i ev c s = Some (c', s')"
        "load_rest s' = load_rest s" "ls_fault s' = ls_fault s"
        "if ls_exit s' \<noteq> None then calm c' else conn_ok L n c'"
        by (rule load_conn_event_total [OF _ i(3) s(2)])
      let ?s = "s'\<lparr>ls_conns := (ls_conns s')[i := Some c']\<rparr>"
      have same: "ls_conns s' = ls_conns s" "ls_gone s' = ls_gone s" "ls_opt s' = ls_opt s"
        "ls_waiting s' = ls_waiting s" using r(2) by (simp_all add: load_rest_def)
      have "if ls_exit ?s \<noteq> None then load_safe ?s else load_ok L opt N n ?s"
        using r(3,4) same s
        by (auto simp: load_ok_def load_safe_def stopped_def dest!: set_updated dest: conn_ok_calm)
      moreover have "load_event L A e s = Some ?s" using i r(1) by (simp add: From_conn)
      ultimately show ?thesis using that by blast
    qed
  qed
qed

lemma take_events_total:
  assumes "load_ok L opt N (length es + m) s"
  obtains s' es' where "take_events L A es s = Some (s', es')"
    and "if stopped s' then load_safe s' else load_ok L opt N (length es' + m) s'"
proof -
  have "\<exists>s' es'. take_events L A es s = Some (s', es') \<and>
      (if stopped s' then load_safe s' else load_ok L opt N (length es' + m) s')"
    using assms
  proof (induction es arbitrary: s)
    case Nil
    show ?case
    proof (cases "ls_done s \<or> ls_exit s \<noteq> None")
      case True
      with Nil show ?thesis by (auto simp: load_ok_def)
    next
      case False
      then have "take_events L A [] s = Some (s\<lparr>ls_waiting := True\<rparr>, [])" by simp
      moreover have "load_safe (s\<lparr>ls_waiting := True\<rparr>)"
        using load_ok_safe [OF Nil] by (simp add: load_safe_def)
      ultimately show ?thesis by (simp add: stopped_def)
    qed
  next
    case (Cons te es)
    obtain now e where te: "te = (now, e)" by fastforce
    show ?case
    proof (cases "ls_done s \<or> ls_exit s \<noteq> None")
      case True
      with Cons.prems show ?thesis by (auto simp: load_ok_def)
    next
      case False
      have "load_ok L opt N (Suc (length es + m)) (s\<lparr>ls_now := now\<rparr>)" using Cons.prems by simp
      then obtain s1 where s1: "load_event L A e (s\<lparr>ls_now := now\<rparr>) = Some s1"
        "if ls_exit s1 \<noteq> None then load_safe s1 else load_ok L opt N (length es + m) s1"
        by (rule load_event_total)
      have run: "take_events L A (te # es) s = take_events L A es s1" using False s1(1) te by simp
      show ?thesis
      proof (cases "ls_exit s1 = None")
        case True
        with Cons.IH [of s1] s1(2) run show ?thesis by simp
      next
        case False
        then have "take_events L A es s1 = Some (s1, es)" by (cases es) simp_all
        with False s1(2) run show ?thesis by (simp add: stopped_def)
      qed
    qed
  qed
  with that show ?thesis by blast
qed

end

text \<open>A part of the program: it makes at most \<open>n\<close> transactions on a connection.\<close>

definition part_safe ::
  "mstd \<Rightarrow> cli_options_t \<Rightarrow> nat \<Rightarrow> nat \<Rightarrow> nat \<Rightarrow> load_part \<Rightarrow> bool" where
  "part_safe L opt N N' n f \<longleftrightarrow>
     (\<forall>s es m. load_ok L opt N (n + (length es + m)) s \<longrightarrow>
       (\<exists>s' es'. f (s, es) = Some (s', es') \<and>
         (if stopped s' then load_safe s' else load_ok L opt N' (length es' + m) s')))"

lemma part_Nil: "part_safe L opt N N 0 (run_parts [])"
  by (auto simp: part_safe_def load_ok_def)

lemma part_Cons:
  assumes "part_safe L opt N M n f" "part_safe L opt M N' k (run_parts fs)"
  shows "part_safe L opt N N' (n + k) (run_parts (f # fs))"
  unfolding part_safe_def
proof (intro allI impI)
  fix s and es :: load_events and m
  assume ok: "load_ok L opt N (n + k + (length es + m)) s"
  then have "load_ok L opt N (n + (length es + (k + m))) s" by (simp add: ac_simps)
  then obtain s1 es1 where s1: "f (s, es) = Some (s1, es1)"
    "if stopped s1 then load_safe s1 else load_ok L opt M (length es1 + (k + m)) s1"
    using assms(1) unfolding part_safe_def by blast
  have run: "run_parts (f # fs) (s, es) = run_parts fs (s1, es1)" using ok s1(1) by (simp add: load_ok_def)
  show "\<exists>s' es'. run_parts (f # fs) (s, es) = Some (s', es') \<and>
      (if stopped s' then load_safe s' else load_ok L opt N' (length es' + m) s')"
  proof (cases "stopped s1")
    case True
    then have "run_parts fs (s1, es1) = Some (s1, es1)" by (cases fs) simp_all
    with True s1(2) run show ?thesis by simp
  next
    case False
    then have "load_ok L opt M (k + (length es1 + m)) s1" using s1(2) by (simp add: ac_simps)
    with assms(2) run show ?thesis unfolding part_safe_def by simp
  qed
qed

lemma part_less: "part_safe L opt N N' 0 f \<Longrightarrow> part_safe L opt N N' n f"
  unfolding part_safe_def
proof (intro allI impI)
  fix s and es :: load_events and m
  assume all: "\<forall>s es m. load_ok L opt N (0 + (length es + m)) s \<longrightarrow> (\<exists>s' es'. f (s, es) = Some (s', es') \<and>
      (if stopped s' then load_safe s' else load_ok L opt N' (length es' + m) s'))"
    and "load_ok L opt N (n + (length es + m)) s"
  from this(2) have "load_ok L opt N (0 + (length es + m)) s" by (rule load_ok_mono) simp
  with all show "\<exists>s' es'. f (s, es) = Some (s', es') \<and>
      (if stopped s' then load_safe s' else load_ok L opt N' (length es' + m) s')" by blast
qed

lemma part_doing:
  assumes "\<And>s m. load_ok L opt N m s \<Longrightarrow> load_ok L opt N' m (f s)"
  shows "part_safe L opt N N' 0 (doing f)"
proof -
  have "\<not> stopped (f s) \<and> load_ok L opt N' m (f s)" if "load_ok L opt N m s" for s m
    using assms [OF that] by (simp add: load_ok_def)
  then show ?thesis by (simp add: part_safe_def doing_def)
qed

lemma part_doing_opt:
  assumes "\<And>s m. load_ok L opt N (n + m) s \<Longrightarrow> \<exists>s'. f s = Some s' \<and> load_ok L opt N' m s'"
  shows "part_safe L opt N N' n (doing_opt f)"
  unfolding part_safe_def
proof (intro allI impI)
  fix s and es :: load_events and m
  assume "load_ok L opt N (n + (length es + m)) s"
  from assms [OF this] obtain s' where s': "f s = Some s'" "load_ok L opt N' (length es + m) s'" by blast
  then have "\<not> stopped s'" by (simp add: load_ok_def)
  with s' show "\<exists>s' es'. doing_opt f (s, es) = Some (s', es') \<and>
      (if stopped s' then load_safe s' else load_ok L opt N' (length es' + m) s')"
    by (simp add: doing_opt_def)
qed

lemma part_printf: "part_safe L opt N N 0 (doing (load_printf t))"
  by (rule part_doing) simp

lemma for_loop_total:
  assumes "\<And>k i x. k < n \<Longrightarrow> P (Suc k) x \<Longrightarrow> \<exists>x'. f i x = Some x' \<and> P k x'" "P n x"
  shows "\<exists>x'. for_loop f n i x = Some x' \<and> P 0 x'"
  using assms
proof (induction n arbitrary: i x)
  case (Suc n)
  from Suc.prems(1) [of n x i] Suc.prems(2) obtain y where y: "f i x = Some y" "P n y" by auto
  from Suc.IH [OF _ y(2), of "i + 1"] Suc.prems(1) y(1) show ?case by simp
qed simp

text \<open>Requests go to a connection of the array, which may be NULL.\<close>

lemma slot_bound: "nconns \<noteq> 0 \<Longrightarrow> tran_slot nconns i < unat nconns"
  using word_mod_less_divisor [of nconns i] by (simp add: tran_slot_def unat_gt_0 word_less_nat_alt)

lemma replace_conn:
  assumes "load_ok L opt N (Suc n) s" "conn_ok L n c'"
  shows "load_ok L opt N n (s\<lparr>ls_conns := (ls_conns s)[i := Some c']\<rparr>)"
  using load_ok_mono [OF assms(1), of n] assms(2)
  by (auto simp: load_ok_def stopped_def dest!: set_updated)

context app_api
begin

lemma part_loop: "part_safe L opt N N 0 (M_event_loop L A)"
  unfolding part_safe_def M_event_loop_def
proof (intro allI impI)
  fix s and es :: load_events and m
  assume "load_ok L opt N (0 + (length es + m)) s"
  then have "load_ok L opt N (length es + m) (s\<lparr>ls_done := False\<rparr>)" by simp
  then show "\<exists>s' es'. (case (s, es) of (s, es) \<Rightarrow> take_events L A es (s\<lparr>ls_done := False\<rparr>)) = Some (s', es') \<and>
      (if stopped s' then load_safe s' else load_ok L opt N (length es' + m) s')"
    using take_events_total by (metis prod.case)
qed

lemma request_on_slot:
  assumes "load_ok L opt N (Suc n) s" "i < N"
  obtains tp s1 where "on_conn i (LM_trans_new L) s = Some (tp, s1)" and "load_ok L opt N n s1"
    and "ls_opt s1 = ls_opt s" and "ls_rand s1 = ls_rand s"
    and "\<And>cs. \<exists>s'. fill_and_send L i tp kvs (s1\<lparr>ls_rand := cs\<rparr>) = Some s' \<and> load_ok L opt N n s'"
proof -
  have i: "i < length (ls_conns s)" using assms by (simp add: load_ok_def)
  show ?thesis
  proof (cases "ls_conns s ! i")
    case None
    have "on_conn i (LM_trans_new L) s = Some (None, s)"
      using i None by (simp add: on_conn_def LM_trans_new_def)
    moreover have "fill_and_send L i None kvs (s\<lparr>ls_rand := cs\<rparr>) = Some (s\<lparr>ls_rand := cs\<rparr>)" for cs
      using i None by (simp add: fill_and_send_def on_conn_def LM_trans_send_def)
    ultimately show ?thesis using load_ok_mono [OF assms(1), of n] by (intro that [of None s]) simp_all
  next
    case (Some c)
    then have "conn_ok L (Suc n) c" using assms i nth_mem [OF i] by (auto simp: load_ok_def)
    from idle_request [OF this, of kvs] obtain c1 ok c' where
      c1: "LM_trans_new L CONN c = Some (Some (next_ptr c), c1)"
      "LM_trans_send L (Some (next_ptr c)) (set_each L (Some (next_ptr c)) kvs c1) = Some (ok, c')"
      "conn_ok L n c'" "conn_ok L n c1" by metis
    let ?s1 = "s\<lparr>ls_conns := (ls_conns s)[i := Some c1]\<rparr>"
    have "on_conn i (LM_trans_new L) s = Some (Some (next_ptr c), ?s1)"
      using i Some c1(1) by (simp add: on_conn_def)
    moreover have "fill_and_send L i (Some (next_ptr c)) kvs (?s1\<lparr>ls_rand := cs\<rparr>) =
        Some ((s\<lparr>ls_conns := (ls_conns s)[i := Some c']\<rparr>)\<lparr>ls_rand := cs\<rparr>)" for cs
      using i c1(2) by (simp add: fill_and_send_def on_conn_def)
    ultimately show ?thesis using replace_conn [OF assms(1)] c1(3,4)
      by (intro that [of "Some (next_ptr c)" ?s1]) simp_all
  qed
qed

lemma make_request_total:
  assumes "load_ok L opt N (Suc n) s" "i < N"
  obtains tp s' where "make_request L i kvs s = Some (tp, s')" and "load_ok L opt N n s'"
proof -
  obtain tp s1 where s1: "on_conn i (LM_trans_new L) s = Some (tp, s1)" "ls_rand s1 = ls_rand s"
    "\<And>cs. \<exists>s'. fill_and_send L i tp kvs (s1\<lparr>ls_rand := cs\<rparr>) = Some s' \<and> load_ok L opt N n s'"
    by (rule request_on_slot [OF assms, of kvs]) blast
  have "s1\<lparr>ls_rand := ls_rand s1\<rparr> = s1" by simp
  then obtain s' where "fill_and_send L i tp kvs s1 = Some s'" "load_ok L opt N n s'"
    using s1(3) [of "ls_rand s1"] by metis
  with s1(1) show ?thesis by (intro that [of tp s']) (simp_all add: make_request_def)
qed

lemma tran_params_total:
  assumes "load_opts_wf opt" "lo_max_amount opt \<noteq> 0 \<or> lo_exact_amount opt \<noteq> 0"
  obtains kvs cs' where "tran_params L opt pn cs = Some (kvs, cs')"
proof -
  have "GetAmount L opt cs \<noteq> None" for cs using get_amount_total [OF assms, of cs] by auto
  then have "tran_params L opt pn cs \<noteq> None"
    by (auto simp: tran_params_def Let_def bind_eq_None_conv simp del: not_None_eq split: prod.split)
  then show ?thesis using that by auto
qed

lemma enqueue_tran_total:
  assumes "load_ok L opt N (Suc n) s" "i < N" "load_opts_wf opt"
    and "lo_max_amount opt \<noteq> 0 \<or> lo_exact_amount opt \<noteq> 0"
  shows "\<exists>s'. enqueue_tran L i pn s = Some s' \<and> load_ok L opt N n s'"
proof -
  have same: "opt_fixed (ls_opt s) = opt_fixed opt" using assms(1) by (simp add: load_ok_def)
  then obtain kvs cs' where kvs: "tran_params L (ls_opt s) pn (ls_rand s) = Some (kvs, cs')"
    using tran_params_total [of "ls_opt s"] assms(3,4) opt_fixedD [OF same] by metis
  obtain tp s1 where s1: "on_conn i (LM_trans_new L) s = Some (tp, s1)" "ls_opt s1 = ls_opt s"
    "ls_rand s1 = ls_rand s"
    "\<And>cs. \<exists>s'. fill_and_send L i tp kvs (s1\<lparr>ls_rand := cs\<rparr>) = Some s' \<and> load_ok L opt N n s'"
    by (rule request_on_slot [OF assms(1,2), of kvs]) blast
  with kvs show ?thesis by (simp add: enqueue_tran_def)
qed

lemma part_enqueue_transactions:
  assumes "nconns \<noteq> 0" "load_opts_wf opt" "lo_max_amount opt \<noteq> 0 \<or> lo_exact_amount opt \<noteq> 0"
  shows "part_safe L opt (unat nconns) (unat nconns) (unat ntxns) (doing_opt (enqueue_transactions L nconns ntxns))"
  unfolding enqueue_transactions_def
proof (rule part_doing_opt)
  fix s m
  assume ok: "load_ok L opt (unat nconns) (unat ntxns + m) s"
  show "\<exists>s'. for_loop (\<lambda>i. enqueue_tran L (tran_slot nconns i) (ptrannum_of nconns i)) (unat ntxns) 0 s = Some s' \<and>
      load_ok L opt (unat nconns) m s'"
    by (rule for_loop_total [where P = "\<lambda>k. load_ok L opt (unat nconns) (k + m)", simplified])
      (use ok enqueue_tran_total [OF _ slot_bound [OF assms(1)] assms(2,3)] in auto)
qed

lemma part_make_requests:
  assumes "nconns \<noteq> 0"
  shows "part_safe L opt (unat nconns) (unat nconns) (unat k) (doing_opt
    (for_loop (\<lambda>i s. map_option snd (make_request L (tran_slot nconns i) (par (ls_opt s) i) s)) (unat k) 0))"
proof (rule part_doing_opt)
  fix s m
  assume ok: "load_ok L opt (unat nconns) (unat k + m) s"
  have one: "\<exists>s'. map_option snd (make_request L (tran_slot nconns i) (par (ls_opt s) i) s) = Some s' \<and>
      load_ok L opt (unat nconns) n s'" if "load_ok L opt (unat nconns) (Suc n) s" for i n s
    using make_request_total [OF that slot_bound [OF assms]] by (metis option.map(2) snd_conv)
  show "\<exists>s'. for_loop (\<lambda>i s. map_option snd (make_request L (tran_slot nconns i) (par (ls_opt s) i) s)) (unat k) 0 s = Some s' \<and>
      load_ok L opt (unat nconns) m s'"
    by (rule for_loop_total [where P = "\<lambda>k. load_ok L opt (unat nconns) (k + m)", simplified])
      (use ok one in auto)
qed

lemma part_send_requests: "part_safe L opt N N 0 (send_requests L A k flags)"
proof (cases "k = 0")
  case True
  then show ?thesis unfolding send_requests_def by (simp add: part_doing)
next
  case False
  have "part_safe L opt N N 0 (doing (begin_requests k flags))"
    by (rule part_doing, erule load_ok_same) (simp_all add: begin_requests_def load_printf_def stopped_def Let_def)
  moreover have "part_safe L opt N N 0 (doing (end_requests A flags))"
    by (rule part_doing) (simp add: end_requests_def status_ok Let_def)
  ultimately have "part_safe L opt N N (0 + (0 + (0 + 0)))
      (run_parts [doing (begin_requests k flags), M_event_loop L A, doing (end_requests A flags)])"
    by (rule part_Cons [OF _ part_Cons [OF part_loop part_Cons [OF _ part_Nil]]])
  with False show ?thesis by (simp add: send_requests_def)
qed

lemma open_connection_ok:
  assumes "load_ok L opt N n s"
  shows "load_ok L opt N n (open_connection L admin i s)"
proof -
  obtain conn g where init: "LM_conn_init L False False (lo_hostname (ls_opt s))
      (if admin then lo_admin_port (ls_opt s) else lo_port (ls_opt s)) (ls_globals s) = (conn, g)" by fastforce
  show ?thesis
  proof (cases conn)
    case None
    then show ?thesis
      using assms init by (auto simp: open_connection_def load_ok_def stopped_def dest!: set_updated)
  next
    case (Some c)
    have "n + 1 < 0x7FFFFFFF" using assms by (simp add: load_ok_def)
    note opened = idle_opened [OF init [unfolded Some] this, of 0 "lo_method (ls_opt s) = METHOD_IP"]
    then show ?thesis
      using assms init Some
      by (auto simp: open_connection_def load_ok_def stopped_def Let_def dest!: set_updated)
  qed
qed

lemma part_start_connections: "part_safe L opt N (unat num) 0 (start_connections L A num admin)"
proof -
  have "part_safe L opt N (unat num) 0 (doing (\<lambda>s.
      let s = s\<lparr>ls_conns := replicate (unat num) None\<rparr>;
          s = s\<lparr>ls_opt := (ls_opt s)\<lparr>lo_expected_connections := num\<rparr>, connections_established := 0\<rparr>
      in if \<not> admin then load_printf (''Starting '' @ print_u64 num @ '' connections...'' @ CRLF) s else s))"
    by (rule part_doing) (auto simp: load_ok_def load_printf_def stopped_def Let_def)
  moreover have "part_safe L opt (unat num) (unat num) 0
      (doing_opt (for_loop (\<lambda>i s. Some (open_connection L admin i s)) (unat num) 0))"
  proof (rule part_doing_opt)
    fix s m
    assume ok: "load_ok L opt (unat num) (0 + m) s"
    show "\<exists>s'. for_loop (\<lambda>i s. Some (open_connection L admin i s)) (unat num) 0 s = Some s' \<and>
        load_ok L opt (unat num) m s'"
      by (rule for_loop_total [where P = "\<lambda>k. load_ok L opt (unat num) m"])
        (use ok open_connection_ok in auto)
  qed
  moreover have "part_safe L opt (unat num) (unat num) 0
      (doing (\<lambda>s. if \<not> admin then load_printf (''Connected'' @ CRLF) s else s))"
    by (rule part_doing) simp
  ultimately have "part_safe L opt N (unat num) (0 + (0 + (0 + (0 + 0)))) (start_connections L A num admin)"
    unfolding start_connections_def by (rule part_Cons [OF _ part_Cons [OF _ part_Cons [OF part_loop part_Cons [OF _ part_Nil]]]])
  then show ?thesis by simp
qed

lemma part_destroy_connections: "part_safe L opt (unat num) 0 0 (doing (destroy_connections L num))"
proof (rule part_doing)
  fix s m
  assume ok: "load_ok L opt (unat num) m s"
  have "freed_at [] (LM_conn_destroy L CONN c)" if "Some c \<in> set (ls_conns s)" for c
    using ok that idle_destroyed by (auto simp: load_ok_def)
  with ok show "load_ok L opt 0 m (destroy_connections L num s)"
    by (auto simp: load_ok_def destroy_connections_def stopped_def split: option.splits)
qed

end

text \<open>A part that looks at the fixed options only.\<close>

lemma part_options:
  assumes "\<And>s es. opt_fixed (ls_opt s) = opt_fixed opt \<Longrightarrow> f (s, es) = g (s, es)" "part_safe L opt N N' n g"
  shows "part_safe L opt N N' n f"
  using assms unfolding part_safe_def load_ok_def by metis

lemma run_parts_append: "run_parts (fs @ gs) x = (case run_parts fs x of None \<Rightarrow> None | Some y \<Rightarrow> run_parts gs y)"
proof (induction fs arbitrary: x)
  case (Cons f fs)
  have "run_parts gs x = Some x" if "stopped (fst x)" using that by (cases gs) simp_all
  with Cons show ?case by (simp split: option.split)
qed simp

lemma part_append:
  assumes "part_safe L opt N M n (run_parts fs)" "part_safe L opt M N' k (run_parts gs)"
  shows "part_safe L opt N N' (n + k) (run_parts (fs @ gs))"
proof -
  have "part_safe L opt N N' (n + k) (run_parts (run_parts fs # gs))" by (rule part_Cons [OF assms])
  moreover have "run_parts (fs @ gs) x = run_parts (run_parts fs # gs) x" if "\<not> stopped (fst x)" for x
    using that by (simp add: run_parts_append)
  ultimately show ?thesis unfolding part_safe_def load_ok_def by (metis fst_conv)
qed

section \<open>Users\<close>

context app_api
begin

lemma users_conns_pos: "lo_num_conns opt \<noteq> 0 \<Longrightarrow> load_opts_wf opt \<Longrightarrow> users_conns opt \<noteq> 0"
proof -
  assume conns: "lo_num_conns opt \<noteq> 0" and wf: "load_opts_wf opt"
  have "unat (lo_user_count opt div 10) \<le> unat (lo_user_count opt)" by (simp add: unat_div_distrib)
  also have "\<dots> < 2 ^ 63" using wf by (simp add: load_opts_wf_def natural_def)
  finally have "unat (lo_user_count opt div 10 + 1) = Suc (unat (lo_user_count opt div 10))"
    by (simp add: unat_word_ariths)
  then have "lo_user_count opt div 10 + 1 \<noteq> 0" by auto
  with conns show "users_conns opt \<noteq> 0" by (simp add: users_conns_def Let_def)
qed

lemma users_conns_fixed: "opt_fixed a = opt_fixed b \<Longrightarrow> users_conns a = users_conns b"
  by (simp only: users_conns_def opt_fixedD(1,2) [of a b] Let_def cong: if_cong)

lemma part_users:
  assumes "nconns \<noteq> 0"
  shows "part_safe L opt (unat nconns) (unat nconns) (unat k) (doing_opt (enqueue_delete_users L nconns k))"
    and "part_safe L opt (unat nconns) (unat nconns) (unat k) (doing_opt (enqueue_add_users L nconns k))"
  unfolding enqueue_delete_users_def enqueue_add_users_def by (rule part_make_requests [OF assms])+

lemma part_create_users:
  assumes "lo_num_conns opt \<noteq> 0" "load_opts_wf opt"
  shows "part_safe L opt 0 0 (2 * unat (lo_user_count opt)) (create_users L A)"
proof (rule part_options)
  let ?k = "lo_user_count opt" and ?n = "users_conns opt"
  let ?parts = "[doing (load_printf (''Adding '' @ print_u64 ?k @ '' users...'' @ CRLF)),
        doing (load_printf (''Connecting to MADMIN port ('' @ print_u64 ?n @ '' conns)'' @ CRLF)),
        start_connections L A ?n True,
        doing (load_printf (''Connected, clearing conflicting user accounts (use -n if trying to preserve)...'' @ CRLF)),
        doing_opt (enqueue_delete_users L ?n ?k),
        send_requests L A ?k REQUEST_FLAG_MIN_STATUS,
        doing (load_printf (''Adding new user accounts...'' @ CRLF)),
        doing_opt (enqueue_add_users L ?n ?k),
        send_requests L A ?k (REQUEST_FLAG_REQ_APPROVALS OR REQUEST_FLAG_MIN_STATUS),
        doing (destroy_connections L ?n),
        doing (load_printf (''Done'' @ CRLF))]"
  note users = part_users [OF users_conns_pos [OF assms], where opt = opt]
  have "part_safe L opt 0 0 (0 + (0 + (0 + (0 + (unat ?k + (0 + (0 + (unat ?k + (0 + (0 + (0 + 0)))))))))))
      (run_parts ?parts)"
    by (intro part_Cons [OF part_printf] part_Cons [OF part_start_connections] part_Cons [OF users(1)]
        part_Cons [OF users(2)] part_Cons [OF part_send_requests] part_Cons [OF part_destroy_connections] part_Nil)
  then show "part_safe L opt 0 0 (2 * unat ?k) (run_parts ?parts)" by (simp add: mult_2)
  show "create_users L A (s, es) = run_parts ?parts (s, es)" if "opt_fixed (ls_opt s) = opt_fixed opt" for s es
    by (simp only: create_users_def prod.case Let_def opt_fixedD(1) [OF that] users_conns_fixed [OF that])
qed

lemma part_cleanup_users:
  assumes "lo_num_conns opt \<noteq> 0" "load_opts_wf opt"
  shows "part_safe L opt 0 0 (unat (lo_user_count opt)) (cleanup_users L A)"
proof (rule part_options)
  let ?k = "lo_user_count opt" and ?n = "users_conns opt"
  let ?parts = "[doing (load_printf (''Cleaning up '' @ print_u64 ?k @ '' users...'' @ CRLF)),
        doing (load_printf (''Connecting to MADMIN port'' @ CRLF)),
        start_connections L A ?n True,
        doing (load_printf (''Connected, deleting user accounts (use -N to prevent)...'' @ CRLF)),
        doing_opt (enqueue_delete_users L ?n ?k),
        send_requests L A ?k (REQUEST_FLAG_REQ_APPROVALS OR REQUEST_FLAG_MIN_STATUS),
        doing (destroy_connections L ?n),
        doing (load_printf (''Done'' @ CRLF))]"
  note users = part_users [OF users_conns_pos [OF assms], where opt = opt]
  have "part_safe L opt 0 0 (0 + (0 + (0 + (0 + (unat ?k + (0 + (0 + (0 + 0))))))))
      (run_parts ?parts)"
    by (intro part_Cons [OF part_printf] part_Cons [OF part_start_connections] part_Cons [OF users(1)]
        part_Cons [OF part_send_requests] part_Cons [OF part_destroy_connections] part_Nil)
  then show "part_safe L opt 0 0 (unat ?k) (run_parts ?parts)" by simp
  show "cleanup_users L A (s, es) = run_parts ?parts (s, es)" if "opt_fixed (ls_opt s) = opt_fixed opt" for s es
    by (simp only: cleanup_users_def prod.case Let_def opt_fixedD(1) [OF that] users_conns_fixed [OF that])
qed

lemma part_run:
  assumes "\<not> lo_user_settle opt" "lo_num_conns opt \<noteq> 0" "load_opts_wf opt"
    and "lo_max_amount opt \<noteq> 0 \<or> lo_exact_amount opt \<noteq> 0"
  shows "part_safe L opt 0 0 (unat (lo_num_trans opt) + 3 * unat (lo_user_count opt)) (run_parts (load_parts L A opt))"
proof -
  let ?n = "lo_num_conns opt" and ?k = "unat (lo_num_trans opt)" and ?u = "unat (lo_user_count opt)"
  have users: "part_safe L opt 0 0 (2 * ?u) (run_parts (if b then [create_users L A] else []))"
    "part_safe L opt 0 0 ?u (run_parts (if b then [cleanup_users L A] else []))" for b
    using part_Cons [OF part_create_users [OF assms(2,3)] part_Nil]
      part_Cons [OF part_cleanup_users [OF assms(2,3)] part_Nil] part_less [OF part_Nil]
    by simp_all
  have ask: "part_safe L opt (unat ?n) (unat ?n) 0
      (doing (\<lambda>s. if \<not> lo_auto_confirm opt then load_printf (''Press Enter to process'' @ CRLF) s else s))"
    by (rule part_doing) simp
  have "part_safe L opt 0 (unat ?n) (0 + (?k + (0 + (0 + (0 + 0)))))
      (run_parts [start_connections L A ?n False,
        doing_opt (enqueue_transactions L ?n (lo_num_trans opt)),
        doing (load_printf (''Transactions Ready'' @ CRLF)),
        doing (\<lambda>s. if \<not> lo_auto_confirm opt then load_printf (''Press Enter to process'' @ CRLF) s else s),
        send_requests L A (lo_num_trans opt) REQUEST_FLAG_NONE])"
    by (intro part_Cons [OF part_start_connections] part_Cons [OF part_enqueue_transactions [OF assms(2,3,4)]]
        part_Cons [OF part_printf] part_Cons [OF ask] part_Cons [OF part_send_requests] part_Nil)
  then have main: "part_safe L opt 0 (unat ?n) ?k
      (run_parts [start_connections L A ?n False,
        doing_opt (enqueue_transactions L ?n (lo_num_trans opt)),
        doing (load_printf (''Transactions Ready'' @ CRLF)),
        doing (\<lambda>s. if \<not> lo_auto_confirm opt then load_printf (''Press Enter to process'' @ CRLF) s else s),
        send_requests L A (lo_num_trans opt) REQUEST_FLAG_NONE])" by (simp only: add_0 add_0_right)
  have "part_safe L opt (unat ?n) 0 (0 + 0) (run_parts [doing (destroy_connections L ?n)])"
    by (rule part_Cons [OF part_destroy_connections part_Nil])
  then have rest: "part_safe L opt (unat ?n) 0 0
      (run_parts ((if lo_user_settle opt then [settle_batches L A] else []) @ [doing (destroy_connections L ?n)]))"
    using assms(1) by (simp only: if_False append_Nil add_0)
  have "part_safe L opt 0 0 (2 * ?u + (?k + (0 + ?u))) (run_parts (load_parts L A opt))"
    unfolding load_parts_def append_assoc
    by (rule part_append [OF users(1) part_append [OF main, OF part_append [OF rest users(2), unfolded append_assoc]]])
  then show ?thesis by (simp add: algebra_simps)
qed

end




end
