(* ===== verification/ConnLoad_Main.thy ===== *)
theory ConnLoad_Main
  imports Load_Main
begin

text \<open>
  The connection load test (\<open>apps/monetra_connload/src/monetra_connload.c\<close>): a number of
  connections are kept open, each makes a number of transactions, is closed, and a new one takes
  its place. What this program has word for word in common with \<open>monetra_load\<close> (the terminal
  commands, the texts of parser errors) is taken from there.

  The static variables are the state. Connections get numbers in the order they are made, and
  stay in the list when they have been destroyed; the number of a connection stands for the
  pointer to it, to its node in \<open>track_conns\<close> and to its private data. The one-shot timers hold
  the connection they were made for. \<open>exit\<close> ends the program: nothing of the state is touched
  after \<open>cn_exit\<close> is set.
\<close>

section \<open>Configuration\<close>

record connload_config =
  config_hostname :: string
  config_port :: u16
  config_username :: string
  config_password :: string
  config_num_conns :: u64
  config_trans_per_conn :: u64
  config_delay_per_trans_ms :: u64

definition connload_default :: connload_config where
  "connload_default =
     \<lparr>config_hostname = ''localhost'', config_port = 8665, config_username = ''loopback'',
      config_password = ''test123'', config_num_conns = 100, config_trans_per_conn = 2,
      config_delay_per_trans_ms = 1000\<rparr>"

definition connload_integer_cb :: "char \<Rightarrow> u64 option \<Rightarrow> connload_config \<Rightarrow> bool \<times> connload_config" where
  "connload_integer_cb short_opt integer cfg =
     (case integer of
        None \<Rightarrow> (False, cfg)
      | Some val \<Rightarrow>
          if sint val < 0 then (False, cfg)
          else if short_opt = CHR ''p'' then
            if val > M_UINT16_MAX then (False, cfg) else (True, cfg\<lparr>config_port := ucast val\<rparr>)
          else if short_opt = CHR ''c'' then
            if val > SIZE_MAX then (False, cfg) else (True, cfg\<lparr>config_num_conns := val\<rparr>)
          else if short_opt = CHR ''t'' then
            if val > SIZE_MAX then (False, cfg) else (True, cfg\<lparr>config_trans_per_conn := val\<rparr>)
          else if short_opt = CHR ''d'' then
            if val > SIZE_MAX then (False, cfg) else (True, cfg\<lparr>config_delay_per_trans_ms := val\<rparr>)
          else (False, cfg))"

definition connload_string_cb ::
  "mstd \<Rightarrow> mstd_app \<Rightarrow> char \<Rightarrow> cstr \<Rightarrow> connload_config \<Rightarrow> bool \<times> connload_config" where
  "connload_string_cb L A short_opt s cfg =
     (if M_str_isempty L s then (False, cfg)
      else if short_opt = CHR ''U'' then
        (True, cfg\<lparr>config_username := M_str_cpy A 128 (config_username cfg) (the s)\<rparr>)
      else if short_opt = CHR ''P'' then
        (True, cfg\<lparr>config_password := M_str_cpy A 128 (config_password cfg) (the s)\<rparr>)
      else if short_opt = CHR ''H'' then
        (True, cfg\<lparr>config_hostname := M_str_cpy A 128 (config_hostname cfg) (the s)\<rparr>)
      else (False, cfg))"

text \<open>Only options with a string or an integer are registered.\<close>

fun connload_item :: "mstd \<Rightarrow> mstd_app \<Rightarrow> getopt_item \<Rightarrow> connload_config \<Rightarrow> bool \<times> connload_config" where
  "connload_item L A (Item_string sh l s) cfg = connload_string_cb L A sh s cfg"
| "connload_item L A (Item_integer sh l i) cfg = connload_integer_cb sh i cfg"
| "connload_item L A _ cfg = (False, cfg)"

definition connload_getopt :: "connload_config \<Rightarrow> getopt_option list" where
  "connload_getopt cfg =
     (let opt_of = (\<lambda>kind sh tmp. Getopt_option kind sh None True (snprintf_n 512 tmp)) in
       [opt_of Getopt_string (CHR ''U'') (''username          : defaults to '' @ quoted (config_username cfg)),
        opt_of Getopt_string (CHR ''P'') (''password          : defaults to '' @ quoted (config_password cfg)),
        opt_of Getopt_string (CHR ''H'') (''hostname          : defaults to '' @ quoted (config_hostname cfg)),
        opt_of Getopt_integer (CHR ''p'')
          (''port              : defaults to '' @ quoted (print_u64 (ucast (config_port cfg)))),
        opt_of Getopt_integer (CHR ''t'')
          (''trans per conn    : defaults to '' @ quoted (print_u64 (config_trans_per_conn cfg))),
        opt_of Getopt_integer (CHR ''c'')
          (''num connections   : defaults to '' @ quoted (print_u64 (config_num_conns cfg))),
        opt_of Getopt_integer (CHR ''d'')
          (''delay per trans ms: defaults to '' @ quoted (print_u64 (config_delay_per_trans_ms cfg)))])"

definition connload_usage :: "mstd_app \<Rightarrow> string \<Rightarrow> getopt_option list \<Rightarrow> string" where
  "connload_usage A argv0 g =
     (let bname = M_fs_path_basename A argv0;
          help = M_getopt_help A g
      in ''Usage:'' @ CRLF @ ''  '' @ bname @ '' [options]'' @ CRLF @ CRLF @
         ''Parameter Descriptions:'' @ CRLF @ help @ CRLF @ ''Example:'' @ CRLF @ ''  '' @ bname @
         '' -U loopback -P test123 -H testbox.monetra.com -p 8665 -t 100 -d 1000 -c 1000'' @ CRLF @ CRLF)"

definition connload_read_cmdline ::
  "mstd \<Rightarrow> mstd_app \<Rightarrow> connload_config getopt_parse \<Rightarrow> string list \<Rightarrow> string \<times> connload_config option" where
  "connload_read_cmdline L A M_getopt_parse argv =
     (let cfg = connload_default;
          g = connload_getopt cfg;
          (ret, fail, cfg) = M_getopt_parse g (connload_item L A) argv (Some ''?'') cfg
      in
        if ret \<noteq> M_GETOPT_ERROR_SUCCESS then
          let out = (case err_type_desc ret of
                       None \<Rightarrow> []
                     | Some desc \<Rightarrow>
                         ''Aborted - problem with command line arguments:'' @ LF @
                         ''   '' @ desc @ M_printf_s A fail @ LF @ LF)
          in (out @ connload_usage A (hd argv) g, None)
        else ([], Some cfg))"

definition connload_print_config :: "connload_config \<Rightarrow> string" where
  "connload_print_config cfg =
     ''Config Summary:'' @ CRLF @
     ''  Engine           : '' @ config_hostname cfg @ '':'' @ print_u64 (ucast (config_port cfg)) @ CRLF @
     ''  User             : '' @ config_username cfg @ CRLF @
     ''  Connections      : '' @ print_u64 (config_num_conns cfg) @ CRLF @
     ''  Trans Per Conn   : '' @ print_u64 (config_trans_per_conn cfg) @ CRLF @
     ''  Trans Delay ms   : '' @ print_u64 (config_delay_per_trans_ms cfg) @ CRLF @ CRLF"

section \<open>State\<close>

record conn_private_t =
  node :: ptr
  num_txns :: u64

record connload_state =
  cn_config :: connload_config
  cn_globals :: lm_globals
  cn_conns :: "LM_conn list"
  cn_priv :: "nat \<Rightarrow> conn_private_t option"   \<comment> \<open>the private data that is allocated\<close>
  cn_timers :: "nat list"                     \<comment> \<open>the one-shot timers of \<open>trans_delay_cb\<close>\<close>
  track_starttime :: u64
  track_lasttime :: u64
  track_num_connections :: u64
  track_num_transactions :: u64
  track_last_transactions :: u64
  track_conns :: "ptr list"
  txn_enqueued :: u64
  cn_now :: u64
  cn_exit :: "nat option"
  cn_out :: string
  cn_fault :: bool                            \<comment> \<open>a pointer was NULL or to memory that is gone\<close>

definition connload_printf :: "string \<Rightarrow> connload_state \<Rightarrow> connload_state" where
  "connload_printf t s = s\<lparr>cn_out := cn_out s @ t\<rparr>"

text \<open>Reading and changing what a pointer to private data points to.\<close>

definition read_priv :: "nat option \<Rightarrow> connload_state \<Rightarrow> conn_private_t \<times> connload_state" where
  "read_priv priv s =
     (case Option.bind priv (cn_priv s) of
        Some p \<Rightarrow> (p, s)
      | None \<Rightarrow> (\<lparr>node = 0, num_txns = 0\<rparr>, s\<lparr>cn_fault := True\<rparr>))"

definition write_priv ::
  "nat option \<Rightarrow> (conn_private_t \<Rightarrow> conn_private_t) \<Rightarrow> connload_state \<Rightarrow> connload_state" where
  "write_priv priv f s =
     (case priv of
        Some q \<Rightarrow>
          (case cn_priv s q of
             Some p \<Rightarrow> s\<lparr>cn_priv := (cn_priv s)(q \<mapsto> f p)\<rparr>
           | None \<Rightarrow> s\<lparr>cn_fault := True\<rparr>)
      | None \<Rightarrow> s\<lparr>cn_fault := True\<rparr>)"

section \<open>Transactions and connections\<close>

definition connload_params :: "connload_config \<Rightarrow> u64 \<Rightarrow> (string \<times> cstr) list" where
  "connload_params cfg n =
     [(''username'', Some (config_username cfg)), (''password'', Some (config_password cfg)),
      (''action'', Some ''sale''), (''account'', Some ''4012888888881881''), (''expdate'', Some ''0549''),
      (''amount'', Some ''1.00''), (''zip'', Some ''32606''), (''comments'', Some ''conn load script''),
      (''ptrannum'', Some (snprintf_n 256 (print_u64 n)))]"

definition connload_enqueue_tran ::
  "mstd \<Rightarrow> LM_conn \<Rightarrow> connload_state \<Rightarrow> (LM_conn \<times> connload_state) option" where
  "connload_enqueue_tran L c s = do {
     (tp, c) \<leftarrow> LM_trans_new L CONN c;
     let (priv, c) = LM_conn_get_userdata CONN c;
     let s = write_priv priv (\<lambda>p. p\<lparr>num_txns := num_txns p + 1\<rparr>) s;
     let s = s\<lparr>txn_enqueued := txn_enqueued s + 1\<rparr>;
     let c = set_each L tp (connload_params (cn_config s) (txn_enqueued s)) c;
     (_, c) \<leftarrow> LM_trans_send L tp c;
     Some (c, s)
   }"

definition connload_destroy_connection ::
  "mstd \<Rightarrow> mstd_app \<Rightarrow> LM_conn \<Rightarrow> connload_state \<Rightarrow> LM_conn \<times> connload_state" where
  "connload_destroy_connection L A c s =
     (let (priv, c) = LM_conn_get_userdata CONN c;
          (p, s) = read_priv priv s;
          s = s\<lparr>track_conns := M_llist_take_node A (track_conns s) (node p)\<rparr>;
          s = (case priv of None \<Rightarrow> s | Some q \<Rightarrow> s\<lparr>cn_priv := (cn_priv s)(q := None)\<rparr>)
      in (LM_conn_destroy L CONN c, s))"

text \<open>The context of TLS is the shared one. A new connection is the last of the list.\<close>

definition connload_create_connection :: "mstd \<Rightarrow> connload_state \<Rightarrow> connload_state" where
  "connload_create_connection L s =
     (let (conn, g) = LM_conn_init L False False (Some (config_hostname (cn_config s)))
                        (config_port (cn_config s)) (cn_globals s);
          s = s\<lparr>cn_globals := g\<rparr>
      in case conn of
           None \<Rightarrow> (connload_printf (CRLF @ ''Failed to create new LM_conn_t object'' @ CRLF) s)\<lparr>cn_exit := Some 1\<rparr>
         | Some c \<Rightarrow>
             let i = length (cn_conns s);
                 s = s\<lparr>track_conns := M_llist_insert L (track_conns s) i\<rparr>;
                 s = s\<lparr>cn_priv := (cn_priv s)(i \<mapsto> \<lparr>node = i, num_txns = 0\<rparr>)\<rparr>;
                 c = snd (LM_conn_set_userdata CONN (Some i) c);
                 c = snd (LM_conn_set_tls_clientctx CONN (Some 0) c);
                 c = snd (LM_conn_connect L CONN c)
             in s\<lparr>cn_conns := cn_conns s @ [c]\<rparr>)"

section \<open>The callback of the connections\<close>

text \<open>The callback of connection number \<open>i\<close>, which is handed in as \<open>c\<close>.\<close>

definition connload_callback ::
  "mstd \<Rightarrow> mstd_app \<Rightarrow> nat \<Rightarrow> LM_event_type \<Rightarrow> ptr option \<Rightarrow> LM_conn \<Rightarrow> connload_state
    \<Rightarrow> (LM_conn \<times> connload_state) option" where
  "connload_callback L A i type tp c s =
     (let (priv, c) = LM_conn_get_userdata CONN c in
      case type of
        LM_EVENT_CONN_CONNECTED \<Rightarrow> do {
          let s = s\<lparr>track_num_connections := track_num_connections s + 1\<rparr>;
          (c, s) \<leftarrow> connload_enqueue_tran L c s;
          Some (c, if M_llist_len A (track_conns s) < unat (config_num_conns (cn_config s))
                   then connload_create_connection L s else s)
        }
      | LM_EVENT_CONN_DISCONNECT \<Rightarrow>
          let s = s\<lparr>track_num_connections := track_num_connections s - 1\<rparr>;
              (c, s) = connload_destroy_connection L A c s
          in Some (c, connload_create_connection L s)
      | LM_EVENT_CONN_ERROR \<Rightarrow>
          let (p, s) = read_priv priv s;
              s = connload_printf
                    (if num_txns p \<noteq> 0
                     then LF @ ''Disconnect or Error received after '' @ print_u64 (num_txns p) @
                       '' transactions on connection: '' @ M_printf_s A (LM_conn_error CONN c) @ LF
                     else LF @ ''Disconnect or Error received during connect: '' @
                       M_printf_s A (LM_conn_error CONN c) @ LF) s;
              s = connload_printf (print_u64 (track_num_connections s) @ '' total connections, '' @
                    print_u64 (track_num_transactions s) @ '' total transactions'' @ LF) s
          in Some (c, s\<lparr>cn_exit := Some 1\<rparr>)
      | LM_EVENT_TRANS_DONE \<Rightarrow>
          let s = s\<lparr>track_num_transactions := track_num_transactions s + 1\<rparr>;
              c = LM_trans_delete L tp c;
              (p, s) = read_priv priv s
          in if num_txns p = config_trans_per_conn (cn_config s)
             then Some (snd (LM_conn_disconnect CONN c), s)
             else if config_delay_per_trans_ms (cn_config s) \<noteq> 0
             then Some (c, s\<lparr>cn_timers := cn_timers s @ [i]\<rparr>)
             else connload_enqueue_tran L c s
      | _ \<Rightarrow> Some (c, s))"

section \<open>The status line\<close>

definition connload_status :: "mstd_app \<Rightarrow> connload_state \<Rightarrow> connload_state" where
  "connload_status A s =
     (let elapsed_ms = M_time_elapsed A (cn_now s) (track_starttime s);
          last_elapsed_ms = M_time_elapsed A (cn_now s) (track_lasttime s);
          trans_diff = track_num_transactions s - track_last_transactions s;
          elapsed_ms = (if elapsed_ms = 0 then 1 else elapsed_ms);
          last_elapsed_ms = (if last_elapsed_ms = 0 then 1 else last_elapsed_ms);
          s = connload_printf (vt100_cmd VT100_CMD_CLEAREOL) s;
          s = connload_printf (vt100_cmd VT100_CMD_SAVEPOS) s;
          s = connload_printf
                (blank_pad 5 (print_u64 (elapsed_ms div 1000)) @ ''.'' @
                 zero_pad 3 (print_u64 (elapsed_ms mod 1000)) @ ''s: '' @
                 print_u64 (track_num_connections s) @ '' conns, '' @
                 blank_pad 7 (print_u64 (track_num_transactions s)) @
                 '' trans [current '' @ M_printf_rate A trans_diff last_elapsed_ms @
                 ''/sec] [overall '' @ M_printf_rate A (track_num_transactions s) elapsed_ms @ ''/sec]'') s;
          s = connload_printf (vt100_cmd VT100_CMD_RESTOREPOS) s;
          s = s\<lparr>track_lasttime := cn_now s\<rparr>
      in s\<lparr>track_last_transactions := track_num_transactions s\<rparr>)"

section \<open>The event loop\<close>

partial_function (option) connload_deliver ::
  "mstd \<Rightarrow> mstd_app \<Rightarrow> nat \<Rightarrow> events \<Rightarrow> LM_conn \<Rightarrow> connload_state \<Rightarrow> (LM_conn \<times> connload_state) option" where
  "connload_deliver L A i es c s =
     (case M_list_take_first L es of
        (None, _) \<Rightarrow> Some (c, s)
      | (Some e, es) \<Rightarrow>
          (case connload_callback L A i (ev_type e) (ev_trans e)
                  (ext (Event_callback (ev_type e) (ev_trans e)) c) s of
             None \<Rightarrow> None
           | Some (c, s) \<Rightarrow>
               if cn_exit s \<noteq> None then Some (c, s)
               else
                 let (stop, c) = LM_conn_destroy_is_set c
                 in if stop then Some (c, s) else connload_deliver L A i es c s))"

definition connload_handler ::
  "mstd \<Rightarrow> mstd_app \<Rightarrow> nat \<Rightarrow> M_event_type \<Rightarrow> ptr option \<Rightarrow> LM_conn \<Rightarrow> connload_state
    \<Rightarrow> (LM_conn \<times> connload_state) option" where
  "connload_handler L A i ty event_trans c s = do {
     let c = (lock_conn c)\<lparr>in_use := True\<rparr>;
     (es, c) \<leftarrow> handle_event L ty event_trans c;
     (c, s) \<leftarrow> connload_deliver L A i es (unlock_conn c) s;
     if cn_exit s \<noteq> None then Some (c, s)
     else do {
       c \<leftarrow> finish_event L c;
       Some (c, s)
     }
   }"

fun connload_conn_event ::
  "mstd \<Rightarrow> mstd_app \<Rightarrow> nat \<Rightarrow> world_event \<Rightarrow> LM_conn \<Rightarrow> connload_state \<Rightarrow> (LM_conn \<times> connload_state) option" where
  "connload_conn_event L A i (Socket_event ty) c s = connload_handler L A i ty None c s"
| "connload_conn_event L A i Conn_timer_event c s = connload_handler L A i M_EVENT_TYPE_OTHER None c s"
| "connload_conn_event L A i Write_trigger_event c s = connload_handler L A i M_EVENT_TYPE_WRITE None c s"
| "connload_conn_event L A i (Trans_timer_event p) c s =
     connload_handler L A i M_EVENT_TYPE_OTHER (Some p) (touch_trans p c) s"

text \<open>What arrives: an event of a connection, the end of a delay, a tick of the status timer.\<close>

datatype connload_source = Of_conn nat world_event | Delay_over nat | Tick

definition put_conn :: "nat \<Rightarrow> LM_conn \<times> connload_state \<Rightarrow> connload_state" where
  "put_conn i = (\<lambda>(c, s). s\<lparr>cn_conns := (cn_conns s)[i := c]\<rparr>)"

text \<open>The timer is gone when its callback is called; what the callback gets is the connection.\<close>

definition connload_trans_delay_cb :: "mstd \<Rightarrow> nat \<Rightarrow> connload_state \<Rightarrow> connload_state option" where
  "connload_trans_delay_cb L i s =
     map_option (put_conn i)
       (connload_enqueue_tran L (cn_conns s ! i) (s\<lparr>cn_timers := remove1 i (cn_timers s)\<rparr>))"

fun connload_event :: "mstd \<Rightarrow> mstd_app \<Rightarrow> connload_source \<Rightarrow> connload_state \<Rightarrow> connload_state option" where
  "connload_event L A (Of_conn i e) s =
     map_option (put_conn i) (connload_conn_event L A i e (cn_conns s ! i) s)"
| "connload_event L A (Delay_over i) s = connload_trans_delay_cb L i s"
| "connload_event L A Tick s = Some (connload_status A s)"

text \<open>An event that can arrive: of a connection there is, of a timer that is running.\<close>

fun connload_may :: "connload_state \<Rightarrow> u64 \<times> connload_source \<Rightarrow> bool" where
  "connload_may s (t, Of_conn i e) \<longleftrightarrow> i < length (cn_conns s) \<and> world_event_ok (cn_conns s ! i) e"
| "connload_may s (t, Delay_over i) \<longleftrightarrow> i \<in> set (cn_timers s)"
| "connload_may s (t, Tick) \<longleftrightarrow> True"

text \<open>One turn of \<open>M_event_loop\<close>, which nothing but \<open>exit\<close> ends.\<close>

definition connload_turn :: "mstd \<Rightarrow> mstd_app \<Rightarrow> u64 \<times> connload_source \<Rightarrow> connload_state \<Rightarrow> connload_state option" where
  "connload_turn L A te s =
     (if cn_exit s \<noteq> None then Some s else connload_event L A (snd te) (s\<lparr>cn_now := fst te\<rparr>))"

section \<open>The program\<close>

definition connload_start :: "mstd \<Rightarrow> connload_config \<Rightarrow> lm_globals \<Rightarrow> u64 \<Rightarrow> string \<Rightarrow> connload_state" where
  "connload_start L cfg g now out =
     connload_create_connection L
       \<lparr>cn_config = cfg, cn_globals = g, cn_conns = [], cn_priv = (\<lambda>_. None), cn_timers = [],
        track_starttime = now, track_lasttime = now, track_num_connections = 0,
        track_num_transactions = 0, track_last_transactions = 0, track_conns = [],
        txn_enqueued = 0, cn_now = now, cn_exit = None, cn_out = out, cn_fault = False\<rparr>"

text \<open>
  The exit code and what has been printed, or the state the program is in when these events have
  been handled.
\<close>

definition connload_main ::
  "mstd \<Rightarrow> mstd_app \<Rightarrow> connload_config getopt_parse \<Rightarrow> string list \<Rightarrow> lm_globals \<Rightarrow> u64 \<Rightarrow>
   (u64 \<times> connload_source) list \<Rightarrow> ((nat \<times> string) + connload_state) option" where
  "connload_main L A M_getopt_parse argv g now es =
     (let out = ''Connection Load Script v1.0.0'' @ CRLF;
          (text, cfg) = connload_read_cmdline L A M_getopt_parse argv;
          out = out @ text
      in case cfg of
           None \<Rightarrow> Some (Inl (1, out))
         | Some cfg \<Rightarrow> do {
             s \<leftarrow> run_steps (connload_turn L A) es (connload_start L cfg g now (out @ connload_print_config cfg));
             Some (case cn_exit s of Some n \<Rightarrow> Inl (n, cn_out s) | None \<Rightarrow> Inr s)
           })"

declare connload_deliver.simps [code]

end
