(* ===== verification/ConnLoad_Spec.thy ===== *)
theory ConnLoad_Spec
  imports ConnLoad_Main Load_Request App_Std_Ref LM_Conn_Spec
begin

text \<open>
  The connection load test: the callback in every case, the bookkeeping of connections and their
  private data, and whole runs.
\<close>

section \<open>The bookkeeping\<close>

text \<open>
  A connection is in the list of connections exactly when its private data is allocated, and that
  data has its node. There are never more than asked for. A delay that runs is that of a
  connection there has been.
\<close>

definition book_ok :: "connload_state \<Rightarrow> bool" where
  "book_ok s \<longleftrightarrow> \<not> cn_fault s \<and> distinct (track_conns s) \<and>
     (\<forall>j. j \<in> set (track_conns s) \<longleftrightarrow> cn_priv s j \<noteq> None) \<and>
     (\<forall>j p. cn_priv s j = Some p \<longrightarrow> node p = j \<and> j < length (cn_conns s)) \<and>
     length (track_conns s) \<le> max 1 (unat (config_num_conns (cn_config s))) \<and>
     set (cn_timers s) \<subseteq> {..<length (cn_conns s)}"

lemma book_priv: "book_ok s \<Longrightarrow> cn_priv s j = Some p \<Longrightarrow> node p = j \<and> j < length (cn_conns s) \<and> j \<in> set (track_conns s)"
  by (auto simp: book_ok_def)

lemma book_fresh:
  assumes "book_ok s"
  shows "cn_priv s (length (cn_conns s)) = None" "length (cn_conns s) \<notin> set (track_conns s)"
proof -
  show "cn_priv s (length (cn_conns s)) = None"
    using book_priv [OF assms, of "length (cn_conns s)"] by (cases "cn_priv s (length (cn_conns s))") auto
  then show "length (cn_conns s) \<notin> set (track_conns s)" using assms by (simp add: book_ok_def)
qed

lemma book_fields [simp]:
  "book_ok (s\<lparr>track_num_connections := n\<rparr>) = book_ok s" "book_ok (s\<lparr>track_num_transactions := n\<rparr>) = book_ok s"
  "book_ok (s\<lparr>txn_enqueued := n\<rparr>) = book_ok s" "book_ok (s\<lparr>cn_exit := e\<rparr>) = book_ok s"
  "book_ok (s\<lparr>cn_now := n\<rparr>) = book_ok s" "book_ok (connload_printf t s) = book_ok s"
  "book_ok (s\<lparr>cn_out := t\<rparr>) = book_ok s"
  by (auto simp: book_ok_def connload_printf_def)

lemma book_count:
  assumes "book_ok s" "cn_priv s i = Some p" "node q = node p"
  shows "book_ok (s\<lparr>cn_priv := (cn_priv s)(i \<mapsto> q)\<rparr>)"
  using assms by (auto simp: book_ok_def)

text \<open>A connection at its place: open and at rest, with its private data; or freed, without.\<close>

definition slot_ok :: "mstd \<Rightarrow> connload_state \<Rightarrow> nat \<Rightarrow> LM_conn \<Rightarrow> bool" where
  "slot_ok L s j c \<longleftrightarrow>
     (if cn_priv s j = None then freed_at [] c else idle_conn L j 0 c)"

definition others_ok :: "mstd \<Rightarrow> nat \<Rightarrow> connload_state \<Rightarrow> bool" where
  "others_ok L i s \<longleftrightarrow> (\<forall>j < length (cn_conns s). j \<noteq> i \<longrightarrow> slot_ok L s j (cn_conns s ! j))"

lemma slot_calm: "slot_ok L s j c \<Longrightarrow> calm c"
  by (auto simp: slot_ok_def intro: freed_calm idle_calm split: if_splits)

lemma others_same:
  assumes "others_ok L i s" "cn_conns s' = cn_conns s" "\<And>j. j \<noteq> i \<Longrightarrow> cn_priv s' j = None \<longleftrightarrow> cn_priv s j = None"
  shows "others_ok L i s'"
  using assms by (simp add: others_ok_def slot_ok_def)

section \<open>The operations\<close>

context app_api
begin

lemma inv_touch: "inv_at L hs c \<Longrightarrow> touch c = c"
  using inv_at_not_freed by (auto simp: touch_def)

lemma get_userdata: "inv_at L hs c \<Longrightarrow> LM_conn_get_userdata CONN c = (conn_user_data c, c)"
  by (simp add: LM_conn_get_userdata_def inv_touch)

text \<open>One more transaction on a connection: it is counted, numbered and handed over.\<close>

lemma enqueue_total:
  assumes "inv_at L [] c" "next_ptr c < 0x7FFFFFFF" "conn_user_data c = Some i" "cn_priv s i = Some p"
  obtains c' where "connload_enqueue_tran L c s = Some (c',
      s\<lparr>cn_priv := (cn_priv s)(i \<mapsto> p\<lparr>num_txns := num_txns p + 1\<rparr>), txn_enqueued := txn_enqueued s + 1\<rparr>)"
    and "inv_at L [] c'" and "grows c c'" and "client_part c' = client_part c"
    and "next_ptr c' = Suc (next_ptr c)" and "in_use c \<longrightarrow> (\<forall>ty tp. spares ty tp c c')"
proof -
  let ?s = "s\<lparr>cn_priv := (cn_priv s)(i \<mapsto> p\<lparr>num_txns := num_txns p + 1\<rparr>), txn_enqueued := txn_enqueued s + 1\<rparr>"
  obtain c1 ok c' where r: "LM_trans_new L CONN c = Some (Some (next_ptr c), c1)"
    "LM_trans_send L (Some (next_ptr c)) (set_each L (Some (next_ptr c))
       (connload_params (cn_config s) (txn_enqueued s + 1)) c1) = Some (ok, c')"
    "inv_at L [] c1" "inv_at L [] c'" "grows c c'" "client_part c1 = client_part c"
    "client_part c' = client_part c" "next_ptr c' = Suc (next_ptr c)"
    "in_use c \<longrightarrow> (\<forall>ty tp. spares ty tp c c')"
    by (rule request_total [OF assms(1,2), of "connload_params (cn_config s) (txn_enqueued s + 1)"]) blast
  have "conn_user_data c1 = Some i" using r(6) assms(3) by (simp add: client_part_def)
  then have "connload_enqueue_tran L c s = Some (c', ?s)"
    using r(1-3) assms(4) by (simp add: connload_enqueue_tran_def get_userdata write_priv_def)
  then show ?thesis using r by (intro that)
qed

text \<open>A new connection is the last of the list; or the program exits.\<close>

lemma create_ok:
  assumes "book_ok s" "length (track_conns s) < max 1 (unat (config_num_conns (cn_config s)))"
    and "cn_exit s = None" "s' = connload_create_connection L s"
  shows "(cn_exit s' = Some 1 \<and> cn_conns s' = cn_conns s \<and> cn_priv s' = cn_priv s \<and> book_ok s') \<or>
    (\<exists>c. cn_exit s' = None \<and> cn_conns s' = cn_conns s @ [c] \<and> slot_ok L s' (length (cn_conns s)) c \<and>
      cn_priv s' = (cn_priv s)(length (cn_conns s) \<mapsto> \<lparr>node = length (cn_conns s), num_txns = 0\<rparr>) \<and> book_ok s')"
proof -
  let ?i = "length (cn_conns s)"
  obtain conn g where init: "LM_conn_init L False False (Some (config_hostname (cn_config s)))
      (config_port (cn_config s)) (cn_globals s) = (conn, g)" by fastforce
  show ?thesis
  proof (cases conn)
    case None
    then show ?thesis
      using assms init by (simp add: connload_create_connection_def connload_printf_def book_ok_def)
  next
    case (Some c)
    let ?c = "snd (LM_conn_connect L CONN (snd (LM_conn_set_tls_clientctx CONN (Some 0)
        (snd (LM_conn_set_userdata CONN (Some ?i) c)))))"
    have c: "idle_conn L ?i 0 ?c" using idle_opened [OF init [unfolded Some], of 0 ?i False] by simp
    have s': "s' = s\<lparr>cn_globals := g, track_conns := track_conns s @ [?i],
        cn_priv := (cn_priv s)(?i \<mapsto> \<lparr>node = ?i, num_txns = 0\<rparr>), cn_conns := cn_conns s @ [?c]\<rparr>"
      using init Some unfolding assms(4) by (simp add: connload_create_connection_def Let_def)
    have "book_ok s'"
      using assms(1,2) book_fresh [OF assms(1)] by (auto simp: s' book_ok_def less_Suc_eq)
    with c assms(3) show ?thesis by (simp add: s' slot_ok_def)
  qed
qed

text \<open>Closing: out of the list, the private data freed, the connection freed when the event is over.\<close>

lemma destroy_ok:
  assumes "held L c" "conn_user_data c = Some i" "book_ok s" "cn_priv s i = Some p"
  shows "connload_destroy_connection L A c s =
      (LM_conn_destroy L CONN c, s\<lparr>track_conns := remove1 i (track_conns s), cn_priv := (cn_priv s)(i := None)\<rparr>)"
    and "book_ok (s\<lparr>track_conns := remove1 i (track_conns s), cn_priv := (cn_priv s)(i := None)\<rparr>)"
    and "length (remove1 i (track_conns s)) < max 1 (unat (config_num_conns (cn_config s)))"
proof -
  have p: "node p = i" "i \<in> set (track_conns s)" using book_priv [OF assms(3,4)] by simp_all
  show "connload_destroy_connection L A c s =
      (LM_conn_destroy L CONN c, s\<lparr>track_conns := remove1 i (track_conns s), cn_priv := (cn_priv s)(i := None)\<rparr>)"
    using assms p(1) held_touch [OF assms(1)]
    by (simp add: connload_destroy_connection_def LM_conn_get_userdata_def read_priv_def)
  show "book_ok (s\<lparr>track_conns := remove1 i (track_conns s), cn_priv := (cn_priv s)(i := None)\<rparr>)"
    using assms(3) p(2) by (auto simp: book_ok_def length_remove1)
  have "0 < length (track_conns s)" using p(2) by (auto intro: length_pos_if_in_set)
  then show "length (remove1 i (track_conns s)) < max 1 (unat (config_num_conns (cn_config s)))"
    using assms(3) p(2) by (auto simp: book_ok_def length_remove1)
qed

lemma create_step:
  assumes "book_ok s" "length (track_conns s) < max 1 (unat (config_num_conns (cn_config s)))"
    and "cn_exit s = None" "others_ok L i s" "i < length (cn_conns s)" "s' = connload_create_connection L s"
  shows "book_ok s' \<and> others_ok L i s' \<and> i < length (cn_conns s') \<and> cn_priv s' i = cn_priv s i"
  using create_ok [OF assms(1-3,6)]
proof (elim disjE exE)
  fix c
  assume "cn_exit s' = None \<and> cn_conns s' = cn_conns s @ [c] \<and> slot_ok L s' (length (cn_conns s)) c \<and>
      cn_priv s' = (cn_priv s)(length (cn_conns s) \<mapsto> \<lparr>node = length (cn_conns s), num_txns = 0\<rparr>) \<and> book_ok s'"
  with assms(4,5) show ?thesis
    by (auto simp: others_ok_def slot_ok_def nth_append less_Suc_eq)
qed (use assms in \<open>simp add: others_ok_def slot_ok_def\<close>)

end

section \<open>One event of one connection\<close>

text \<open>While \<open>n\<close> events are still to be told to the callback; after the connection was destroyed; after \<open>exit\<close>.\<close>

definition cn_here :: "mstd \<Rightarrow> nat \<Rightarrow> connload_state \<Rightarrow> bool" where
  "cn_here L i s \<longleftrightarrow> book_ok s \<and> others_ok L i s \<and> i < length (cn_conns s)"

definition cn_good :: "mstd \<Rightarrow> nat \<Rightarrow> nat \<Rightarrow> LM_conn \<times> connload_state \<Rightarrow> bool" where
  "cn_good L i n x \<longleftrightarrow> cn_here L i (snd x) \<and> cn_exit (snd x) = None \<and> cn_priv (snd x) i \<noteq> None \<and>
     conn_user_data (fst x) = Some i \<and> \<not> destroy (fst x) \<and> next_ptr (fst x) + n < 0x7FFFFFFF"

definition cn_closed :: "mstd \<Rightarrow> nat \<Rightarrow> LM_conn \<times> connload_state \<Rightarrow> bool" where
  "cn_closed L i x \<longleftrightarrow> cn_here L i (snd x) \<and> cn_priv (snd x) i = None"

definition cn_halted :: "mstd \<Rightarrow> nat \<Rightarrow> LM_conn \<times> connload_state \<Rightarrow> bool" where
  "cn_halted L i x \<longleftrightarrow> cn_here L i (snd x)"

lemma cn_here_same:
  assumes "cn_here L i s" "book_ok s'" "cn_conns s' = cn_conns s"
    and "\<And>j. j \<noteq> i \<Longrightarrow> cn_priv s' j = None \<longleftrightarrow> cn_priv s j = None"
  shows "cn_here L i s'"
  using assms others_same [of L i s s'] by (simp add: cn_here_def)

context app_api
begin

text \<open>A transaction is made in the callback; what is told next may find one transaction more.\<close>

lemma enqueue_keeps:
  assumes "held L c" "cn_good L i (Suc n) (c, s)"
  obtains c' s' where "connload_enqueue_tran L c s = Some (c', s')" and "held L c'" and "grows c c'"
    and "cn_good L i n (c', s')" and "\<And>ty tp. spares ty tp c c'"
    and "track_conns s' = track_conns s" and "cn_config s' = cn_config s"
proof -
  have c: "inv_at L [] c" "in_use c" using assms(1) by (simp_all add: held_def)
  obtain p where p: "cn_priv s i = Some p" using assms(2) by (auto simp: cn_good_def)
  have room: "next_ptr c < 0x7FFFFFFF" "conn_user_data c = Some i" using assms(2) by (simp_all add: cn_good_def)
  let ?q = "p\<lparr>num_txns := num_txns p + 1\<rparr>"
  let ?s = "s\<lparr>cn_priv := (cn_priv s)(i \<mapsto> ?q), txn_enqueued := txn_enqueued s + 1\<rparr>"
  obtain c' where r: "connload_enqueue_tran L c s = Some (c', ?s)" "inv_at L [] c'" "grows c c'"
    "client_part c' = client_part c" "next_ptr c' = Suc (next_ptr c)"
    "in_use c \<longrightarrow> (\<forall>ty tp. spares ty tp c c')"
    by (rule enqueue_total [OF c(1) room p])
  have here: "cn_here L i s" using assms(2) by (simp add: cn_good_def)
  then have "book_ok (s\<lparr>cn_priv := (cn_priv s)(i \<mapsto> ?q)\<rparr>)"
    by (intro book_count [OF _ p]) (simp_all add: cn_here_def)
  then have "cn_here L i ?s" using p by (intro cn_here_same [OF here]) simp_all
  then have "cn_good L i n (c', ?s)" using assms(2) r(4,5) by (simp add: cn_good_def client_part_def)
  with r c(2) show ?thesis by (intro that [OF r(1)]) (simp_all add: held_def grows_def)
qed

lemma callback_keeps_book:
  assumes "held L c" "cn_good L i (Suc n) (c, s)" "\<And>p. tp = Some p \<Longrightarrow> live c p"
    and "\<And>p. tp = Some p \<Longrightarrow> over_event ty \<Longrightarrow> usable c (Some p)"
  shows "\<exists>c' s'. connload_callback L A i ty tp c s = Some (c', s') \<and> held L c' \<and> grows c c' \<and>
    (if cn_exit s' \<noteq> None then cn_halted L i (c', s')
     else if destroy c' then cn_closed L i (c', s') else cn_good L i n (c', s') \<and> spares ty tp c c')"
proof -
  have c: "inv_at L [] c" "in_use c" "\<not> destroy c" "conn_user_data c = Some i"
    using assms(1,2) by (simp_all add: held_def cn_good_def)
  have here: "cn_here L i s" "cn_exit s = None" using assms(2) by (simp_all add: cn_good_def)
  then have s: "book_ok s" "others_ok L i s" "i < length (cn_conns s)" by (simp_all add: cn_here_def)
  obtain p where p: "cn_priv s i = Some p" using assms(2) by (auto simp: cn_good_def)
  note enter = get_userdata [OF c(1)]
  have rest: "cn_good L i n (c, s)" using assms(2) by (simp add: cn_good_def)
  show ?thesis
  proof (cases ty)
    case LM_EVENT_CONN_CONNECTED
    let ?s = "s\<lparr>track_num_connections := track_num_connections s + 1\<rparr>"
    have "cn_good L i (Suc n) (c, ?s)"
      using assms(2) cn_here_same [of L i s ?s] by (simp add: cn_good_def cn_here_def)
    from enqueue_keeps [OF assms(1) this] obtain c' s1 where
      r: "connload_enqueue_tran L c ?s = Some (c', s1)" "held L c'" "grows c c'" "cn_good L i n (c', s1)"
      "\<And>ty tp. spares ty tp c c'" by metis
    let ?more = "M_llist_len A (track_conns s1) < unat (config_num_conns (cn_config s1))"
    define s2 where "s2 = (if ?more then connload_create_connection L s1 else s1)"
    have "cn_here L i s2 \<and> cn_priv s2 i = cn_priv s1 i"
    proof (cases ?more)
      case True
      then show ?thesis
        using create_step [of s1 i s2] r(4) by (simp add: s2_def cn_good_def cn_here_def)
    next
      case False
      then show ?thesis using r(4) by (simp add: s2_def cn_good_def)
    qed
    moreover have "connload_callback L A i ty tp c s = Some (c', s2)"
      using r(1) by (simp add: connload_callback_def LM_EVENT_CONN_CONNECTED enter s2_def)
    ultimately show ?thesis
      using r(2-5) by (intro exI [of _ c'] exI [of _ s2]) (auto simp: cn_good_def cn_halted_def)
  next
    case LM_EVENT_CONN_DISCONNECT
    let ?s = "s\<lparr>track_num_connections := track_num_connections s - 1\<rparr>"
    let ?t = "?s\<lparr>track_conns := remove1 i (track_conns s), cn_priv := (cn_priv s)(i := None)\<rparr>"
    have "book_ok ?s" "cn_priv ?s i = Some p" using s(1) p by simp_all
    note gone = destroy_ok [OF assms(1) c(4) this]
    have others: "others_ok L i ?t" by (rule others_same [OF s(2)]) simp_all
    define u where "u = connload_create_connection L ?t"
    have "book_ok u \<and> others_ok L i u \<and> i < length (cn_conns u) \<and> cn_priv u i = cn_priv ?t i"
      by (rule create_step [OF _ _ _ others _ u_def]) (use gone s here in simp_all)
    moreover have "connload_callback L A i ty tp c s = Some (LM_conn_destroy L CONN c, u)"
      using gone(1) by (simp add: connload_callback_def LM_EVENT_CONN_DISCONNECT enter u_def)
    ultimately show ?thesis
      using destroy_held [OF mstd_api_axioms assms(1)]
      by (intro exI [of _ "LM_conn_destroy L CONN c"] exI [of _ u]) (simp add: cn_closed_def cn_halted_def cn_here_def)
  next
    case LM_EVENT_CONN_ERROR
    have read: "read_priv (conn_user_data c) s = (p, s)" using p c(4) by (simp add: read_priv_def)
    have "\<exists>t1 t2. connload_callback L A i ty tp c s = Some (c, (connload_printf t2 (connload_printf t1 s))\<lparr>cn_exit := Some 1\<rparr>)"
      unfolding connload_callback_def LM_EVENT_CONN_ERROR enter read Let_def prod.case LM_event_type.case
      by (intro exI, rule refl)
    then obtain t1 t2 where
      cb: "connload_callback L A i ty tp c s = Some (c, (connload_printf t2 (connload_printf t1 s))\<lparr>cn_exit := Some 1\<rparr>)"
      by blast
    have "cn_here L i ((connload_printf t2 (connload_printf t1 s))\<lparr>cn_exit := Some 1\<rparr>)"
      by (rule cn_here_same [OF here(1)]) (use s(1) in \<open>simp_all add: connload_printf_def\<close>)
    with cb assms(1) show ?thesis by (simp add: cn_halted_def)
  next
    case LM_EVENT_TRANS_DONE
    let ?s = "s\<lparr>track_num_transactions := track_num_transactions s + 1\<rparr>"
    let ?c = "LM_trans_delete L tp c"
    have over: "over_event ty" by (simp add: LM_EVENT_TRANS_DONE over_event_def)
    then have "usable c tp" using assms(4) by (cases tp) (simp_all add: usable_def)
    note del = deleted_in_callback [OF assms(1) this]
    have part: "client_part ?c = client_part c" by simp
    have good: "cn_good L i (Suc n) (?c, ?s)"
      using assms(2) part del(3) cn_here_same [of L i s ?s]
      by (simp add: cn_good_def cn_here_def client_part_def setting_def)
    have read: "read_priv (conn_user_data c) ?s = (p, ?s)" using p c(4) by (simp add: read_priv_def)
    have cb: "connload_callback L A i ty tp c s =
        (if num_txns p = config_trans_per_conn (cn_config s) then Some (snd (LM_conn_disconnect CONN ?c), ?s)
         else if config_delay_per_trans_ms (cn_config s) \<noteq> 0 then Some (?c, ?s\<lparr>cn_timers := cn_timers s @ [i]\<rparr>)
         else connload_enqueue_tran L ?c ?s)"
      unfolding connload_callback_def LM_EVENT_TRANS_DONE enter Let_def prod.case LM_event_type.case read by simp
    have result: ?thesis
      if "connload_callback L A i ty tp c s = Some (c', s')" "held L c'" "grows ?c c'"
        "cn_good L i n (c', s')" "spares ty tp ?c c'" for c' s'
      using that spares_trans [OF del(5) [OF over] that(5)] grows_trans [OF del(2) that(3)]
      by (intro exI [of _ c'] exI [of _ s']) (simp add: cn_good_def)
    consider "num_txns p = config_trans_per_conn (cn_config s)"
      | "num_txns p \<noteq> config_trans_per_conn (cn_config s)" "config_delay_per_trans_ms (cn_config s) \<noteq> 0"
      | "num_txns p \<noteq> config_trans_per_conn (cn_config s)" "config_delay_per_trans_ms (cn_config s) = 0" by blast
    then show ?thesis
    proof cases
      case 1
      let ?d = "snd (LM_conn_disconnect CONN ?c)"
      note disc = disconnect_held [OF del(1)]
      have "client_part ?d = client_part ?c" "setting ?d = setting ?c" by simp_all
      then have "cn_good L i n (?d, ?s)" using good by (simp add: cn_good_def client_part_def setting_def)
      moreover have "spares ty tp ?c ?d" using disc(2) del(1) by (intro keeps_usable) (simp_all add: held_def)
      ultimately show ?thesis using disc(1,2) cb 1 by (intro result) simp_all
    next
      case 2
      let ?t = "?s\<lparr>cn_timers := cn_timers s @ [i]\<rparr>"
      have "book_ok ?t" using s(1,3) by (simp add: book_ok_def)
      then have "cn_good L i n (?c, ?t)"
        using good cn_here_same [of L i ?s ?t] by (simp add: cn_good_def)
      then show ?thesis using del(1) cb 2 by (intro result [OF _ _ _ _ spares_refl]) simp_all
    next
      case 3
      obtain c' s' where "connload_enqueue_tran L ?c ?s = Some (c', s')" "held L c'" "grows ?c c'"
        "cn_good L i n (c', s')" "spares ty tp ?c c'"
        using enqueue_keeps [OF del(1) good] by metis
      then show ?thesis using cb 3 by (intro result) simp_all
    qed
  next
    case LM_EVENT_TRANS_ERROR
    then show ?thesis using rest assms(1) here(2) c(3) by (simp add: connload_callback_def enter)
  next
    case LM_EVENT_TRANS_NOCONNECT
    then show ?thesis using rest assms(1) here(2) c(3) by (simp add: connload_callback_def enter)
  next
    case LM_EVENT_TRANS_TIMEOUT
    then show ?thesis using rest assms(1) here(2) c(3) by (simp add: connload_callback_def enter)
  qed
qed

sublocale cnl: program L fst "\<lambda>c x. (c, snd x)" "\<lambda>x. cn_exit (snd x) \<noteq> None"
  "cn_good L i" "cn_closed L i" "cn_halted L i"
  "\<lambda>ty tp x. connload_callback L A i ty tp (fst x) (snd x)"
  "\<lambda>es x. connload_deliver L A i es (fst x) (snd x)" for i
proof unfold_locales
  show "connload_deliver L A i [] (fst x) (snd x) = Some x" for x
    by (subst connload_deliver.simps) simp
  show "connload_deliver L A i (Entry ty tp # es) (fst x) (snd x) =
      (case connload_callback L A i ty tp (fst (ext (Event_callback ty tp) (fst x), snd x))
          (snd (ext (Event_callback ty tp) (fst x), snd x)) of
         None \<Rightarrow> None
       | Some x \<Rightarrow>
           if cn_exit (snd x) \<noteq> None then Some x
           else let (stop, c) = LM_conn_destroy_is_set (fst x)
                in if stop then Some (c, snd x) else connload_deliver L A i es (fst (c, snd x)) (snd (c, snd x)))"
    for ty tp es x
    by (subst connload_deliver.simps) (simp add: Let_def split_beta split: option.split)
  show "\<exists>x'. connload_callback L A i ty tp (fst x) (snd x) = Some x' \<and> held L (fst x') \<and>
      grows (fst x) (fst x') \<and> (if cn_exit (snd x') \<noteq> None then cn_halted L i x'
        else if destroy (fst x') then cn_closed L i x' else cn_good L i n x' \<and> spares ty tp (fst x) (fst x'))"
    if "held L (fst x)" "cn_good L i (Suc n) x" "\<And>p. tp = Some p \<Longrightarrow> live (fst x) p"
      "\<And>p. tp = Some p \<Longrightarrow> over_event ty \<Longrightarrow> usable (fst x) (Some p)" for x n tp ty
  proof -
    have "cn_good L i (Suc n) (fst x, snd x)" using that(2) by simp
    from callback_keeps_book [where ty = ty and tp = tp, OF that(1) this that(3,4)]
    obtain c' s' where "connload_callback L A i ty tp (fst x) (snd x) = Some (c', s')" "held L c'" "grows (fst x) c'"
      "if cn_exit s' \<noteq> None then cn_halted L i (c', s')
       else if destroy c' then cn_closed L i (c', s') else cn_good L i n (c', s') \<and> spares ty tp (fst x) c'"
      by blast
    then show ?thesis by (intro exI [of _ "(c', s')"]) simp
  qed
qed (auto simp: cn_good_def cn_closed_def setting_def)

end

section \<open>Every run\<close>

text \<open>Between events; and what is left when the program has exited in the middle of one.\<close>

definition all_ok :: "mstd \<Rightarrow> connload_state \<Rightarrow> bool" where
  "all_ok L s \<longleftrightarrow> book_ok s \<and> (\<forall>j < length (cn_conns s). slot_ok L s j (cn_conns s ! j))"

definition run_ok :: "mstd \<Rightarrow> connload_state \<Rightarrow> bool" where
  "run_ok L s \<longleftrightarrow>
     (if cn_exit s \<noteq> None then \<not> cn_fault s \<and> (\<forall>c \<in> set (cn_conns s). calm c) else all_ok L s)"

lemma all_here: "all_ok L s \<Longrightarrow> i < length (cn_conns s) \<Longrightarrow> cn_here L i s"
  by (simp add: all_ok_def cn_here_def others_ok_def)

lemma here_all:
  assumes "cn_here L i s" "slot_ok L s i c"
  shows "all_ok L (put_conn i (c, s))"
  using assms
  by (auto simp: all_ok_def cn_here_def others_ok_def put_conn_def book_ok_def slot_ok_def nth_list_update)

lemma here_halted: "cn_here L i s \<Longrightarrow> calm c \<Longrightarrow> \<forall>d \<in> set (cn_conns (put_conn i (c, s))). calm d"
  using slot_calm by (force simp: cn_here_def others_ok_def put_conn_def in_set_conv_nth nth_list_update)

lemma all_calm: "all_ok L s \<Longrightarrow> \<forall>c \<in> set (cn_conns s). calm c"
  using slot_calm by (force simp: all_ok_def in_set_conv_nth)

lemma all_status [simp]: "all_ok L (connload_status A s) = all_ok L s"
  by (simp add: all_ok_def book_ok_def slot_ok_def connload_status_def connload_printf_def Let_def)

fun event_of :: "world_event \<Rightarrow> M_event_type \<times> ptr option" where
  "event_of (Socket_event ty) = (ty, None)"
| "event_of Conn_timer_event = (M_EVENT_TYPE_OTHER, None)"
| "event_of Write_trigger_event = (M_EVENT_TYPE_WRITE, None)"
| "event_of (Trans_timer_event p) = (M_EVENT_TYPE_OTHER, Some p)"

lemma event_of_ok:
  assumes "world_event_ok c e"
  shows "event_ok c (fst (event_of e)) (snd (event_of e))"
    and "connload_conn_event L A i e c s = connload_handler L A i (fst (event_of e)) (snd (event_of e)) c s"
  using assms event_ok_touch [of c] by (cases e; simp)+

text \<open>
  What the runs are about: a connection makes fewer than \<open>2 ^ 31\<close> transactions, so that what one
  event has to tell finds numbers for as many more; and no delay ends after its connection is
  gone.
\<close>

definition event_room :: "mstd \<Rightarrow> LM_conn \<Rightarrow> world_event \<Rightarrow> bool" where
  "event_room L c e \<longleftrightarrow>
     (case handle_event L (fst (event_of e)) (snd (event_of e)) ((lock_conn c)\<lparr>in_use := True\<rparr>) of
        None \<Rightarrow> True
      | Some (es, d) \<Rightarrow> next_ptr d + length es < 0x7FFFFFFF)"

fun connload_fair :: "mstd \<Rightarrow> connload_state \<Rightarrow> u64 \<times> connload_source \<Rightarrow> bool" where
  "connload_fair L s (t, Of_conn i e) \<longleftrightarrow> event_room L (cn_conns s ! i) e"
| "connload_fair L s (t, Delay_over i) \<longleftrightarrow>
     \<not> conn_freed (cn_conns s ! i) \<and> next_ptr (cn_conns s ! i) + 1 < 0x7FFFFFFF"
| "connload_fair L s (t, Tick) \<longleftrightarrow> True"

definition connload_legal :: "mstd \<Rightarrow> connload_state \<Rightarrow> u64 \<times> connload_source \<Rightarrow> bool" where
  "connload_legal L s te \<longleftrightarrow> cn_exit s \<noteq> None \<or> connload_may s te \<and> connload_fair L s te"

context app_api
begin

lemma conn_event_total:
  assumes "all_ok L s" "cn_exit s = None" "i < length (cn_conns s)"
    and "world_event_ok (cn_conns s ! i) e" "event_room L (cn_conns s ! i) e"
  shows "\<exists>s'. connload_event L A (Of_conn i e) s = Some s' \<and> run_ok L s'"
proof -
  let ?c = "cn_conns s ! i" and ?ty = "fst (event_of e)" and ?et = "snd (event_of e)"
  have ev: "event_ok ?c ?ty ?et" by (rule event_of_ok(1) [OF assms(4)])
  have slot: "slot_ok L s i ?c" using assms(1,3) by (simp add: all_ok_def)
  moreover have "\<not> conn_freed ?c" using ev by (simp add: event_ok_def)
  ultimately have priv: "cn_priv s i \<noteq> None" and c: "idle_conn L i 0 ?c"
    by (auto simp: slot_ok_def freed_at_def split: if_splits)
  have here: "cn_here L i s" by (rule all_here [OF assms(1,3)])
  have cl: "client_inv L (fst (?c, s))" "\<not> in_use (fst (?c, s))" "event_ok (fst (?c, s)) ?ty ?et"
    "\<not> cn_exit (snd (?c, s)) \<noteq> None"
    using c ev assms(2) by (simp_all add: idle_conn_def client_inv_def)
  have "\<exists>c' s'. connload_handler L A i ?ty ?et ?c s = Some (c', s') \<and> run_ok L (put_conn i (c', s'))"
  proof (rule cnl.handler_total [OF cl, where i = i])
    fix es d
    assume "handle_event L ?ty ?et ((lock_conn (fst (?c, s)))\<lparr>in_use := True\<rparr>) = Some (es, d)"
    then have d: "handle_event L ?ty ?et ((lock_conn ?c)\<lparr>in_use := True\<rparr>) = Some (es, d)" by simp
    have "client_part (unlock_conn d) = client_part ?c" using client.any_event_kept [OF d] by simp
    moreover have "next_ptr (unlock_conn d) + length es < 0x7FFFFFFF"
      using assms(5) d by (simp add: event_room_def lock_conn_frame)
    ultimately show "cn_good L i (length es) (unlock_conn d, snd (?c, s))"
      using here assms(2) priv c by (simp add: cn_good_def client_part_def idle_conn_def)
  next
    fix es d x
    assume run: "handle_event L ?ty ?et ((lock_conn (fst (?c, s)))\<lparr>in_use := True\<rparr>) = Some (es, d)"
      "connload_deliver L A i es (fst (unlock_conn d, snd (?c, s))) (snd (unlock_conn d, snd (?c, s))) = Some x"
      and held: "held L (fst x)" and halt: "cn_exit (snd x) \<noteq> None \<Longrightarrow> cn_halted L i x"
      and fin: "\<not> cn_exit (snd x) \<noteq> None \<Longrightarrow> \<exists>c'. finish_event L (fst x) = Some c' \<and> client_inv L c' \<and> \<not> in_use c' \<and>
        conn_freed c' = destroy (fst x) \<and> forward (fst (?c, s)) c' \<and>
        (if destroy (fst x) then cn_closed L i (c', snd x) else cn_good L i 0 (c', snd x))"
    obtain c1 s1 where x: "x = (c1, s1)" by fastforce
    have half: "connload_handler L A i ?ty ?et ?c s =
        (if cn_exit s1 \<noteq> None then Some (c1, s1) else map_option (\<lambda>c. (c, s1)) (finish_event L c1))"
      using run x by (simp add: connload_handler_def map_conv_bind_option comp_def)
    show ?thesis
    proof (cases "cn_exit s1 = None")
      case False
      have "cn_here L i s1" using halt False by (simp add: x cn_halted_def)
      moreover have "calm c1" using held by (intro inv_calm [of L]) (simp add: x held_def)
      ultimately have "run_ok L (put_conn i (c1, s1))"
        using False here_halted [of L i s1 c1] by (simp add: run_ok_def put_conn_def cn_here_def book_ok_def)
      with half False show ?thesis by simp
    next
      case True
      obtain c' where c': "finish_event L c1 = Some c'" "client_inv L c'" "\<not> in_use c'" "conn_freed c' = destroy c1"
        "if destroy c1 then cn_closed L i (c', s1) else cn_good L i 0 (c', s1)"
        using fin True x by auto
      have "cn_here L i s1 \<and> slot_ok L s1 i c'"
      proof (cases "destroy c1")
        case True
        then have "freed_at [] c'" using c'(2,4) inv_at_not_freed by (auto simp: client_inv_def)
        with True c'(5) show ?thesis by (simp add: cn_closed_def slot_ok_def)
      next
        case False
        then have "inv_at L [] c'" using c'(2,4) by (auto simp: client_inv_def freed_at_def)
        with False c'(3-5) show ?thesis by (auto simp: cn_good_def slot_ok_def idle_conn_def client_part_def)
      qed
      then have "all_ok L (put_conn i (c', s1))" by (intro here_all) simp_all
      with half True c'(1) show ?thesis by (simp add: run_ok_def put_conn_def)
    qed
  qed
  then show ?thesis by (auto simp: event_of_ok(2) [OF assms(4)])
qed

lemma delay_over_total:
  assumes "all_ok L s" "cn_exit s = None" "i \<in> set (cn_timers s)"
    and "\<not> conn_freed (cn_conns s ! i)" "next_ptr (cn_conns s ! i) + 1 < 0x7FFFFFFF"
  shows "\<exists>s'. connload_event L A (Delay_over i) s = Some s' \<and> run_ok L s'"
proof -
  let ?c = "cn_conns s ! i" and ?s = "s\<lparr>cn_timers := remove1 i (cn_timers s)\<rparr>"
  have i: "i < length (cn_conns s)" using assms(1,3) by (auto simp: all_ok_def book_ok_def)
  then have "slot_ok L s i ?c" using assms(1) by (simp add: all_ok_def)
  with assms(4) obtain p where p: "cn_priv s i = Some p" and c: "idle_conn L i 0 ?c"
    by (auto simp: slot_ok_def freed_at_def split: if_splits)
  have pre: "inv_at L [] ?c" "next_ptr ?c < 0x7FFFFFFF" "conn_user_data ?c = Some i" "cn_priv ?s i = Some p"
    using c p assms(5) by (simp_all add: idle_conn_def client_part_def)
  let ?q = "p\<lparr>num_txns := num_txns p + 1\<rparr>"
  let ?t = "?s\<lparr>cn_priv := (cn_priv ?s)(i \<mapsto> ?q), txn_enqueued := txn_enqueued ?s + 1\<rparr>"
  obtain c' where r: "connload_enqueue_tran L ?c ?s = Some (c', ?t)" "inv_at L [] c'" "grows ?c c'"
    "client_part c' = client_part ?c" "next_ptr c' = Suc (next_ptr ?c)"
    "in_use ?c \<longrightarrow> (\<forall>ty tp. spares ty tp ?c c')"
    by (rule enqueue_total [OF pre])
  have book: "book_ok ?s" using assms(1) notin_set_remove1 by (fastforce simp: all_ok_def book_ok_def)
  have "book_ok (?s\<lparr>cn_priv := (cn_priv ?s)(i \<mapsto> ?q)\<rparr>)" by (rule book_count [OF book]) (simp_all add: p)
  then have "cn_here L i ?t" using p by (intro cn_here_same [OF all_here [OF assms(1) i]]) simp_all
  moreover have "slot_ok L ?t i c'" using r c assms(5) by (simp add: slot_ok_def idle_conn_def grows_def)
  ultimately have "all_ok L (put_conn i (c', ?t))" by (rule here_all)
  with r(1) assms(2) show ?thesis by (simp add: connload_trans_delay_cb_def run_ok_def put_conn_def)
qed

sublocale cn_run: guarded_steps "connload_turn L A" "connload_legal L" "run_ok L" "\<lambda>_ _. True"
proof unfold_locales
  fix s te
  assume inv: "run_ok L s" and legal: "connload_legal L s te"
  show "\<exists>s'. connload_turn L A te s = Some s' \<and> run_ok L s' \<and> True"
  proof (cases "cn_exit s = None")
    case False
    with inv show ?thesis by (simp add: connload_turn_def)
  next
    case True
    obtain t e where te: "te = (t, e)" by fastforce
    have ok: "connload_may s (t, e)" "connload_fair L s (t, e)"
      using legal True by (simp_all add: connload_legal_def te)
    let ?s = "s\<lparr>cn_now := t\<rparr>"
    have s: "all_ok L ?s" using inv True by (simp add: run_ok_def all_ok_def slot_ok_def)
    have "\<exists>s'. connload_event L A e ?s = Some s' \<and> run_ok L s'"
    proof (cases e)
      case (Of_conn i w)
      then show ?thesis using conn_event_total [OF s, of i w] True ok by simp
    next
      case (Delay_over i)
      then show ?thesis using delay_over_total [OF s, of i] True ok by simp
    next
      case Tick
      have "cn_exit (connload_status A ?s) = None"
        using True by (simp add: connload_status_def connload_printf_def Let_def)
      with Tick s show ?thesis by (simp add: run_ok_def)
    qed
    then show ?thesis using True by (simp add: connload_turn_def te)
  qed
qed simp_all

lemmas connload_run_total = cn_run.run_total

lemma connload_start_ok: "run_ok L (connload_start L cfg g now out)"
proof -
  define s where "s = \<lparr>cn_config = cfg, cn_globals = g, cn_conns = [], cn_priv = (\<lambda>_. None), cn_timers = [],
        track_starttime = now, track_lasttime = now, track_num_connections = 0,
        track_num_transactions = 0, track_last_transactions = 0, track_conns = [],
        txn_enqueued = 0, cn_now = now, cn_exit = None, cn_out = out, cn_fault = False\<rparr>"
  have s: "book_ok s" "length (track_conns s) < max 1 (unat (config_num_conns (cn_config s)))" "cn_exit s = None"
    "cn_conns s = []"
    by (simp_all add: s_def book_ok_def)
  define u where "u = connload_create_connection L s"
  have "run_ok L u" using create_ok [OF s(1-3) u_def]
  proof (elim disjE exE)
    fix c
    assume "cn_exit u = None \<and> cn_conns u = cn_conns s @ [c] \<and> slot_ok L u (length (cn_conns s)) c \<and>
      cn_priv u = (cn_priv s)(length (cn_conns s) \<mapsto> \<lparr>node = length (cn_conns s), num_txns = 0\<rparr>) \<and> book_ok u"
    then show ?thesis by (simp add: run_ok_def all_ok_def s(4))
  qed (simp add: run_ok_def s(4) book_ok_def)
  then show ?thesis by (simp add: connload_start_def u_def s_def)
qed

end

text \<open>The configuration is the one the program was started with.\<close>

lemma config_simps [simp]:
  "cn_config (connload_printf t s) = cn_config s" "cn_config (write_priv q f s) = cn_config s"
  "cn_config (snd (read_priv q s)) = cn_config s" "cn_config (connload_create_connection L s) = cn_config s"
  "cn_config (put_conn i x) = cn_config (snd x)" "cn_config (connload_status A s) = cn_config s"
  by (simp_all add: connload_printf_def write_priv_def read_priv_def connload_create_connection_def put_conn_def
      connload_status_def Let_def split_beta split: option.split)

lemma destroy_config [simp]: "cn_config (snd (connload_destroy_connection L A c s)) = cn_config s"
  by (simp add: connload_destroy_connection_def Let_def split_beta split: option.split)

lemma enqueue_config: "connload_enqueue_tran L c s = Some r \<Longrightarrow> cn_config (snd r) = cn_config s"
  by (auto simp: connload_enqueue_tran_def Let_def split_beta split: Option.bind_splits)

lemma callback_config: "connload_callback L A i ty tp c s = Some r \<Longrightarrow> cn_config (snd r) = cn_config s"
  by (cases ty) (auto simp: connload_callback_def Let_def split_beta split: Option.bind_splits if_splits
      dest!: enqueue_config)

context app_api
begin

lemma deliver_config: "connload_deliver L A i es c s = Some r \<Longrightarrow> cn_config (snd r) = cn_config s"
proof (induction es arbitrary: c s)
  case Nil
  then show ?case by (subst (asm) connload_deliver.simps) auto
next
  case (Cons e es)
  from Cons.prems show ?case
    by (subst (asm) connload_deliver.simps)
      (auto simp: Let_def split_beta dest!: callback_config Cons.IH split: option.splits if_splits)
qed

lemma event_config:
  assumes "connload_event L A e s = Some s'"
  shows "cn_config s' = cn_config s"
proof (cases e)
  case (Of_conn i w)
  have "cn_config (snd r) = cn_config s" if "connload_handler L A i ty et c s = Some r" for ty et c r
    using that by (auto simp: connload_handler_def Let_def split_beta split: Option.bind_splits if_splits
        dest!: deliver_config)
  with assms Of_conn show ?thesis by (cases w) auto
qed (use assms in \<open>auto simp: connload_trans_delay_cb_def dest!: enqueue_config\<close>)

lemma run_config: "run_steps (connload_turn L A) es s = Some s' \<Longrightarrow> cn_config s' = cn_config s"
proof (induction es arbitrary: s)
  case (Cons e es)
  then obtain u where u: "connload_turn L A e s = Some u" "run_steps (connload_turn L A) es u = Some s'"
    by (auto split: Option.bind_splits)
  have "cn_config u = cn_config s" using u(1) by (auto simp: connload_turn_def split: if_splits dest!: event_config)
  with Cons.IH [OF u(2)] show ?case by simp
qed simp

end

text \<open>
  C39. A whole run of the connection load test, whatever its configuration and whatever sequence of
  events, delays and ticks arrives on all its connections, so long as no delay ends after its
  connection is gone: every event is handled, no NULL pointer is followed and no private data
  used after it was freed, the library is never led to touch freed memory, no lock stays held.
  There are never more connections open than asked for (and never none at all asked for), and
  the list of connections holds exactly those that are open.
\<close>

theorem connload_run_safe:
  assumes "app_api L A"
    and "steps_ok (connload_turn L A) (connload_legal L) (connload_start L cfg g now out) es"
  shows "\<exists>s. run_steps (connload_turn L A) es (connload_start L cfg g now out) = Some s \<and> \<not> cn_fault s \<and>
    (\<forall>c \<in> set (cn_conns s). \<not> fault c \<and> locks_held (calls c) = Some []) \<and>
    (cn_exit s = None \<longrightarrow>
       distinct (track_conns s) \<and> length (track_conns s) \<le> max 1 (unat (config_num_conns cfg)) \<and>
       (\<forall>j < length (cn_conns s). j \<in> set (track_conns s) \<longleftrightarrow> \<not> conn_freed (cn_conns s ! j)))"
proof -
  obtain s where s: "run_steps (connload_turn L A) es (connload_start L cfg g now out) = Some s" "run_ok L s"
    using app_api.connload_run_total [OF assms(1) app_api.connload_start_ok [OF assms(1)] assms(2)] by blast
  have cfg: "cn_config s = cfg"
    using app_api.run_config [OF assms(1) s(1)] by (simp add: connload_start_def)
  have "\<not> cn_fault s" using s(2) by (simp add: run_ok_def all_ok_def book_ok_def split: if_splits)
  moreover have "\<forall>c \<in> set (cn_conns s). calm c" using s(2) all_calm by (auto simp: run_ok_def split: if_splits)
  moreover have "distinct (track_conns s) \<and> length (track_conns s) \<le> max 1 (unat (config_num_conns cfg)) \<and>
      (\<forall>j < length (cn_conns s). j \<in> set (track_conns s) \<longleftrightarrow> \<not> conn_freed (cn_conns s ! j))"
    if "cn_exit s = None"
    using s(2) that cfg
    by (auto simp: run_ok_def all_ok_def book_ok_def slot_ok_def freed_at_def idle_conn_def client_part_def
        split: if_splits)
  ultimately show ?thesis using s(1) by (auto simp: calm_def)
qed

definition sample_connload :: connload_state where
  "sample_connload = connload_start (mstd_ref []) connload_default
     \<lparr>LM_once = False, tls_init = None, cleanup_handlers = 0\<rparr> 0 []"

lemma connload_run_safe_witness:
  "\<exists>s. run_steps (connload_turn (mstd_ref []) app_ref)
     [(1, Of_conn 0 (Socket_event M_EVENT_TYPE_ERROR)), (2, Tick)] sample_connload = Some s \<and> \<not> cn_fault s"
proof -
  let ?es = "[(1, Of_conn 0 (Socket_event M_EVENT_TYPE_ERROR)), (2, Tick)] :: (u64 \<times> connload_source) list"
  have "connload_may sample_connload (1, Of_conn 0 (Socket_event M_EVENT_TYPE_ERROR))" by code_simp
  moreover have "connload_fair (mstd_ref []) sample_connload (1, Of_conn 0 (Socket_event M_EVENT_TYPE_ERROR))"
    by code_simp
  ultimately have "steps_ok (connload_turn (mstd_ref []) app_ref) (connload_legal (mstd_ref [])) sample_connload ?es"
    by (auto simp: connload_legal_def split: option.split)
  from connload_run_safe [OF ref_app.app_api_axioms this [unfolded sample_connload_def]]
  show ?thesis unfolding sample_connload_def by blast
qed



end
